theory Spec2Isabelle
  imports Complex_Main "HOL-Library.Char_ord" "HOL-Library.List_Lexorder"
    "HOL-Library.Product_Lexorder" "HOL-Library.AList" "HOL-Library.Multiset"
begin

section \<open>Python's \<open>Decimal\<close> under the default context\<close>

text \<open>
  The services compute with \<open>decimal.Decimal\<close> and never change the arithmetic context,
  so every \<open>+\<close>, \<open>-\<close> and \<open>*\<close> runs under Python's default context: precision 28,
  rounding ROUND_HALF_EVEN. A finite decimal is a signed integer coefficient and an
  exponent, standing for \<open>coefficient * 10 ^ exponent\<close>. An operation first forms the
  exact result and then, when its coefficient has more than 28 digits, rounds it to 28
  digits. Comparisons (\<open><\<close>, \<open><=\<close>, \<open>==\<close>) are by numerical value.

  Not modelled: NaN and the infinities (no column of the database holds them), the sign
  of zero (it only shows when a value is printed) and the exponent limits of the context
  (\<open>Emax = 999999\<close>, far from every value an 18-digit column can hold).
\<close>

datatype decimal = Decimal (coefficient: int) (exponent: int)

definition dval :: "decimal \<Rightarrow> rat" where
  "dval d = of_int (coefficient d) * 10 powi (exponent d)"

definition prec :: nat where
  "prec = 28"

fun ndigits :: "nat \<Rightarrow> nat" where
  "ndigits n = (if n < 10 then 1 else Suc (ndigits (n div 10)))"

declare ndigits.simps [simp del]

definition round_half_even :: "nat \<Rightarrow> nat \<Rightarrow> nat" where
  "round_half_even c k =
     (let q = c div 10 ^ k; r = c mod 10 ^ k
      in if 2 * r > 10 ^ k \<or> (2 * r = 10 ^ k \<and> odd q) then q + 1 else q)"

definition fits :: "decimal \<Rightarrow> bool" where
  "fits d = (ndigits (nat \<bar>coefficient d\<bar>) \<le> prec)"

definition fix_ctx :: "decimal \<Rightarrow> decimal" where
  "fix_ctx d =
     (let c = coefficient d; e = exponent d; n = ndigits (nat \<bar>c\<bar>)
      in if n \<le> prec then d
         else let k = n - prec; q = round_half_even (nat \<bar>c\<bar>) k
              in if q = 10 ^ prec then Decimal (sgn c * 10 ^ (prec - 1)) (e + int k + 1)
                 else Decimal (sgn c * int q) (e + int k))"

definition mul_raw :: "decimal \<Rightarrow> decimal \<Rightarrow> decimal" where
  "mul_raw a b = Decimal (coefficient a * coefficient b) (exponent a + exponent b)"

definition rescale :: "decimal \<Rightarrow> int \<Rightarrow> int" where
  "rescale a m = coefficient a * 10 ^ nat (exponent a - m)"

definition add_raw :: "decimal \<Rightarrow> decimal \<Rightarrow> decimal" where
  "add_raw a b =
     (let m = min (exponent a) (exponent b) in Decimal (rescale a m + rescale b m) m)"

definition dec_neg :: "decimal \<Rightarrow> decimal" where
  "dec_neg a = Decimal (- coefficient a) (exponent a)"

definition sub_raw :: "decimal \<Rightarrow> decimal \<Rightarrow> decimal" where
  "sub_raw a b = add_raw a (dec_neg b)"

definition dec_mul :: "decimal \<Rightarrow> decimal \<Rightarrow> decimal" where
  "dec_mul a b = fix_ctx (mul_raw a b)"

definition dec_add :: "decimal \<Rightarrow> decimal \<Rightarrow> decimal" where
  "dec_add a b = fix_ctx (add_raw a b)"

definition dec_sub :: "decimal \<Rightarrow> decimal \<Rightarrow> decimal" where
  "dec_sub a b = fix_ctx (sub_raw a b)"

definition dec_less :: "decimal \<Rightarrow> decimal \<Rightarrow> bool" where
  "dec_less a b = (dval a < dval b)"

definition dec_le :: "decimal \<Rightarrow> decimal \<Rightarrow> bool" where
  "dec_le a b = (dval a \<le> dval b)"

definition dec_eq :: "decimal \<Rightarrow> decimal \<Rightarrow> bool" where
  "dec_eq a b = (dval a = dval b)"

definition dec_zero :: decimal where
  "dec_zero = Decimal 0 0"

text \<open>The builtin \<open>min(a, b)\<close> returns its first argument unless the second is smaller.\<close>

definition py_min :: "decimal \<Rightarrow> decimal \<Rightarrow> decimal" where
  "py_min a b = (if dec_less b a then b else a)"

text \<open>The builtin \<open>sum\<close> adds from the left, starting at the integer 0.\<close>

definition py_sum :: "decimal list \<Rightarrow> decimal" where
  "py_sum xs = foldl dec_add dec_zero xs"

text \<open>
  \<open>a.quantize(Decimal(1).scaleb(-places))\<close>: the value of \<open>a\<close> written with exactly
  \<open>places\<close> decimal places, padded with zeros or rounded half-even.
\<close>

definition quantize_dec :: "nat \<Rightarrow> decimal \<Rightarrow> decimal" where
  "quantize_dec places a =
     (let e = - int places
      in if e \<le> exponent a then Decimal (rescale a e) e
         else Decimal (sgn (coefficient a)
                        * int (round_half_even (nat \<bar>coefficient a\<bar>) (nat (e - exponent a)))) e)"


section \<open>Dates\<close>

text \<open>
  \<open>datetime.date\<close>: the constructor takes its three arguments as C integers and raises
  \<open>OverflowError\<close> for one that a signed 32-bit integer cannot hold; it rejects a year
  outside 1..9999 and a day that the month does not have with \<open>ValueError\<close>; dates
  compare by (year, month, day); the difference of two dates counts days between their
  proleptic Gregorian ordinals.
\<close>

datatype date = Date (year: int) (month: int) (day: int)

definition is_leap :: "int \<Rightarrow> bool" where
  "is_leap y = (y mod 4 = 0 \<and> (y mod 100 \<noteq> 0 \<or> y mod 400 = 0))"

definition days_in_month :: "int \<Rightarrow> int \<Rightarrow> int" where
  "days_in_month y m =
     (if m = 2 then (if is_leap y then 29 else 28)
      else if m = 4 \<or> m = 6 \<or> m = 9 \<or> m = 11 then 30 else 31)"

definition days_before_year :: "int \<Rightarrow> int" where
  "days_before_year y = (y - 1) * 365 + (y - 1) div 4 - (y - 1) div 100 + (y - 1) div 400"

definition days_before_month :: "int \<Rightarrow> int \<Rightarrow> int" where
  "days_before_month y m =
     [0, 31, 59, 90, 120, 151, 181, 212, 243, 273, 304, 334] ! nat (m - 1)
       + (if m > 2 \<and> is_leap y then 1 else 0)"

definition toordinal :: "date \<Rightarrow> int" where
  "toordinal d = days_before_year (year d) + days_before_month (year d) (month d) + day d"

definition days_between :: "date \<Rightarrow> date \<Rightarrow> int" where
  "days_between a b = toordinal a - toordinal b"

definition date_key :: "date \<Rightarrow> int \<times> int \<times> int" where
  "date_key d = (year d, month d, day d)"

definition date_le :: "date \<Rightarrow> date \<Rightarrow> bool" where
  "date_le a b = (date_key a \<le> date_key b)"

section \<open>Errors\<close>

datatype matching_error =
    NotASell
  | UnknownStrategy string
  | Insufficient decimal decimal
  | ManualRequires
  | LengthMismatch
  | OverParcel decimal nat decimal
  | DifferentSecurity nat
  | TotalMismatch decimal decimal
  | RaceCondition nat decimal decimal

datatype forecast_error =
    QuantityNotPositive
  | PriceNotPositive
  | NoParcels string
  | InsufficientParcels decimal decimal string

datatype error =
    MatchingError matching_error
  | ForecastError forecast_error
  | ValueError
  | OverflowError
  | InvalidOperation
  | IntegrityError
  | DoesNotExist

definition c_int :: "int \<Rightarrow> bool" where
  "c_int x = (- (2 ^ 31) \<le> x \<and> x < 2 ^ 31)"

definition mk_date :: "int \<Rightarrow> int \<Rightarrow> int \<Rightarrow> error + date" where
  "mk_date y m d =
     (if \<not> (c_int y \<and> c_int m \<and> c_int d) then Inl OverflowError
      else if 1 \<le> y \<and> y \<le> 9999 \<and> 1 \<le> m \<and> m \<le> 12 \<and> 1 \<le> d \<and> d \<le> days_in_month y m
      then Inr (Date y m d) else Inl ValueError)"

section \<open>Models\<close>

text \<open>
  The rows of \<open>tracker/models\<close>, with the fields the services read or write. A foreign
  key is the referenced object, as the ORM presents it; \<open>parcel.security_id\<close> is
  \<open>sec_pk (parcel_security parcel)\<close>. The forecast hands \<open>calculate_cgt\<close> a stand-in
  sell with a transaction's first five fields only, so those form a record of their own
  that \<open>transaction\<close> extends. The dictionary \<open>calculate_cgt\<close> returns is the record
  \<open>cgt\<close>; a \<open>ParcelMatch\<close> and a forecast's per-parcel entry both carry its seven
  entries and extend it.
\<close>

record security =
  sec_pk :: nat
  ticker :: string

datatype transaction_type = BUY | SELL

record sell_like =
  security :: security
  trade_date :: date
  unit_price :: decimal
  exchange_rate :: decimal
  transaction_type :: transaction_type

record transaction = sell_like +
  quantity :: decimal
  brokerage :: decimal
  total_value :: decimal

record parcel =
  parcel_id :: nat
  parcel_security :: security
  acquisition_date :: date
  original_quantity :: decimal
  remaining_quantity :: decimal
  cost_per_unit_aud :: decimal
  total_cost_base_aud :: decimal
  is_fully_matched :: bool

record cgt =
  cost_base_aud :: decimal
  proceeds_aud :: decimal
  capital_gain_loss :: decimal
  holding_period_days :: int
  cgt_discount_eligible :: bool
  discount_amount :: decimal
  net_capital_gain :: decimal

record parcel_match = cgt +
  parcel :: parcel
  sell_transaction :: transaction
  matched_quantity :: decimal

text \<open>The database: the parcel table and the table of persisted matches, in row order.\<close>

record db =
  parcels :: "parcel list"
  parcel_matches :: "parcel_match list"

text \<open>
  A \<open>DecimalField(max_digits, decimal_places)\<close> holds what Django's conversion for the
  database makes of the value: \<open>quantize\<close> to \<open>decimal_places\<close> under a context of
  precision \<open>max_digits\<close>, which raises \<open>decimal.InvalidOperation\<close> when the rounded
  coefficient has more than \<open>max_digits\<close> digits. The object in memory keeps the value it
  was given; a later read of the row returns the column's value. (A backend that leaves
  the rounding to the database rounds to the same number of places and differs on exact
  ties and in the exception.)
\<close>

definition column_fits :: "nat \<Rightarrow> nat \<Rightarrow> decimal \<Rightarrow> bool" where
  "column_fits max_digits places a = (\<bar>coefficient (quantize_dec places a)\<bar> < 10 ^ max_digits)"

definition to_column :: "nat \<Rightarrow> nat \<Rightarrow> decimal \<Rightarrow> error + decimal" where
  "to_column max_digits places a =
     (if column_fits max_digits places a then Inr (quantize_dec places a)
      else Inl InvalidOperation)"

section \<open>\<open>services/cgt.py\<close>: the tax calculator\<close>

definition calculate_cgt :: "parcel \<Rightarrow> 'a sell_like_scheme \<Rightarrow> decimal \<Rightarrow> cgt" where
  "calculate_cgt p sell qty =
     (let cost_base = dec_mul (cost_per_unit_aud p) qty;
          sell_rate = exchange_rate sell;
          proceeds_per_unit = dec_mul (unit_price sell) sell_rate;
          proceeds = dec_mul proceeds_per_unit qty;
          gain = dec_sub proceeds cost_base;
          days = days_between (trade_date sell) (acquisition_date p);
          eligible = (days > 365 \<and> dec_less dec_zero gain);
          discount = (if eligible then dec_mul gain (Decimal 5 (- 1)) else dec_zero);
          net = dec_sub gain discount
      in \<lparr>cost_base_aud = cost_base, proceeds_aud = proceeds, capital_gain_loss = gain,
          holding_period_days = days, cgt_discount_eligible = eligible,
          discount_amount = discount, net_capital_gain = net\<rparr>)"

definition get_fy_range :: "int \<Rightarrow> error + (date \<times> date)" where
  "get_fy_range financial_year =
     (case mk_date (financial_year - 1) 7 1 of
        Inl e \<Rightarrow> Inl e
      | Inr start \<Rightarrow>
          (case mk_date financial_year 6 30 of
             Inl e \<Rightarrow> Inl e
           | Inr end_date \<Rightarrow> Inr (start, end_date)))"


section \<open>Queries\<close>

text \<open>
  \<open>Parcel.objects.filter(security=..., remaining_quantity__gt=0)\<close> keeps the rows of the
  security that still hold units; \<open>order_by\<close> sorts them. The order of rows with equal
  keys is the database's; here the sort is stable, and a descending order is the
  ascending one reversed. Without \<open>order_by\<close> the model's \<open>Meta.ordering\<close> applies
  (\<open>acquisition_date\<close> for parcels, the parcel's acquisition date for matches).
\<close>

definition available :: "db \<Rightarrow> security \<Rightarrow> parcel list" where
  "available d sec =
     filter (\<lambda>p. sec_pk (parcel_security p) = sec_pk sec
                 \<and> dec_less dec_zero (remaining_quantity p)) (parcels d)"

definition by_acquisition_date :: "parcel list \<Rightarrow> parcel list" where
  "by_acquisition_date ps = sort_key (\<lambda>p. date_key (acquisition_date p)) ps"

definition by_acquisition_date_desc :: "parcel list \<Rightarrow> parcel list" where
  "by_acquisition_date_desc ps = rev (by_acquisition_date ps)"

definition by_cost_per_unit_desc :: "parcel list \<Rightarrow> parcel list" where
  "by_cost_per_unit_desc ps = rev (sort_key (\<lambda>p. dval (cost_per_unit_aud p)) ps)"

definition get_parcel :: "db \<Rightarrow> nat \<Rightarrow> parcel option" where
  "get_parcel d pk = find (\<lambda>p. parcel_id p = pk) (parcels d)"

section \<open>\<open>services/matching.py\<close>: allocation and commit\<close>

definition build_match :: "parcel \<Rightarrow> transaction \<Rightarrow> decimal \<Rightarrow> parcel_match" where
  "build_match p sell qty =
     (let c = calculate_cgt p sell qty
      in \<lparr>cost_base_aud = cost_base_aud c, proceeds_aud = proceeds_aud c,
          capital_gain_loss = capital_gain_loss c,
          holding_period_days = holding_period_days c,
          cgt_discount_eligible = cgt_discount_eligible c,
          discount_amount = discount_amount c, net_capital_gain = net_capital_gain c,
          parcel = p, sell_transaction = sell, matched_quantity = qty\<rparr>)"

text \<open>The loop of \<open>_match_auto\<close>: the matches so far and what is still needed.\<close>

fun match_auto_loop ::
  "transaction \<Rightarrow> parcel list \<Rightarrow> decimal \<Rightarrow> parcel_match list \<Rightarrow> parcel_match list \<times> decimal"
where
  "match_auto_loop sell [] remaining matches = (matches, remaining)"
| "match_auto_loop sell (p # ps) remaining matches =
     (if dec_le remaining dec_zero then (matches, remaining)
      else let qty_from_parcel = py_min (remaining_quantity p) remaining
           in match_auto_loop sell ps (dec_sub remaining qty_from_parcel)
                (matches @ [build_match p sell qty_from_parcel]))"

definition match_auto :: "db \<Rightarrow> transaction \<Rightarrow> decimal \<Rightarrow> string \<Rightarrow> error + parcel_match list" where
  "match_auto d sell sell_qty strategy =
     (let available_parcels =
            (if strategy = ''fifo'' then by_acquisition_date (available d (security sell))
             else by_acquisition_date_desc (available d (security sell)));
          (matches, remaining) = match_auto_loop sell available_parcels sell_qty []
      in if dec_less dec_zero remaining
         then Inl (MatchingError (Insufficient sell_qty (dec_sub sell_qty remaining)))
         else Inr matches)"

text \<open>The loop of \<open>_match_manual\<close> over the zipped pairs, with the running total.\<close>

fun match_manual_loop ::
  "transaction \<Rightarrow> (parcel \<times> decimal) list \<Rightarrow> parcel_match list \<Rightarrow> decimal
     \<Rightarrow> error + (parcel_match list \<times> decimal)"
where
  "match_manual_loop sell [] matches total_matched = Inr (matches, total_matched)"
| "match_manual_loop sell ((p, qty) # rest) matches total_matched =
     (if dec_le qty dec_zero then match_manual_loop sell rest matches total_matched
      else if dec_less (remaining_quantity p) qty
      then Inl (MatchingError (OverParcel qty (parcel_id p) (remaining_quantity p)))
      else if sec_pk (parcel_security p) \<noteq> sec_pk (security sell)
      then Inl (MatchingError (DifferentSecurity (parcel_id p)))
      else match_manual_loop sell rest (matches @ [build_match p sell qty])
             (dec_add total_matched qty))"

definition match_manual ::
  "transaction \<Rightarrow> decimal \<Rightarrow> parcel list option \<Rightarrow> decimal list option \<Rightarrow> error + parcel_match list"
where
  "match_manual sell sell_qty ps quantities =
     (case (ps, quantities) of
        (Some pl, Some ql) \<Rightarrow>
          (if pl = [] \<or> ql = [] then Inl (MatchingError ManualRequires)
           else if length pl \<noteq> length ql then Inl (MatchingError LengthMismatch)
           else (case match_manual_loop sell (zip pl ql) [] dec_zero of
                   Inl e \<Rightarrow> Inl e
                 | Inr (matches, total_matched) \<Rightarrow>
                     (if \<not> dec_eq total_matched sell_qty
                      then Inl (MatchingError (TotalMismatch total_matched sell_qty))
                      else Inr matches)))
      | _ \<Rightarrow> Inl (MatchingError ManualRequires))"

definition match ::
  "db \<Rightarrow> transaction \<Rightarrow> string \<Rightarrow> parcel list option \<Rightarrow> decimal list option
     \<Rightarrow> error + parcel_match list"
where
  "match d sell strategy ps quantities =
     (if transaction_type sell \<noteq> SELL then Inl (MatchingError NotASell)
      else let sell_qty = quantity sell
           in if strategy = ''manual'' then match_manual sell sell_qty ps quantities
              else if strategy = ''fifo'' \<or> strategy = ''lifo''
              then match_auto d sell sell_qty strategy
              else Inl (MatchingError (UnknownStrategy strategy)))"

text \<open>
  \<open>parcel.save(update_fields=["remaining_quantity", "is_fully_matched"])\<close> writes the two
  named columns of the row with the parcel's key, the quantity as its column
  (\<open>max_digits=18, decimal_places=8\<close>) holds it.
\<close>

definition save_parcel :: "db \<Rightarrow> parcel \<Rightarrow> error + db" where
  "save_parcel d p =
     (case to_column 18 8 (remaining_quantity p) of
        Inl e \<Rightarrow> Inl e
      | Inr v \<Rightarrow>
          Inr (d\<lparr>parcels :=
                   map (\<lambda>r. if parcel_id r = parcel_id p
                             then r\<lparr>remaining_quantity := v,
                                    is_fully_matched := is_fully_matched p\<rparr>
                             else r) (parcels d)\<rparr>))"

text \<open>
  \<open>match_obj.save()\<close> inserts a new row. Each decimal field goes through its column:
  \<open>matched_quantity\<close> has 8 decimal places, the five amounts have 6, all of 18 digits. The
  row's foreign key names the parcel by its key, so a reader of the row sees the parcel's
  row of the table; a key without a row violates the constraint.
\<close>

definition match_fits :: "parcel_match \<Rightarrow> bool" where
  "match_fits m =
     (column_fits 18 8 (matched_quantity m)
      \<and> column_fits 18 6 (cost_base_aud m)
      \<and> column_fits 18 6 (proceeds_aud m)
      \<and> column_fits 18 6 (capital_gain_loss m)
      \<and> column_fits 18 6 (discount_amount m)
      \<and> column_fits 18 6 (net_capital_gain m))"

definition stored_match :: "parcel_match \<Rightarrow> parcel_match" where
  "stored_match m =
     m\<lparr>matched_quantity := quantize_dec 8 (matched_quantity m),
       cost_base_aud := quantize_dec 6 (cost_base_aud m),
       proceeds_aud := quantize_dec 6 (proceeds_aud m),
       capital_gain_loss := quantize_dec 6 (capital_gain_loss m),
       discount_amount := quantize_dec 6 (discount_amount m),
       net_capital_gain := quantize_dec 6 (net_capital_gain m)\<rparr>"

definition save_match :: "db \<Rightarrow> parcel_match \<Rightarrow> error + db" where
  "save_match d m =
     (if match_fits m
      then (case get_parcel d (parcel_id (parcel m)) of
              None \<Rightarrow> Inl IntegrityError
            | Some r \<Rightarrow>
                Inr (d\<lparr>parcel_matches := parcel_matches d @ [(stored_match m)\<lparr>parcel := r\<rparr>]\<rparr>))
      else Inl InvalidOperation)"

text \<open>One pass of the loop of \<open>confirm_matches\<close>, and the loop.\<close>

definition confirm_step :: "db \<Rightarrow> parcel_match \<Rightarrow> error + (db \<times> parcel_match)" where
  "confirm_step d match_obj =
     (case get_parcel d (parcel_id (parcel match_obj)) of
        None \<Rightarrow> Inl DoesNotExist
      | Some p \<Rightarrow>
          (if dec_less (remaining_quantity p) (matched_quantity match_obj)
           then Inl (MatchingError (RaceCondition (parcel_id p) (remaining_quantity p)
                                      (matched_quantity match_obj)))
           else let p1 = p\<lparr>remaining_quantity :=
                              dec_sub (remaining_quantity p) (matched_quantity match_obj)\<rparr>;
                    p2 = (if dec_eq (remaining_quantity p1) dec_zero
                          then p1\<lparr>is_fully_matched := True\<rparr> else p1);
                    m = match_obj\<lparr>parcel := p2\<rparr>
                in (case save_parcel d p2 of
                      Inl e \<Rightarrow> Inl e
                    | Inr d1 \<Rightarrow>
                        (case save_match d1 m of
                           Inl e \<Rightarrow> Inl e
                         | Inr d2 \<Rightarrow> Inr (d2, m)))))"

fun confirm_loop :: "db \<Rightarrow> parcel_match list \<Rightarrow> parcel_match list \<Rightarrow> error + (db \<times> parcel_match list)"
where
  "confirm_loop d [] saved = Inr (d, saved)"
| "confirm_loop d (match_obj # rest) saved =
     (case confirm_step d match_obj of
        Inl e \<Rightarrow> Inl e
      | Inr (d', m) \<Rightarrow> confirm_loop d' rest (saved @ [m]))"

text \<open>
  \<open>@transaction.atomic\<close>: an exception leaving the function rolls every write of the call
  back, so the database after a failed call is the database before it.
\<close>

definition confirm_matches :: "db \<Rightarrow> parcel_match list \<Rightarrow> (error + parcel_match list) \<times> db" where
  "confirm_matches d matches =
     (case confirm_loop d matches [] of
        Inl e \<Rightarrow> (Inl e, d)
      | Inr (d', saved) \<Rightarrow> (Inr saved, d'))"


section \<open>\<open>services/forecasting.py\<close>: the forecast\<close>

text \<open>A per-parcel entry of \<open>parcels_consumed\<close>, and the dictionary a simulation returns.\<close>

record consumed = cgt +
  c_parcel_id :: nat
  c_acquisition_date :: date
  c_matched_quantity :: decimal
  c_cost_per_unit_aud :: decimal

record strategy_result =
  parcels_consumed :: "consumed list"
  total_cost_base :: decimal
  total_proceeds :: decimal
  total_gain_loss :: decimal
  total_discount :: decimal
  total_net_gain :: decimal
  quantity_matched :: decimal
  quantity_shortfall :: decimal

text \<open>The local variables of \<open>_simulate_strategy\<close> that its loop updates.\<close>

record sim =
  sim_consumed :: "consumed list"
  sim_remaining :: decimal
  sim_cost_base :: decimal
  sim_proceeds :: decimal
  sim_gain_loss :: decimal
  sim_discount :: decimal
  sim_net_gain :: decimal

definition consumed_entry :: "parcel \<Rightarrow> decimal \<Rightarrow> cgt \<Rightarrow> consumed" where
  "consumed_entry p qty c =
     \<lparr>cost_base_aud = cost_base_aud c, proceeds_aud = proceeds_aud c,
      capital_gain_loss = capital_gain_loss c,
      holding_period_days = holding_period_days c,
      cgt_discount_eligible = cgt_discount_eligible c,
      discount_amount = discount_amount c, net_capital_gain = net_capital_gain c,
      c_parcel_id = parcel_id p, c_acquisition_date = acquisition_date p,
      c_matched_quantity = qty, c_cost_per_unit_aud = cost_per_unit_aud p\<rparr>"

fun simulate_loop :: "sell_like \<Rightarrow> parcel list \<Rightarrow> sim \<Rightarrow> sim" where
  "simulate_loop fake_sell [] s = s"
| "simulate_loop fake_sell (p # ps) s =
     (if dec_le (sim_remaining s) dec_zero then s
      else let qty = py_min (remaining_quantity p) (sim_remaining s);
               c = calculate_cgt p fake_sell qty
           in simulate_loop fake_sell ps
                \<lparr>sim_consumed = sim_consumed s @ [consumed_entry p qty c],
                 sim_remaining = dec_sub (sim_remaining s) qty,
                 sim_cost_base = dec_add (sim_cost_base s) (cost_base_aud c),
                 sim_proceeds = dec_add (sim_proceeds s) (proceeds_aud c),
                 sim_gain_loss = dec_add (sim_gain_loss s) (capital_gain_loss c),
                 sim_discount = dec_add (sim_discount s) (discount_amount c),
                 sim_net_gain = dec_add (sim_net_gain s) (net_capital_gain c)\<rparr>)"

definition fake_sell_transaction :: "security \<Rightarrow> date \<Rightarrow> decimal \<Rightarrow> sell_like" where
  "fake_sell_transaction sec sell_date sell_price =
     \<lparr>security = sec, trade_date = sell_date, unit_price = sell_price,
      exchange_rate = Decimal 1 0, transaction_type = SELL\<rparr>"

definition simulate_strategy ::
  "parcel list \<Rightarrow> security \<Rightarrow> decimal \<Rightarrow> decimal \<Rightarrow> date \<Rightarrow> strategy_result" where
  "simulate_strategy ps sec qty sell_price sell_date =
     (let fake_sell = fake_sell_transaction sec sell_date sell_price;
          s = simulate_loop fake_sell ps
                \<lparr>sim_consumed = [], sim_remaining = qty, sim_cost_base = dec_zero,
                 sim_proceeds = dec_zero, sim_gain_loss = dec_zero,
                 sim_discount = dec_zero, sim_net_gain = dec_zero\<rparr>
      in \<lparr>parcels_consumed = sim_consumed s, total_cost_base = sim_cost_base s,
          total_proceeds = sim_proceeds s, total_gain_loss = sim_gain_loss s,
          total_discount = sim_discount s, total_net_gain = sim_net_gain s,
          quantity_matched = dec_sub qty (sim_remaining s),
          quantity_shortfall = sim_remaining s\<rparr>)"

record forecast_result =
  f_security :: security
  f_quantity :: decimal
  f_sell_price :: decimal
  f_sell_date :: date
  fifo :: strategy_result
  lifo :: strategy_result
  optimal :: strategy_result

text \<open>
  \<open>forecast\<close> reads the parcel table and writes nothing, so it returns the database it
  was given. \<open>today\<close> stands for \<open>date.today()\<close>, the default of \<open>sell_date\<close>.
\<close>

definition forecast ::
  "date \<Rightarrow> db \<Rightarrow> security \<Rightarrow> decimal \<Rightarrow> decimal \<Rightarrow> date option
     \<Rightarrow> (error + forecast_result) \<times> db" where
  "forecast today d sec qty sell_price sell_date_arg =
     (let sell_date = (case sell_date_arg of None \<Rightarrow> today | Some x \<Rightarrow> x)
      in if dec_le qty dec_zero then (Inl (ForecastError QuantityNotPositive), d)
         else if dec_le sell_price dec_zero then (Inl (ForecastError PriceNotPositive), d)
         else let base_qs = available d sec
              in if base_qs = [] then (Inl (ForecastError (NoParcels (ticker sec))), d)
                 else let total_available =
                            py_sum (map remaining_quantity (by_acquisition_date base_qs))
                      in if dec_less total_available qty
                         then (Inl (ForecastError
                                      (InsufficientParcels qty total_available (ticker sec))), d)
                         else (Inr \<lparr>f_security = sec, f_quantity = qty,
                                    f_sell_price = sell_price, f_sell_date = sell_date,
                                    fifo = simulate_strategy (by_acquisition_date base_qs)
                                             sec qty sell_price sell_date,
                                    lifo = simulate_strategy (by_acquisition_date_desc base_qs)
                                             sec qty sell_price sell_date,
                                    optimal = simulate_strategy (by_cost_per_unit_desc base_qs)
                                                sec qty sell_price sell_date\<rparr>, d))"

section \<open>\<open>services/cgt.py\<close>: the financial-year summary\<close>

record sec_summary =
  sec_ticker :: string
  gains :: decimal
  losses :: decimal
  discounts :: decimal
  net :: decimal
  sec_match_count :: nat

record fy_result =
  financial_year :: int
  start_date :: date
  end_date :: date
  total_gains :: decimal
  total_losses :: decimal
  total_discounts :: decimal
  fy_net_capital_gain :: decimal
  match_count :: nat
  per_security :: "sec_summary list"

text \<open>
  The accumulators of the loop of \<open>fy_summary\<close>. The dictionary \<open>per_security\<close> is an
  association list in insertion order; a ticker met for the first time starts from the
  all-zero entry, and the entry of the ticker is then updated in place.
\<close>

record fy_acc =
  acc_gains :: decimal
  acc_losses :: decimal
  acc_discounts :: decimal
  acc_net :: decimal
  acc_per_security :: "(string \<times> sec_summary) list"

definition match_ticker :: "parcel_match \<Rightarrow> string" where
  "match_ticker m = ticker (parcel_security (parcel m))"

definition new_sec_summary :: "string \<Rightarrow> sec_summary" where
  "new_sec_summary t =
     \<lparr>sec_ticker = t, gains = dec_zero, losses = dec_zero, discounts = dec_zero,
      net = dec_zero, sec_match_count = 0\<rparr>"

definition sec_step :: "sec_summary \<Rightarrow> parcel_match \<Rightarrow> sec_summary" where
  "sec_step sec m =
     (let sec1 = (if dec_less dec_zero (capital_gain_loss m)
                  then sec\<lparr>gains := dec_add (gains sec) (capital_gain_loss m)\<rparr>
                  else sec\<lparr>losses := dec_add (losses sec) (capital_gain_loss m)\<rparr>)
      in sec1\<lparr>discounts := dec_add (discounts sec1) (discount_amount m),
              net := dec_add (net sec1) (net_capital_gain m),
              sec_match_count := sec_match_count sec1 + 1\<rparr>)"

definition fy_step :: "fy_acc \<Rightarrow> parcel_match \<Rightarrow> fy_acc" where
  "fy_step a m =
     (let t = match_ticker m;
          a1 = (if dec_less dec_zero (capital_gain_loss m)
                then a\<lparr>acc_gains := dec_add (acc_gains a) (capital_gain_loss m)\<rparr>
                else a\<lparr>acc_losses := dec_add (acc_losses a) (capital_gain_loss m)\<rparr>);
          a2 = a1\<lparr>acc_discounts := dec_add (acc_discounts a1) (discount_amount m),
                  acc_net := dec_add (acc_net a1) (net_capital_gain m)\<rparr>;
          sec = (case map_of (acc_per_security a2) t of
                   None \<Rightarrow> new_sec_summary t | Some x \<Rightarrow> x)
      in a2\<lparr>acc_per_security := AList.update t (sec_step sec m) (acc_per_security a2)\<rparr>)"

definition in_fy :: "date \<Rightarrow> date \<Rightarrow> parcel_match \<Rightarrow> bool" where
  "in_fy fy_start fy_end m =
     (date_le fy_start (trade_date (sell_transaction m))
      \<and> date_le (trade_date (sell_transaction m)) fy_end)"

definition fy_matches :: "db \<Rightarrow> date \<Rightarrow> date \<Rightarrow> parcel_match list" where
  "fy_matches d fy_start fy_end =
     sort_key (\<lambda>m. date_key (acquisition_date (parcel m)))
       (filter (in_fy fy_start fy_end) (parcel_matches d))"

definition fy_summary :: "db \<Rightarrow> int \<Rightarrow> error + fy_result" where
  "fy_summary d fy =
     (case get_fy_range fy of
        Inl e \<Rightarrow> Inl e
      | Inr (fy_start, fy_end) \<Rightarrow>
          (let matches = fy_matches d fy_start fy_end;
               a = foldl fy_step
                     \<lparr>acc_gains = dec_zero, acc_losses = dec_zero, acc_discounts = dec_zero,
                      acc_net = dec_zero, acc_per_security = []\<rparr> matches
           in Inr \<lparr>financial_year = fy, start_date = fy_start, end_date = fy_end,
                   total_gains = acc_gains a, total_losses = acc_losses a,
                   total_discounts = acc_discounts a, fy_net_capital_gain = acc_net a,
                   match_count = length matches,
                   per_security = sort_key sec_ticker (map snd (acc_per_security a))\<rparr>))"


section \<open>Example data\<close>

text \<open>
  Lot A and the sell of the specification's worked example, and inputs that the 18-digit
  columns can hold whose products need more than 28 digits.
\<close>

definition asx :: security where
  "asx = \<lparr>sec_pk = 1, ticker = ''BHP.AX''\<rparr>"











text \<open>
  The commit as the specification words it, without the guards: one allocation decrements
  its parcel's remaining quantity and sets the depleted flag when the new remaining
  quantity is zero; the parcel's row then holds the new quantity as its column stores it,
  and the allocation is persisted, its figures as their columns store them, next to that
  row. \<open>refreshed\<close> is the allocation the commit returns, with the parcel as decremented
  in memory. \<open>missing\<close>, \<open>exceeds\<close> and \<open>unstorable\<close> say what the commit finds when it
  re-reads the parcel of an allocation and when it writes.
\<close>

definition decremented :: "parcel \<Rightarrow> decimal \<Rightarrow> parcel" where
  "decremented p qty =
     p\<lparr>remaining_quantity := dec_sub (remaining_quantity p) qty,
       is_fully_matched :=
         (is_fully_matched p \<or> dec_eq (dec_sub (remaining_quantity p) qty) dec_zero)\<rparr>"

definition refreshed :: "db \<Rightarrow> parcel_match \<Rightarrow> parcel_match" where
  "refreshed d m =
     (case get_parcel d (parcel_id (parcel m)) of
        None \<Rightarrow> m
      | Some p \<Rightarrow> m\<lparr>parcel := decremented p (matched_quantity m)\<rparr>)"

definition stored_parcel :: "parcel \<Rightarrow> parcel" where
  "stored_parcel p = p\<lparr>remaining_quantity := quantize_dec 8 (remaining_quantity p)\<rparr>"

definition spec_row :: "db \<Rightarrow> parcel_match \<Rightarrow> parcel_match" where
  "spec_row d m =
     (case get_parcel d (parcel_id (parcel m)) of
        None \<Rightarrow> stored_match m
      | Some p \<Rightarrow>
          (stored_match m)\<lparr>parcel := stored_parcel (decremented p (matched_quantity m))\<rparr>)"

definition spec_commit_one :: "db \<Rightarrow> parcel_match \<Rightarrow> db" where
  "spec_commit_one d m =
     (case get_parcel d (parcel_id (parcel m)) of
        None \<Rightarrow> d
      | Some p \<Rightarrow>
          d\<lparr>parcels :=
              map (\<lambda>r. if parcel_id r = parcel_id p
                        then r\<lparr>remaining_quantity :=
                                 remaining_quantity
                                   (stored_parcel (decremented p (matched_quantity m))),
                               is_fully_matched :=
                                 is_fully_matched (decremented p (matched_quantity m))\<rparr>
                        else r) (parcels d),
            parcel_matches := parcel_matches d @ [spec_row d m]\<rparr>)"

definition spec_commit_all :: "db \<Rightarrow> parcel_match list \<Rightarrow> db" where
  "spec_commit_all d ms = foldl spec_commit_one d ms"

fun spec_saved :: "db \<Rightarrow> parcel_match list \<Rightarrow> parcel_match list" where
  "spec_saved d [] = []"
| "spec_saved d (m # ms) = refreshed d m # spec_saved (spec_commit_one d m) ms"

fun spec_rows :: "db \<Rightarrow> parcel_match list \<Rightarrow> parcel_match list" where
  "spec_rows d [] = []"
| "spec_rows d (m # ms) = spec_row d m # spec_rows (spec_commit_one d m) ms"

definition missing :: "db \<Rightarrow> parcel_match \<Rightarrow> bool" where
  "missing d m = (get_parcel d (parcel_id (parcel m)) = None)"

definition exceeds :: "db \<Rightarrow> parcel_match \<Rightarrow> bool" where
  "exceeds d m =
     (case get_parcel d (parcel_id (parcel m)) of
        None \<Rightarrow> False
      | Some p \<Rightarrow> dec_less (remaining_quantity p) (matched_quantity m))"

definition unstorable :: "db \<Rightarrow> parcel_match \<Rightarrow> bool" where
  "unstorable d m =
     (case get_parcel d (parcel_id (parcel m)) of
        None \<Rightarrow> False
      | Some p \<Rightarrow>
          \<not> (column_fits 18 8 (dec_sub (remaining_quantity p) (matched_quantity m))
             \<and> match_fits m))"

definition lot_30 :: parcel where
  "lot_30 = \<lparr>parcel_id = 10, parcel_security = asx, acquisition_date = Date 2024 1 10,
             original_quantity = Decimal 3000000000 (- 8),
             remaining_quantity = Decimal 3000000000 (- 8),
             cost_per_unit_aud = Decimal 40095000 (- 6),
             total_cost_base_aud = Decimal 1202850000 (- 6), is_fully_matched = False\<rparr>"

definition lot_50 :: parcel where
  "lot_50 = \<lparr>parcel_id = 20, parcel_security = asx, acquisition_date = Date 2024 3 10,
             original_quantity = Decimal 5000000000 (- 8),
             remaining_quantity = Decimal 5000000000 (- 8),
             cost_per_unit_aud = Decimal 42000000 (- 6),
             total_cost_base_aud = Decimal 2100000000 (- 6), is_fully_matched = False\<rparr>"

definition sell_60 :: transaction where
  "sell_60 = \<lparr>security = asx, trade_date = Date 2025 6 15,
              unit_price = Decimal 55000000 (- 6), exchange_rate = Decimal 1000000 (- 6),
              transaction_type = SELL, quantity = Decimal 6000000000 (- 8),
              brokerage = Decimal 9500000 (- 6), total_value = Decimal 3300000000 (- 6)\<rparr>"

definition db_two :: db where
  "db_two = \<lparr>parcels = [lot_30, lot_50], parcel_matches = []\<rparr>"

definition qty_30 :: decimal where
  "qty_30 = Decimal 3000000000 (- 8)"

text \<open>
  The pairs of a manual call that the loop of \<open>_match_manual\<close> does not skip: those with
  a positive quantity.
\<close>

definition kept_pairs :: "parcel list \<Rightarrow> decimal list \<Rightarrow> (parcel \<times> decimal) list" where
  "kept_pairs pl ql = filter (\<lambda>(p, qty). \<not> dec_le qty dec_zero) (zip pl ql)"


text \<open>
  The total that \<open>forecast\<close> compares with the requested quantity.
\<close>

definition total_available :: "db \<Rightarrow> security \<Rightarrow> decimal" where
  "total_available d sec = py_sum (map remaining_quantity (by_acquisition_date (available d sec)))"

text \<open>
  The summary as the specification words it: the allocations of the reporting-year
  window, a gain being an allocation whose gross gain/loss is strictly positive, and the
  entry of one ticker.
\<close>

definition is_gain :: "parcel_match \<Rightarrow> bool" where
  "is_gain m = (0 < dval (capital_gain_loss m))"

definition window_matches :: "db \<Rightarrow> int \<Rightarrow> parcel_match list" where
  "window_matches d fy = fy_matches d (Date (fy - 1) 7 1) (Date fy 6 30)"

definition sec_total :: "parcel_match list \<Rightarrow> string \<Rightarrow> sec_summary" where
  "sec_total ms t =
     \<lparr>sec_ticker = t,
      gains = py_sum (map capital_gain_loss (filter (\<lambda>m. match_ticker m = t \<and> is_gain m) ms)),
      losses = py_sum (map capital_gain_loss (filter (\<lambda>m. match_ticker m = t \<and> \<not> is_gain m) ms)),
      discounts = py_sum (map discount_amount (filter (\<lambda>m. match_ticker m = t) ms)),
      net = py_sum (map net_capital_gain (filter (\<lambda>m. match_ticker m = t) ms)),
      sec_match_count = length (filter (\<lambda>m. match_ticker m = t) ms)\<rparr>"

definition cba :: security where
  "cba = \<lparr>sec_pk = 2, ticker = ''CBA.AX''\<rparr>"

definition lot_cba :: parcel where
  "lot_cba = lot_50\<lparr>parcel_id := 30, parcel_security := cba,
                      acquisition_date := Date 2024 5 1\<rparr>"

definition match_gain :: parcel_match where
  "match_gain = (build_match lot_30 sell_60 qty_30)
     \<lparr>capital_gain_loss := Decimal 100 0, discount_amount := Decimal 50 0,
      net_capital_gain := Decimal 50 0\<rparr>"

definition match_loss :: parcel_match where
  "match_loss = (build_match lot_cba sell_60 qty_30)
     \<lparr>capital_gain_loss := Decimal (- 30) 0, discount_amount := Decimal 0 0,
      net_capital_gain := Decimal (- 30) 0\<rparr>"

definition match_next_year :: parcel_match where
  "match_next_year = match_gain\<lparr>sell_transaction := sell_60\<lparr>trade_date := Date 2025 7 1\<rparr>\<rparr>"

definition db_matches :: db where
  "db_matches = \<lparr>parcels = [lot_30, lot_cba],
                 parcel_matches = [match_loss, match_next_year, match_gain]\<rparr>"


definition quantity_column :: "decimal \<Rightarrow> bool" where
  "quantity_column q = (- 8 \<le> exponent q \<and> \<bar>dval q\<bar> < 10 ^ 10)"


text \<open>
  A sell of 30 units, and two quantities with nine decimal places that add up to it.
\<close>

definition sell_30 :: transaction where
  "sell_30 = sell_60\<lparr>quantity := Decimal 3000000000 (- 8)\<rparr>"

definition qty_near :: decimal where
  "qty_near = Decimal 29999999996 (- 9)"

definition qty_tiny :: decimal where
  "qty_tiny = Decimal 4 (- 9)"

text \<open>
  The quantities the loops of \<open>_match_auto\<close> and \<open>_simulate_strategy\<close> take, lot after
  lot, and what is still needed at the end: both loops take \<open>min(remaining_quantity,
  remaining)\<close> and subtract it. \<open>greedy\<close> is the same allocation on exact numbers, as the
  specification words it.
\<close>

fun greedy_dec :: "decimal list \<Rightarrow> decimal \<Rightarrow> decimal list \<times> decimal" where
  "greedy_dec [] remaining = ([], remaining)"
| "greedy_dec (r # rs) remaining =
     (if dec_le remaining dec_zero then ([], remaining)
      else let (qs, fin) = greedy_dec rs (dec_sub remaining (py_min r remaining))
           in (py_min r remaining # qs, fin))"

fun greedy :: "rat list \<Rightarrow> rat \<Rightarrow> rat list" where
  "greedy [] need = []"
| "greedy (r # rs) need =
     (if need \<le> 0 then [] else min r need # greedy rs (need - min r need))"


text \<open>
  The lots \<open>_match_auto\<close> walks through, in its order.
\<close>

definition candidates :: "db \<Rightarrow> security \<Rightarrow> string \<Rightarrow> parcel list" where
  "candidates d sec strategy =
     (if strategy = ''fifo'' then by_acquisition_date (available d sec)
      else by_acquisition_date_desc (available d sec))"


text \<open>
  The figures of a forecast against those of an allocation. Two dictionaries of
  \<open>calculate_cgt\<close> show the same figures when their amounts are equal as numbers and
  their holding periods and eligibility flags are equal; a per-parcel entry of the
  forecast and a match agree when they name the same parcel, take the same quantity and
  show the same figures; the totals of a simulation agree with a list of matches when
  each is, as a number, the sum of that figure over the matches, added up in Python from
  zero.
\<close>

definition same_cgt :: "'a cgt_scheme \<Rightarrow> 'b cgt_scheme \<Rightarrow> bool" where
  "same_cgt a b =
     (dval (cost_base_aud a) = dval (cost_base_aud b)
      \<and> dval (proceeds_aud a) = dval (proceeds_aud b)
      \<and> dval (capital_gain_loss a) = dval (capital_gain_loss b)
      \<and> holding_period_days a = holding_period_days b
      \<and> cgt_discount_eligible a = cgt_discount_eligible b
      \<and> dval (discount_amount a) = dval (discount_amount b)
      \<and> dval (net_capital_gain a) = dval (net_capital_gain b))"

definition same_figures :: "consumed \<Rightarrow> parcel_match \<Rightarrow> bool" where
  "same_figures c m =
     (c_parcel_id c = parcel_id (parcel m)
      \<and> c_matched_quantity c = matched_quantity m
      \<and> same_cgt c m)"

definition same_totals :: "strategy_result \<Rightarrow> parcel_match list \<Rightarrow> bool" where
  "same_totals res ms =
     (dval (total_cost_base res) = dval (py_sum (map cost_base_aud ms))
      \<and> dval (total_proceeds res) = dval (py_sum (map proceeds_aud ms))
      \<and> dval (total_gain_loss res) = dval (py_sum (map capital_gain_loss ms))
      \<and> dval (total_discount res) = dval (py_sum (map discount_amount ms))
      \<and> dval (total_net_gain res) = dval (py_sum (map net_capital_gain ms)))"

text \<open>
  Both iterations side by side: the state of the iteration of \<open>_simulate_strategy\<close> and the
  matches that of \<open>_match_auto\<close> has built so far.
\<close>

definition agree_so_far :: "sim \<Rightarrow> parcel_match list \<Rightarrow> bool" where
  "agree_so_far s ms =
     (list_all2 same_figures (sim_consumed s) ms
      \<and> dval (sim_cost_base s) = dval (py_sum (map cost_base_aud ms))
      \<and> dval (sim_proceeds s) = dval (py_sum (map proceeds_aud ms))
      \<and> dval (sim_gain_loss s) = dval (py_sum (map capital_gain_loss ms))
      \<and> dval (sim_discount s) = dval (py_sum (map discount_amount ms))
      \<and> dval (sim_net_gain s) = dval (py_sum (map net_capital_gain ms)))"

text \<open>
  A persisted row against a per-parcel entry of the forecast: the row names the same
  parcel and holds the entry's quantity and amounts as their columns store them.
\<close>

definition rounded_figures :: "consumed \<Rightarrow> parcel_match \<Rightarrow> bool" where
  "rounded_figures c row =
     (c_parcel_id c = parcel_id (parcel row)
      \<and> matched_quantity row = quantize_dec 8 (c_matched_quantity c)
      \<and> cost_base_aud row = quantize_dec 6 (cost_base_aud c)
      \<and> proceeds_aud row = quantize_dec 6 (proceeds_aud c)
      \<and> capital_gain_loss row = quantize_dec 6 (capital_gain_loss c)
      \<and> holding_period_days row = holding_period_days c
      \<and> cgt_discount_eligible row = cgt_discount_eligible c
      \<and> discount_amount row = quantize_dec 6 (discount_amount c)
      \<and> net_capital_gain row = quantize_dec 6 (net_capital_gain c))"

text \<open>
  A sell of one hundred-millionth of a unit: its amounts have more decimal places than
  the columns of a persisted allocation.
\<close>

definition qty_dust :: decimal where
  "qty_dust = Decimal 1 (- 8)"

definition sell_dust :: transaction where
  "sell_dust = sell_60\<lparr>quantity := qty_dust\<rparr>"

section \<open>Properties of the decimal arithmetic\<close>

lemma ndigits_pos: "0 < ndigits n"
  by (subst ndigits.simps) simp

lemma ndigits_upper: "n < 10 ^ ndigits n"
proof (induction n rule: ndigits.induct)
  case (1 n)
  show ?case
  proof (cases "n < 10")
    case True
    then show ?thesis by (subst ndigits.simps) simp
  next
    case False
    with 1 have "n div 10 < 10 ^ ndigits (n div 10)" by simp
    then have "n < 10 * 10 ^ ndigits (n div 10)" by simp
    with False show ?thesis by (subst ndigits.simps) simp
  qed
qed

lemma ndigits_lower: "0 < n \<Longrightarrow> 10 ^ (ndigits n - 1) \<le> n"
proof (induction n rule: ndigits.induct)
  case (1 n)
  show ?case
  proof (cases "n < 10")
    case True
    with 1(2) show ?thesis by (subst ndigits.simps) simp
  next
    case False
    then have "0 < n div 10" by simp
    with 1 False have "10 ^ (ndigits (n div 10) - 1) \<le> n div 10" by simp
    then have "10 * 10 ^ (ndigits (n div 10) - 1) \<le> n" by simp
    moreover have "ndigits (n div 10) = Suc (ndigits (n div 10) - 1)"
      using ndigits_pos [of "n div 10"] by simp
    ultimately have "10 ^ ndigits (n div 10) \<le> n"
      by (metis power_Suc)
    with False show ?thesis by (subst ndigits.simps) simp
  qed
qed

lemma ndigits_le_iff: "0 < k \<Longrightarrow> ndigits n \<le> k \<longleftrightarrow> n < 10 ^ k"
proof
  assume "ndigits n \<le> k"
  then have "(10::nat) ^ ndigits n \<le> 10 ^ k" by (simp add: power_increasing)
  with ndigits_upper [of n] show "n < 10 ^ k" by (rule less_le_trans)
next
  assume k: "0 < k" and lt: "n < 10 ^ k"
  show "ndigits n \<le> k"
  proof (cases "n = 0")
    case True
    then show ?thesis using k by (subst ndigits.simps) simp
  next
    case False
    then have "10 ^ (ndigits n - 1) \<le> n" using ndigits_lower by simp
    from this lt have "(10::nat) ^ (ndigits n - 1) < 10 ^ k" by (rule le_less_trans)
    then have "ndigits n - 1 < k" by (subst (asm) power_strict_increasing_iff) simp_all
    then show ?thesis by simp
  qed
qed

lemma fits_iff: "fits d \<longleftrightarrow> \<bar>coefficient d\<bar> < 10 ^ 28"
proof -
  have "fits d \<longleftrightarrow> nat \<bar>coefficient d\<bar> < 10 ^ 28"
    by (simp add: fits_def prec_def ndigits_le_iff)
  also have "\<dots> \<longleftrightarrow> \<bar>coefficient d\<bar> < 10 ^ 28"
    by (simp add: nat_less_iff)
  finally show ?thesis .
qed

lemma fix_ctx_fits: "fits d \<Longrightarrow> fix_ctx d = d"
  by (simp add: fix_ctx_def fits_def Let_def)

lemma dval_mul_raw: "dval (mul_raw a b) = dval a * dval b"
  by (simp add: dval_def mul_raw_def power_int_add)

lemma dval_rescale:
  "m \<le> exponent a \<Longrightarrow> of_int (rescale a m) * 10 powi m = dval a"
proof -
  assume le: "m \<le> exponent a"
  have "(10::rat) powi exponent a = 10 powi (exponent a - m) * 10 powi m"
    by (subst power_int_add [symmetric]) simp_all
  moreover have "(10::rat) powi (exponent a - m) = 10 ^ nat (exponent a - m)"
    using le by (simp add: power_int_def)
  ultimately show ?thesis
    by (simp add: rescale_def dval_def)
qed

lemma dval_add_raw: "dval (add_raw a b) = dval a + dval b"
proof -
  let ?m = "min (exponent a) (exponent b)"
  have "dval (add_raw a b) = of_int (rescale a ?m) * 10 powi ?m + of_int (rescale b ?m) * 10 powi ?m"
    by (simp add: add_raw_def Let_def dval_def algebra_simps)
  then show ?thesis by (simp add: dval_rescale)
qed

lemma dval_neg: "dval (dec_neg a) = - dval a"
  by (simp add: dval_def dec_neg_def)

lemma dval_sub_raw: "dval (sub_raw a b) = dval a - dval b"
  by (simp add: sub_raw_def dval_add_raw dval_neg)


lemma dec_add_exact: "fits (add_raw a b) \<Longrightarrow> dval (dec_add a b) = dval a + dval b"
  by (simp add: dec_add_def fix_ctx_fits dval_add_raw)


lemma dval_zero [simp]: "dval dec_zero = 0"
  by (simp add: dval_def dec_zero_def)


section \<open>Quantities with at most eight decimal places\<close>

lemma dval_coefficient:
  "rat_of_int (coefficient a) = dval a * 10 powi (- exponent a)"
proof -
  have "(10::rat) powi exponent a * 10 powi (- exponent a) = 1"
    by (subst power_int_add [symmetric]) simp_all
  then show ?thesis
    by (simp add: dval_def mult.assoc)
qed

lemma fits_grid:
  assumes e: "- 8 \<le> exponent a" and v: "\<bar>dval a\<bar> < 10 ^ 20"
  shows "fits a"
proof -
  have p: "(10::rat) powi (- exponent a) \<le> 10 powi 8"
    using e by (intro power_int_increasing) simp_all
  have "\<bar>rat_of_int (coefficient a)\<bar> = \<bar>dval a\<bar> * 10 powi (- exponent a)"
    by (simp add: dval_coefficient abs_mult)
  also have "\<dots> \<le> \<bar>dval a\<bar> * 10 powi 8"
    using p by (intro mult_left_mono) simp_all
  also have "\<dots> < 10 ^ 20 * 10 powi 8"
    using v by (intro mult_strict_right_mono) simp_all
  also have "\<dots> = rat_of_int (10 ^ 28)"
    by simp
  finally have "\<bar>rat_of_int (coefficient a)\<bar> < rat_of_int (10 ^ 28)" .
  then have "rat_of_int \<bar>coefficient a\<bar> < rat_of_int (10 ^ 28)"
    by simp
  then have "\<bar>coefficient a\<bar> < 10 ^ 28"
    by (simp only: of_int_less_iff)
  then show ?thesis by (simp add: fits_iff)
qed

lemma exponent_add_raw: "exponent (add_raw a b) = min (exponent a) (exponent b)"
  by (simp add: add_raw_def Let_def)

lemma exponent_sub_raw: "exponent (sub_raw a b) = min (exponent a) (exponent b)"
  by (simp add: sub_raw_def exponent_add_raw dec_neg_def)

lemma dec_add_grid:
  assumes "- 8 \<le> exponent a" "- 8 \<le> exponent b" "\<bar>dval a + dval b\<bar> < 10 ^ 20"
  shows "dec_add a b = add_raw a b" "dval (dec_add a b) = dval a + dval b"
    "- 8 \<le> exponent (dec_add a b)"
proof -
  have f: "fits (add_raw a b)"
    using assms by (intro fits_grid) (simp_all add: exponent_add_raw dval_add_raw)
  then show "dec_add a b = add_raw a b" by (simp add: dec_add_def fix_ctx_fits)
  then show "dval (dec_add a b) = dval a + dval b" by (simp add: dval_add_raw)
  from f show "- 8 \<le> exponent (dec_add a b)"
    using assms by (simp add: dec_add_def fix_ctx_fits exponent_add_raw)
qed

lemma dec_sub_grid:
  assumes "- 8 \<le> exponent a" "- 8 \<le> exponent b" "\<bar>dval a - dval b\<bar> < 10 ^ 20"
  shows "dec_sub a b = sub_raw a b" "dval (dec_sub a b) = dval a - dval b"
    "- 8 \<le> exponent (dec_sub a b)"
proof -
  have f: "fits (sub_raw a b)"
    using assms by (intro fits_grid) (simp_all add: exponent_sub_raw dval_sub_raw)
  then show "dec_sub a b = sub_raw a b" by (simp add: dec_sub_def fix_ctx_fits)
  then show "dval (dec_sub a b) = dval a - dval b" by (simp add: dval_sub_raw)
  from f show "- 8 \<le> exponent (dec_sub a b)"
    using assms by (simp add: dec_sub_def fix_ctx_fits exponent_sub_raw)
qed

lemma foldl_dec_add_grid:
  assumes "\<forall>x \<in> set xs. - 8 \<le> exponent x \<and> 0 \<le> dval x"
    and "- 8 \<le> exponent a" "0 \<le> dval a"
    and "dval a + sum_list (map dval xs) < 10 ^ 20"
  shows "dval (foldl dec_add a xs) = dval a + sum_list (map dval xs)
         \<and> - 8 \<le> exponent (foldl dec_add a xs)"
  using assms
proof (induction xs arbitrary: a)
  case Nil
  then show ?case by simp
next
  case (Cons x xs)
  have nn: "0 \<le> sum_list (map dval xs)"
    using Cons.prems(1) by (intro sum_list_nonneg) auto
  have x: "- 8 \<le> exponent x" "0 \<le> dval x"
    using Cons.prems(1) by auto
  have b: "\<bar>dval a + dval x\<bar> < 10 ^ 20"
    using Cons.prems(3,4) x nn by simp
  note g = dec_add_grid [OF Cons.prems(2) x(1) b]
  have "dval (foldl dec_add (dec_add a x) xs) = dval (dec_add a x) + sum_list (map dval xs)
         \<and> - 8 \<le> exponent (foldl dec_add (dec_add a x) xs)"
    using Cons.prems x g by (intro Cons.IH) auto
  with g show ?case by (simp add: add.assoc)
qed

lemma py_sum_grid:
  assumes "\<forall>x \<in> set xs. - 8 \<le> exponent x \<and> 0 \<le> dval x"
    and "sum_list (map dval xs) < 10 ^ 20"
  shows "dval (py_sum xs) = sum_list (map dval xs)"
  using foldl_dec_add_grid [OF assms(1), of dec_zero] assms(2)
  by (simp add: py_sum_def) (simp add: dec_zero_def)

section \<open>The tax calculator\<close>

lemma calculate_cgt_sel:
  "cost_base_aud (calculate_cgt p sell qty) = dec_mul (cost_per_unit_aud p) qty"
  "proceeds_aud (calculate_cgt p sell qty) =
     dec_mul (dec_mul (unit_price sell) (exchange_rate sell)) qty"
  "capital_gain_loss (calculate_cgt p sell qty) =
     dec_sub (proceeds_aud (calculate_cgt p sell qty)) (cost_base_aud (calculate_cgt p sell qty))"
  "holding_period_days (calculate_cgt p sell qty) =
     days_between (trade_date sell) (acquisition_date p)"
  "cgt_discount_eligible (calculate_cgt p sell qty) =
     (holding_period_days (calculate_cgt p sell qty) > 365
      \<and> dec_less dec_zero (capital_gain_loss (calculate_cgt p sell qty)))"
  "discount_amount (calculate_cgt p sell qty) =
     (if cgt_discount_eligible (calculate_cgt p sell qty)
      then dec_mul (capital_gain_loss (calculate_cgt p sell qty)) (Decimal 5 (- 1))
      else dec_zero)"
  "net_capital_gain (calculate_cgt p sell qty) =
     dec_sub (capital_gain_loss (calculate_cgt p sell qty))
       (discount_amount (calculate_cgt p sell qty))"
  by (simp_all add: calculate_cgt_def Let_def)

lemmas dec_eval =
  dec_mul_def dec_add_def dec_sub_def mul_raw_def add_raw_def sub_raw_def dec_neg_def
  rescale_def fix_ctx_def ndigits.simps prec_def round_half_even_def Let_def
  dec_less_def dec_le_def dec_eq_def dval_def dec_zero_def py_min_def power_int_minus

lemmas date_eval =
  days_between_def toordinal_def days_before_year_def days_before_month_def is_leap_def






















section \<open>The commit\<close>

lemma find_map_id:
  assumes "\<And>x. parcel_id (g x) = parcel_id x"
  shows "find (\<lambda>p. parcel_id p = pk) (map g xs) = map_option g (find (\<lambda>p. parcel_id p = pk) xs)"
  by (induction xs) (simp_all add: assms)

lemma get_parcel_written:
  assumes "get_parcel d pk = Some p"
  shows "get_parcel
           (d\<lparr>parcels := map (\<lambda>r. if parcel_id r = k
                                 then r\<lparr>remaining_quantity := v, is_fully_matched := f\<rparr>
                                 else r) (parcels d)\<rparr>) pk
         = Some (if parcel_id p = k then p\<lparr>remaining_quantity := v, is_fully_matched := f\<rparr> else p)"
proof -
  let ?g = "\<lambda>r. if parcel_id r = k then r\<lparr>remaining_quantity := v, is_fully_matched := f\<rparr> else r"
  have "find (\<lambda>p. parcel_id p = pk) (map ?g (parcels d))
          = map_option ?g (find (\<lambda>p. parcel_id p = pk) (parcels d))"
    by (rule find_map_id) simp
  with assms show ?thesis
    by (simp add: get_parcel_def)
qed

lemma get_parcel_id: "get_parcel d pk = Some p \<Longrightarrow> parcel_id p = pk"
  by (auto simp: get_parcel_def find_Some_iff)

lemma decremented_sel [simp]:
  "parcel_id (decremented p q) = parcel_id p"
  "remaining_quantity (decremented p q) = dec_sub (remaining_quantity p) q"
  "is_fully_matched (decremented p q)
     = (is_fully_matched p \<or> dec_eq (dec_sub (remaining_quantity p) q) dec_zero)"
  "original_quantity (decremented p q) = original_quantity p"
  by (simp_all add: decremented_def)

lemma confirm_step_Some:
  assumes "get_parcel d (parcel_id (parcel m)) = Some p"
    and "\<not> dec_less (remaining_quantity p) (matched_quantity m)"
  shows "confirm_step d m =
          (case save_parcel d (decremented p (matched_quantity m)) of
             Inl e \<Rightarrow> Inl e
           | Inr d1 \<Rightarrow>
               (case save_match d1 (m\<lparr>parcel := decremented p (matched_quantity m)\<rparr>) of
                  Inl e \<Rightarrow> Inl e
                | Inr d2 \<Rightarrow> Inr (d2, m\<lparr>parcel := decremented p (matched_quantity m)\<rparr>)))"
proof (cases "dec_eq (dec_sub (remaining_quantity p) (matched_quantity m)) dec_zero")
  case True
  then have eq: "decremented p (matched_quantity m)
               = p\<lparr>remaining_quantity := dec_sub (remaining_quantity p) (matched_quantity m),
                    is_fully_matched := True\<rparr>"
    by (simp add: decremented_def)
  show ?thesis
    unfolding eq using assms True by (simp add: confirm_step_def Let_def)
next
  case False
  then have eq: "decremented p (matched_quantity m)
               = p\<lparr>remaining_quantity := dec_sub (remaining_quantity p) (matched_quantity m)\<rparr>"
    by (simp add: decremented_def)
  show ?thesis
    unfolding eq using assms False by (simp add: confirm_step_def Let_def)
qed

lemma match_fits_parcel [simp]: "match_fits (m\<lparr>parcel := p\<rparr>) = match_fits m"
  by (simp add: match_fits_def)

lemma stored_match_parcel [simp]:
  "(stored_match (m\<lparr>parcel := p\<rparr>))\<lparr>parcel := r\<rparr> = (stored_match m)\<lparr>parcel := r\<rparr>"
  by (simp add: stored_match_def)

lemma save_parcel_ok:
  "column_fits 18 8 (remaining_quantity p) \<Longrightarrow>
     save_parcel d p =
       Inr (d\<lparr>parcels :=
               map (\<lambda>r. if parcel_id r = parcel_id p
                         then r\<lparr>remaining_quantity := quantize_dec 8 (remaining_quantity p),
                                is_fully_matched := is_fully_matched p\<rparr>
                         else r) (parcels d)\<rparr>)"
  by (simp add: save_parcel_def to_column_def)

lemma save_parcel_fail:
  "\<not> column_fits 18 8 (remaining_quantity p) \<Longrightarrow> save_parcel d p = Inl InvalidOperation"
  by (simp add: save_parcel_def to_column_def)

lemma confirm_step_ok:
  assumes "\<not> missing d m" "\<not> exceeds d m" "\<not> unstorable d m"
  shows "confirm_step d m = Inr (spec_commit_one d m, refreshed d m)"
proof -
  from assms(1) obtain p where gp: "get_parcel d (parcel_id (parcel m)) = Some p"
    by (auto simp: missing_def)
  let ?p2 = "decremented p (matched_quantity m)"
  let ?d1 = "d\<lparr>parcels :=
               map (\<lambda>r. if parcel_id r = parcel_id ?p2
                         then r\<lparr>remaining_quantity := quantize_dec 8 (remaining_quantity ?p2),
                                is_fully_matched := is_fully_matched ?p2\<rparr>
                         else r) (parcels d)\<rparr>"
  from assms(2) gp have le: "\<not> dec_less (remaining_quantity p) (matched_quantity m)"
    by (simp add: exceeds_def)
  from assms(3) gp have fit: "column_fits 18 8 (remaining_quantity ?p2)" and mf: "match_fits m"
    by (simp_all add: unstorable_def)
  have id: "parcel_id p = parcel_id (parcel m)"
    using gp by (rule get_parcel_id)
  have sp: "save_parcel d ?p2 = Inr ?d1"
    using fit by (rule save_parcel_ok)
  have row: "get_parcel ?d1 (parcel_id (parcel m))
               = Some (p\<lparr>remaining_quantity := quantize_dec 8 (remaining_quantity ?p2),
                         is_fully_matched := is_fully_matched ?p2\<rparr>)"
    using get_parcel_written [OF gp, of "parcel_id ?p2"] id by simp
  have sp2: "stored_parcel ?p2
               = p\<lparr>remaining_quantity := quantize_dec 8 (remaining_quantity ?p2),
                    is_fully_matched := is_fully_matched ?p2\<rparr>"
    by (simp add: stored_parcel_def decremented_def)
  have sm: "save_match ?d1 (m\<lparr>parcel := ?p2\<rparr>)
              = Inr (?d1\<lparr>parcel_matches :=
                          parcel_matches ?d1 @ [(stored_match m)\<lparr>parcel := stored_parcel ?p2\<rparr>]\<rparr>)"
    using mf row id by (simp add: save_match_def sp2)
  have one: "spec_commit_one d m
               = ?d1\<lparr>parcel_matches :=
                        parcel_matches ?d1 @ [(stored_match m)\<lparr>parcel := stored_parcel ?p2\<rparr>]\<rparr>"
    using gp by (simp add: spec_commit_one_def spec_row_def stored_parcel_def)
  have "confirm_step d m =
          (case save_parcel d ?p2 of
             Inl e \<Rightarrow> Inl e
           | Inr d1 \<Rightarrow>
               (case save_match d1 (m\<lparr>parcel := ?p2\<rparr>) of
                  Inl e \<Rightarrow> Inl e
                | Inr d2 \<Rightarrow> Inr (d2, m\<lparr>parcel := ?p2\<rparr>)))"
    using gp le by (rule confirm_step_Some)
  also have "\<dots> = Inr (spec_commit_one d m, m\<lparr>parcel := ?p2\<rparr>)"
    by (simp only: sp sm one sum.case)
  finally show ?thesis
    using gp by (simp add: refreshed_def)
qed

lemma confirm_step_fail:
  assumes "missing d m \<or> exceeds d m \<or> unstorable d m"
  shows "\<exists>e. confirm_step d m = Inl e"
proof (cases "get_parcel d (parcel_id (parcel m))")
  case None
  then show ?thesis by (simp add: confirm_step_def)
next
  case (Some p)
  let ?p2 = "decremented p (matched_quantity m)"
  show ?thesis
  proof (cases "dec_less (remaining_quantity p) (matched_quantity m)")
    case True
    with Some show ?thesis by (simp add: confirm_step_def)
  next
    case False
    with Some assms have u: "\<not> (column_fits 18 8 (remaining_quantity ?p2) \<and> match_fits m)"
      by (simp add: missing_def exceeds_def unstorable_def)
    have step: "confirm_step d m =
          (case save_parcel d ?p2 of
             Inl e \<Rightarrow> Inl e
           | Inr d1 \<Rightarrow>
               (case save_match d1 (m\<lparr>parcel := ?p2\<rparr>) of
                  Inl e \<Rightarrow> Inl e
                | Inr d2 \<Rightarrow> Inr (d2, m\<lparr>parcel := ?p2\<rparr>)))"
      using Some False by (rule confirm_step_Some)
    show ?thesis
    proof (cases "column_fits 18 8 (remaining_quantity ?p2)")
      case False
      then show ?thesis
        unfolding step by (simp add: save_parcel_fail)
    next
      case True
      with u have "\<not> match_fits m" by simp
      then show ?thesis
        unfolding step by (simp add: save_parcel_ok [OF True] save_match_def)
    qed
  qed
qed

lemma confirm_loop_ok:
  "\<forall>i<length ms. \<not> missing (spec_commit_all d (take i ms)) (ms ! i)
                   \<and> \<not> exceeds (spec_commit_all d (take i ms)) (ms ! i)
                   \<and> \<not> unstorable (spec_commit_all d (take i ms)) (ms ! i) \<Longrightarrow>
     confirm_loop d ms saved = Inr (spec_commit_all d ms, saved @ spec_saved d ms)"
proof (induction ms arbitrary: d saved)
  case Nil
  then show ?case by (simp add: spec_commit_all_def)
next
  case (Cons m ms)
  from Cons.prems have head: "\<not> missing d m" "\<not> exceeds d m" "\<not> unstorable d m"
    by (auto simp: spec_commit_all_def)
  from Cons.prems have tail:
    "\<forall>i<length ms. \<not> missing (spec_commit_all (spec_commit_one d m) (take i ms)) (ms ! i)
                    \<and> \<not> exceeds (spec_commit_all (spec_commit_one d m) (take i ms)) (ms ! i)
                    \<and> \<not> unstorable (spec_commit_all (spec_commit_one d m) (take i ms)) (ms ! i)"
    by (auto simp: spec_commit_all_def All_less_Suc2)
  from Cons.IH [OF tail] head show ?case
    by (simp add: confirm_step_ok spec_commit_all_def)
qed

lemma confirm_loop_fail:
  "\<exists>i<length ms. missing (spec_commit_all d (take i ms)) (ms ! i)
                   \<or> exceeds (spec_commit_all d (take i ms)) (ms ! i)
                   \<or> unstorable (spec_commit_all d (take i ms)) (ms ! i) \<Longrightarrow>
     \<exists>e. confirm_loop d ms saved = Inl e"
proof (induction ms arbitrary: d saved)
  case Nil
  then show ?case by simp
next
  case (Cons m ms)
  show ?case
  proof (cases "missing d m \<or> exceeds d m \<or> unstorable d m")
    case True
    with confirm_step_fail [of d m] show ?thesis by auto
  next
    case False
    with Cons.prems have
      "\<exists>i<length ms. missing (spec_commit_all (spec_commit_one d m) (take i ms)) (ms ! i)
                      \<or> exceeds (spec_commit_all (spec_commit_one d m) (take i ms)) (ms ! i)
                      \<or> unstorable (spec_commit_all (spec_commit_one d m) (take i ms)) (ms ! i)"
      by (auto simp: spec_commit_all_def Ex_less_Suc2)
    from Cons.IH [OF this] False show ?thesis
      by (simp add: confirm_step_ok)
  qed
qed

lemma refreshed_sel [simp]:
  "matched_quantity (refreshed d m) = matched_quantity m"
  "sell_transaction (refreshed d m) = sell_transaction m"
  "cost_base_aud (refreshed d m) = cost_base_aud m"
  "proceeds_aud (refreshed d m) = proceeds_aud m"
  "capital_gain_loss (refreshed d m) = capital_gain_loss m"
  "holding_period_days (refreshed d m) = holding_period_days m"
  "cgt_discount_eligible (refreshed d m) = cgt_discount_eligible m"
  "discount_amount (refreshed d m) = discount_amount m"
  "net_capital_gain (refreshed d m) = net_capital_gain m"
  by (simp_all add: refreshed_def split: option.splits)

lemma spec_row_sel [simp]:
  "matched_quantity (spec_row d m) = quantize_dec 8 (matched_quantity m)"
  "sell_transaction (spec_row d m) = sell_transaction m"
  "cost_base_aud (spec_row d m) = quantize_dec 6 (cost_base_aud m)"
  "proceeds_aud (spec_row d m) = quantize_dec 6 (proceeds_aud m)"
  "capital_gain_loss (spec_row d m) = quantize_dec 6 (capital_gain_loss m)"
  "holding_period_days (spec_row d m) = holding_period_days m"
  "cgt_discount_eligible (spec_row d m) = cgt_discount_eligible m"
  "discount_amount (spec_row d m) = quantize_dec 6 (discount_amount m)"
  "net_capital_gain (spec_row d m) = quantize_dec 6 (net_capital_gain m)"
  by (simp_all add: spec_row_def stored_match_def split: option.splits)

lemma spec_saved_length [simp]: "length (spec_saved d ms) = length ms"
  by (induction ms arbitrary: d) simp_all

lemma spec_rows_length [simp]: "length (spec_rows d ms) = length ms"
  by (induction ms arbitrary: d) simp_all

lemma spec_saved_quantities:
  "map matched_quantity (spec_saved d ms) = map matched_quantity ms"
  by (induction ms arbitrary: d) simp_all

lemma spec_rows_quantities:
  "map matched_quantity (spec_rows d ms) = map (\<lambda>m. quantize_dec 8 (matched_quantity m)) ms"
  by (induction ms arbitrary: d) simp_all

lemma spec_commit_rows:
  "\<forall>i<length ms. \<not> missing (spec_commit_all d (take i ms)) (ms ! i) \<Longrightarrow>
     parcel_matches (spec_commit_all d ms) = parcel_matches d @ spec_rows d ms"
proof (induction ms arbitrary: d)
  case Nil
  then show ?case by (simp add: spec_commit_all_def)
next
  case (Cons m ms)
  from Cons.prems have head: "\<not> missing d m"
    by (auto simp: spec_commit_all_def)
  from Cons.prems have tail:
    "\<forall>i<length ms. \<not> missing (spec_commit_all (spec_commit_one d m) (take i ms)) (ms ! i)"
    by (auto simp: spec_commit_all_def All_less_Suc2)
  from head have "parcel_matches (spec_commit_one d m) = parcel_matches d @ [spec_row d m]"
    by (auto simp: missing_def spec_commit_one_def)
  with Cons.IH [OF tail] show ?case
    by (simp add: spec_commit_all_def)
qed

lemma quantize_exponent [simp]: "exponent (quantize_dec places a) = - int places"
  by (simp add: quantize_dec_def Let_def)

lemma dval_quantize_grid:
  assumes "- int places \<le> exponent a"
  shows "dval (quantize_dec places a) = dval a"
proof -
  have "rat_of_int (rescale a (- int places)) * 10 powi (- int places) = dval a"
    using assms by (rule dval_rescale)
  with assms show ?thesis
    by (simp add: quantize_dec_def Let_def dval_def)
qed

lemma decrement_stored_exact:
  assumes "quantity_column a" "quantity_column b"
  shows "dval (quantize_dec 8 (dec_sub a b)) = dval a - dval b"
proof -
  from assms have e: "- 8 \<le> exponent a" "- 8 \<le> exponent b"
    and v: "\<bar>dval a\<bar> < 10 ^ 10" "\<bar>dval b\<bar> < 10 ^ 10"
    by (simp_all add: quantity_column_def)
  have "\<bar>dval a - dval b\<bar> \<le> \<bar>dval a\<bar> + \<bar>dval b\<bar>"
    by (rule abs_triangle_ineq4)
  with v have "\<bar>dval a - dval b\<bar> < 10 ^ 20"
    by simp
  note g = dec_sub_grid(2,3) [OF e this]
  from g(2) have "- int 8 \<le> exponent (dec_sub a b)"
    by simp
  from dval_quantize_grid [OF this] g(1) show ?thesis
    by simp
qed

lemma get_parcel_commit_same:
  assumes "get_parcel d (parcel_id (parcel m)) = Some p"
  shows "get_parcel (spec_commit_one d m) (parcel_id (parcel m))
           = Some (stored_parcel (decremented p (matched_quantity m)))"
proof -
  have id: "parcel_id p = parcel_id (parcel m)"
    using assms by (rule get_parcel_id)
  have "get_parcel (spec_commit_one d m) (parcel_id (parcel m))
          = get_parcel
              (d\<lparr>parcels :=
                   map (\<lambda>r. if parcel_id r = parcel_id p
                             then r\<lparr>remaining_quantity :=
                                      remaining_quantity
                                        (stored_parcel (decremented p (matched_quantity m))),
                                    is_fully_matched :=
                                      is_fully_matched (decremented p (matched_quantity m))\<rparr>
                             else r) (parcels d)\<rparr>) (parcel_id (parcel m))"
    using assms by (simp add: spec_commit_one_def get_parcel_def)
  also have "\<dots> = Some (p\<lparr>remaining_quantity :=
                              remaining_quantity
                                (stored_parcel (decremented p (matched_quantity m))),
                            is_fully_matched :=
                              is_fully_matched (decremented p (matched_quantity m))\<rparr>)"
    using get_parcel_written [OF assms, of "parcel_id p"] by simp
  also have "\<dots> = Some (stored_parcel (decremented p (matched_quantity m)))"
    by (simp add: stored_parcel_def decremented_def)
  finally show ?thesis .
qed

lemma get_parcel_commit_other:
  assumes "pk \<noteq> parcel_id (parcel m)"
  shows "get_parcel (spec_commit_one d m) pk = get_parcel d pk"
proof (cases "get_parcel d (parcel_id (parcel m))")
  case None
  then show ?thesis by (simp add: spec_commit_one_def)
next
  case (Some p)
  have id: "parcel_id p = parcel_id (parcel m)"
    using Some by (rule get_parcel_id)
  let ?g = "\<lambda>r. if parcel_id r = parcel_id p
                  then r\<lparr>remaining_quantity :=
                           remaining_quantity (stored_parcel (decremented p (matched_quantity m))),
                         is_fully_matched :=
                           is_fully_matched (decremented p (matched_quantity m))\<rparr>
                  else r"
  have f: "find (\<lambda>p. parcel_id p = pk) (map ?g (parcels d))
             = map_option ?g (find (\<lambda>p. parcel_id p = pk) (parcels d))"
    by (rule find_map_id) simp
  have "map_option ?g (find (\<lambda>p. parcel_id p = pk) (parcels d))
          = find (\<lambda>p. parcel_id p = pk) (parcels d)"
  proof (cases "find (\<lambda>p. parcel_id p = pk) (parcels d)")
    case None
    then show ?thesis by simp
  next
    case (Some r)
    then have "parcel_id r = pk" by (auto simp: find_Some_iff)
    with assms id Some show ?thesis by simp
  qed
  with f Some show ?thesis
    by (simp add: spec_commit_one_def get_parcel_def)
qed

text \<open>
  C1 (amended). A commit walks the proposed allocations in the order given and re-reads
  the parcel of each. If at some position the parcel cannot be re-read, or the matched
  quantity exceeds the remaining quantity just read (the state reached by the allocations
  before it), or the decremented remaining quantity or a figure of the allocation has
  more digits than its column holds, the commit fails with an error and the database
  after it is the database before it. Otherwise the commit returns every allocation, in
  order and with its matched quantity, the table of allocations has grown by one row for
  each, in order, and every referenced parcel has been decremented by each matched
  quantity in turn, its row holding the new remaining quantity as the column stores it:
  rounded to eight decimal places, and exactly the difference when the remaining and the
  matched quantity are values of the quantity column. No other parcel changes.
\<close>

theorem confirm_matches_atomic:
  "((\<exists>i<length ms. missing (spec_commit_all d (take i ms)) (ms ! i)
                     \<or> exceeds (spec_commit_all d (take i ms)) (ms ! i)
                     \<or> unstorable (spec_commit_all d (take i ms)) (ms ! i)) \<longrightarrow>
      (\<exists>e. confirm_matches d ms = (Inl e, d)))
   \<and> (\<not> (\<exists>i<length ms. missing (spec_commit_all d (take i ms)) (ms ! i)
                     \<or> exceeds (spec_commit_all d (take i ms)) (ms ! i)
                     \<or> unstorable (spec_commit_all d (take i ms)) (ms ! i)) \<longrightarrow>
      confirm_matches d ms = (Inr (spec_saved d ms), spec_commit_all d ms)
      \<and> parcel_matches (spec_commit_all d ms) = parcel_matches d @ spec_rows d ms
      \<and> map matched_quantity (spec_saved d ms) = map matched_quantity ms)
   \<and> (\<forall>e d'. confirm_matches d ms = (Inl e, d') \<longrightarrow> d' = d)
   \<and> (\<forall>(m::parcel_match) p. get_parcel d (parcel_id (parcel m)) = Some p \<longrightarrow>
         get_parcel (spec_commit_one d m) (parcel_id (parcel m))
           = Some (stored_parcel (decremented p (matched_quantity m)))
         \<and> (\<forall>pk. pk \<noteq> parcel_id (parcel m) \<longrightarrow>
                get_parcel (spec_commit_one d m) pk = get_parcel d pk)
         \<and> (quantity_column (remaining_quantity p) \<and> quantity_column (matched_quantity m) \<longrightarrow>
              dval (remaining_quantity (stored_parcel (decremented p (matched_quantity m))))
                = dval (remaining_quantity p) - dval (matched_quantity m)))"
proof (intro conjI impI allI)
  assume "(\<exists>i<length ms. missing (spec_commit_all d (take i ms)) (ms ! i)
                     \<or> exceeds (spec_commit_all d (take i ms)) (ms ! i)
                     \<or> unstorable (spec_commit_all d (take i ms)) (ms ! i))"
  from confirm_loop_fail [OF this, of "[]"] show "\<exists>e. confirm_matches d ms = (Inl e, d)"
    by (auto simp: confirm_matches_def)
next
  assume "\<not> (\<exists>i<length ms. missing (spec_commit_all d (take i ms)) (ms ! i)
                     \<or> exceeds (spec_commit_all d (take i ms)) (ms ! i)
                     \<or> unstorable (spec_commit_all d (take i ms)) (ms ! i))"
  then have "\<forall>i<length ms. \<not> missing (spec_commit_all d (take i ms)) (ms ! i)
                   \<and> \<not> exceeds (spec_commit_all d (take i ms)) (ms ! i)
                   \<and> \<not> unstorable (spec_commit_all d (take i ms)) (ms ! i)"
    by blast
  from confirm_loop_ok [OF this, of "[]"]
  show "confirm_matches d ms = (Inr (spec_saved d ms), spec_commit_all d ms)"
    by (simp add: confirm_matches_def)
next
  assume "\<not> (\<exists>i<length ms. missing (spec_commit_all d (take i ms)) (ms ! i)
                     \<or> exceeds (spec_commit_all d (take i ms)) (ms ! i)
                     \<or> unstorable (spec_commit_all d (take i ms)) (ms ! i))"
  then have "\<forall>i<length ms. \<not> missing (spec_commit_all d (take i ms)) (ms ! i)"
    by blast
  then show "parcel_matches (spec_commit_all d ms) = parcel_matches d @ spec_rows d ms"
    by (rule spec_commit_rows)
next
  show "map matched_quantity (spec_saved d ms) = map matched_quantity ms"
    by (rule spec_saved_quantities)
next
  fix e d' assume "confirm_matches d ms = (Inl e, d')"
  then show "d' = d"
    by (auto simp: confirm_matches_def split: sum.splits)
next
  fix m :: parcel_match and p assume "get_parcel d (parcel_id (parcel m)) = Some p"
  then show "get_parcel (spec_commit_one d m) (parcel_id (parcel m))
           = Some (stored_parcel (decremented p (matched_quantity m)))"
    by (rule get_parcel_commit_same)
next
  fix m :: parcel_match and pk assume "pk \<noteq> parcel_id (parcel m)"
  then show "get_parcel (spec_commit_one d m) pk = get_parcel d pk"
    by (rule get_parcel_commit_other)
next
  fix m :: parcel_match and p :: parcel
  assume "quantity_column (remaining_quantity p) \<and> quantity_column (matched_quantity m)"
  then show "dval (remaining_quantity (stored_parcel (decremented p (matched_quantity m))))
                = dval (remaining_quantity p) - dval (matched_quantity m)"
    by (simp add: stored_parcel_def decrement_stored_exact)
qed

lemma build_match_sel [simp]:
  "parcel (build_match p s q) = p"
  "sell_transaction (build_match p s q) = s"
  "matched_quantity (build_match p s q) = q"
  by (simp_all add: build_match_def Let_def)

lemma build_match_cgt [simp]:
  "cost_base_aud (build_match p s q) = cost_base_aud (calculate_cgt p s q)"
  "proceeds_aud (build_match p s q) = proceeds_aud (calculate_cgt p s q)"
  "capital_gain_loss (build_match p s q) = capital_gain_loss (calculate_cgt p s q)"
  "holding_period_days (build_match p s q) = holding_period_days (calculate_cgt p s q)"
  "cgt_discount_eligible (build_match p s q) = cgt_discount_eligible (calculate_cgt p s q)"
  "discount_amount (build_match p s q) = discount_amount (calculate_cgt p s q)"
  "net_capital_gain (build_match p s q) = net_capital_gain (calculate_cgt p s q)"
  by (simp_all add: build_match_def Let_def)

lemma lots_sel [simp]:
  "parcel_id lot_30 = 10" "parcel_id lot_50 = 20"
  "remaining_quantity lot_30 = Decimal 3000000000 (- 8)"
  "remaining_quantity lot_50 = Decimal 3000000000 (- 8) \<longleftrightarrow> False"
  "remaining_quantity lot_50 = Decimal 5000000000 (- 8)"
  by (simp_all add: lot_30_def lot_50_def)

lemma get_two [simp]:
  "get_parcel db_two 10 = Some lot_30" "get_parcel db_two 20 = Some lot_50"
  by (simp_all add: get_parcel_def db_two_def)

lemma sub_30_30: "dec_sub (Decimal 3000000000 (- 8)) qty_30 = Decimal 0 (- 8)"
  by (simp add: qty_30_def dec_eval)

lemma sub_50_30: "dec_sub (Decimal 5000000000 (- 8)) qty_30 = Decimal 2000000000 (- 8)"
  by (simp add: qty_30_def dec_eval)

lemma fig_a_cost: "cost_base_aud (calculate_cgt lot_30 sell_60 qty_30) = Decimal 120285000000000000 (- 14)"
  by (simp add: calculate_cgt_sel(1) lot_30_def qty_30_def dec_eval)

lemma fig_a_proceeds: "proceeds_aud (calculate_cgt lot_30 sell_60 qty_30) = Decimal 165000000000000000000000 (- 20)"
  by (simp add: calculate_cgt_sel(2) sell_60_def qty_30_def dec_eval)

lemma fig_a_gain: "capital_gain_loss (calculate_cgt lot_30 sell_60 qty_30) = Decimal 44715000000000000000000 (- 20)"
  by (simp add: calculate_cgt_sel(3) fig_a_cost fig_a_proceeds dec_eval)

lemma fig_a_days: "holding_period_days (calculate_cgt lot_30 sell_60 qty_30) = 522"
  by (simp add: calculate_cgt_sel(4) lot_30_def sell_60_def date_eval)

lemma fig_a_eligible: "cgt_discount_eligible (calculate_cgt lot_30 sell_60 qty_30)"
  by (simp add: calculate_cgt_sel(5) fig_a_days fig_a_gain dec_eval)

lemma fig_a_discount: "discount_amount (calculate_cgt lot_30 sell_60 qty_30) = Decimal 223575000000000000000000 (- 21)"
  by (simp add: calculate_cgt_sel(6) fig_a_eligible fig_a_gain dec_eval)

lemma fig_a_net: "net_capital_gain (calculate_cgt lot_30 sell_60 qty_30) = Decimal 223575000000000000000000 (- 21)"
  by (simp add: calculate_cgt_sel(7) fig_a_gain fig_a_discount dec_eval)

lemmas fig_a_figures =
  fig_a_cost fig_a_proceeds fig_a_gain fig_a_days fig_a_eligible fig_a_discount fig_a_net

lemma fig_a_fits: "match_fits (build_match lot_30 sell_60 qty_30)"
  unfolding match_fits_def build_match_cgt build_match_sel
    fig_a_cost fig_a_proceeds fig_a_gain fig_a_discount fig_a_net
  by (simp add: qty_30_def column_fits_def quantize_dec_def rescale_def round_half_even_def Let_def)

lemma fig_b_cost: "cost_base_aud (calculate_cgt lot_50 sell_60 qty_30) = Decimal 126000000000000000 (- 14)"
  by (simp add: calculate_cgt_sel(1) lot_50_def qty_30_def dec_eval)

lemma fig_b_proceeds: "proceeds_aud (calculate_cgt lot_50 sell_60 qty_30) = Decimal 165000000000000000000000 (- 20)"
  by (simp add: calculate_cgt_sel(2) sell_60_def qty_30_def dec_eval)

lemma fig_b_gain: "capital_gain_loss (calculate_cgt lot_50 sell_60 qty_30) = Decimal 39000000000000000000000 (- 20)"
  by (simp add: calculate_cgt_sel(3) fig_b_cost fig_b_proceeds dec_eval)

lemma fig_b_days: "holding_period_days (calculate_cgt lot_50 sell_60 qty_30) = 462"
  by (simp add: calculate_cgt_sel(4) lot_50_def sell_60_def date_eval)

lemma fig_b_eligible: "cgt_discount_eligible (calculate_cgt lot_50 sell_60 qty_30)"
  by (simp add: calculate_cgt_sel(5) fig_b_days fig_b_gain dec_eval)

lemma fig_b_discount: "discount_amount (calculate_cgt lot_50 sell_60 qty_30) = Decimal 195000000000000000000000 (- 21)"
  by (simp add: calculate_cgt_sel(6) fig_b_eligible fig_b_gain dec_eval)

lemma fig_b_net: "net_capital_gain (calculate_cgt lot_50 sell_60 qty_30) = Decimal 195000000000000000000000 (- 21)"
  by (simp add: calculate_cgt_sel(7) fig_b_gain fig_b_discount dec_eval)

lemmas fig_b_figures =
  fig_b_cost fig_b_proceeds fig_b_gain fig_b_days fig_b_eligible fig_b_discount fig_b_net

lemma fig_b_fits: "match_fits (build_match lot_50 sell_60 qty_30)"
  unfolding match_fits_def build_match_cgt build_match_sel
    fig_b_cost fig_b_proceeds fig_b_gain fig_b_discount fig_b_net
  by (simp add: qty_30_def column_fits_def quantize_dec_def rescale_def round_half_even_def Let_def)

lemma quantize_zero: "quantize_dec 8 (Decimal 0 (- 8)) = Decimal 0 (- 8)"
  "quantize_dec 8 (Decimal 2000000000 (- 8)) = Decimal 2000000000 (- 8)"
  by (simp_all add: quantize_dec_def rescale_def)

lemma step_one:
  "spec_commit_one db_two (build_match lot_30 sell_60 qty_30) =
     \<lparr>parcels = [lot_30\<lparr>remaining_quantity := Decimal 0 (- 8), is_fully_matched := True\<rparr>, lot_50],
      parcel_matches = [spec_row db_two (build_match lot_30 sell_60 qty_30)]\<rparr>"
  apply (simp add: spec_commit_one_def)
  apply (simp add: db_two_def stored_parcel_def decremented_def sub_30_30 quantize_zero
        dec_eq_def dval_def dec_zero_def)
  done

lemma get_after_one [simp]:
  "get_parcel (spec_commit_one db_two (build_match lot_30 sell_60 qty_30)) 10
     = Some (lot_30\<lparr>remaining_quantity := Decimal 0 (- 8), is_fully_matched := True\<rparr>)"
  "get_parcel (spec_commit_one db_two (build_match lot_30 sell_60 qty_30)) 20 = Some lot_50"
  unfolding step_one by (simp_all add: get_parcel_def)

lemma step_two:
  "parcels (spec_commit_one (spec_commit_one db_two (build_match lot_30 sell_60 qty_30))
              (build_match lot_50 sell_60 qty_30)) =
     [lot_30\<lparr>remaining_quantity := Decimal 0 (- 8), is_fully_matched := True\<rparr>,
      lot_50\<lparr>remaining_quantity := Decimal 2000000000 (- 8), is_fully_matched := False\<rparr>]"
  apply (simp add: spec_commit_one_def [of "spec_commit_one db_two (build_match lot_30 sell_60 qty_30)"])
  apply (simp add: step_one stored_parcel_def decremented_def sub_50_30 quantize_zero
        dec_eq_def dval_def dec_zero_def)
  apply (simp add: lot_50_def)
  done

lemma steps_two_ok:
  "\<not> missing db_two (build_match lot_30 sell_60 qty_30)
   \<and> \<not> exceeds db_two (build_match lot_30 sell_60 qty_30)
   \<and> \<not> unstorable db_two (build_match lot_30 sell_60 qty_30)"
  "\<not> missing (spec_commit_one db_two (build_match lot_30 sell_60 qty_30))
       (build_match lot_50 sell_60 qty_30)
   \<and> \<not> exceeds (spec_commit_one db_two (build_match lot_30 sell_60 qty_30))
         (build_match lot_50 sell_60 qty_30)
   \<and> \<not> unstorable (spec_commit_one db_two (build_match lot_30 sell_60 qty_30))
         (build_match lot_50 sell_60 qty_30)"
  "exceeds (spec_commit_one db_two (build_match lot_30 sell_60 qty_30))
     (build_match lot_30 sell_60 qty_30)"
proof -
  have c: "column_fits 18 8 (Decimal 0 (- 8))" "column_fits 18 8 (Decimal 2000000000 (- 8))"
    by (simp_all add: column_fits_def quantize_zero)
  show "\<not> missing db_two (build_match lot_30 sell_60 qty_30)
   \<and> \<not> exceeds db_two (build_match lot_30 sell_60 qty_30)
   \<and> \<not> unstorable db_two (build_match lot_30 sell_60 qty_30)"
    by (simp add: missing_def exceeds_def unstorable_def fig_a_fits sub_30_30 c)
       (simp add: dec_less_def dval_def qty_30_def)
  show "\<not> missing (spec_commit_one db_two (build_match lot_30 sell_60 qty_30))
       (build_match lot_50 sell_60 qty_30)
   \<and> \<not> exceeds (spec_commit_one db_two (build_match lot_30 sell_60 qty_30))
         (build_match lot_50 sell_60 qty_30)
   \<and> \<not> unstorable (spec_commit_one db_two (build_match lot_30 sell_60 qty_30))
         (build_match lot_50 sell_60 qty_30)"
    by (simp add: missing_def exceeds_def unstorable_def fig_b_fits sub_50_30 c)
       (simp add: dec_less_def dval_def qty_30_def)
  show "exceeds (spec_commit_one db_two (build_match lot_30 sell_60 qty_30))
     (build_match lot_30 sell_60 qty_30)"
    by (simp add: exceeds_def) (simp add: dec_less_def dval_def qty_30_def)
qed

theorem confirm_matches_atomic_witness:
  "confirm_matches db_two [build_match lot_30 sell_60 qty_30, build_match lot_50 sell_60 qty_30]
     = (Inr (spec_saved db_two
               [build_match lot_30 sell_60 qty_30, build_match lot_50 sell_60 qty_30]),
        spec_commit_all db_two
          [build_match lot_30 sell_60 qty_30, build_match lot_50 sell_60 qty_30])
   \<and> map remaining_quantity
        (parcels (spec_commit_all db_two
           [build_match lot_30 sell_60 qty_30, build_match lot_50 sell_60 qty_30]))
       = [Decimal 0 (- 8), Decimal 2000000000 (- 8)]
   \<and> map is_fully_matched
        (parcels (spec_commit_all db_two
           [build_match lot_30 sell_60 qty_30, build_match lot_50 sell_60 qty_30]))
       = [True, False]
   \<and> (\<exists>e. confirm_matches db_two
              [build_match lot_30 sell_60 qty_30, build_match lot_30 sell_60 qty_30]
            = (Inl e, db_two))
   \<and> get_parcel db_two 10 = Some lot_30
   \<and> get_parcel (spec_commit_one db_two (build_match lot_30 sell_60 qty_30)) 10
       = Some (stored_parcel (decremented lot_30 qty_30))
   \<and> get_parcel (spec_commit_one db_two (build_match lot_30 sell_60 qty_30)) 20
       = get_parcel db_two 20
   \<and> quantity_column (remaining_quantity lot_30) \<and> quantity_column qty_30
   \<and> dval (remaining_quantity (stored_parcel (decremented lot_30 qty_30)))
       = dval (remaining_quantity lot_30) - dval qty_30"
proof -
  let ?a = "build_match lot_30 sell_60 qty_30"
  let ?b = "build_match lot_50 sell_60 qty_30"
  note a0 = steps_two_ok(1) and b1 = steps_two_ok(2) and a1 = steps_two_ok(3)
  have good: "\<not> (\<exists>i<length [?a, ?b]. missing (spec_commit_all db_two (take i [?a, ?b])) ([?a, ?b] ! i)
                     \<or> exceeds (spec_commit_all db_two (take i [?a, ?b])) ([?a, ?b] ! i)
                     \<or> unstorable (spec_commit_all db_two (take i [?a, ?b])) ([?a, ?b] ! i))"
    using a0 b1 by (simp add: Ex_less_Suc2 spec_commit_all_def)
  have bad: "\<exists>i<length [?a, ?a]. missing (spec_commit_all db_two (take i [?a, ?a])) ([?a, ?a] ! i)
                     \<or> exceeds (spec_commit_all db_two (take i [?a, ?a])) ([?a, ?a] ! i)
                     \<or> unstorable (spec_commit_all db_two (take i [?a, ?a])) ([?a, ?a] ! i)"
    using a1 by (simp add: Ex_less_Suc2 spec_commit_all_def)
  have rem: "parcels (spec_commit_all db_two [?a, ?b]) =
     [lot_30\<lparr>remaining_quantity := Decimal 0 (- 8), is_fully_matched := True\<rparr>,
      lot_50\<lparr>remaining_quantity := Decimal 2000000000 (- 8), is_fully_matched := False\<rparr>]"
    by (simp add: spec_commit_all_def step_two)
  from confirm_matches_atomic [of "[?a, ?b]" db_two] good
  have ok: "confirm_matches db_two [?a, ?b] = (Inr (spec_saved db_two [?a, ?b]), spec_commit_all db_two [?a, ?b])"
    by blast
  from confirm_matches_atomic [of "[?a, ?a]" db_two] bad
  have ko: "\<exists>e. confirm_matches db_two [?a, ?a] = (Inl e, db_two)"
    by blast
  have g: "get_parcel db_two (parcel_id (parcel ?a)) = Some lot_30"
    by simp
  have q: "quantity_column (remaining_quantity lot_30) \<and> quantity_column (matched_quantity ?a)"
    by (simp add: quantity_column_def qty_30_def dval_def)
  have ne: "(20::nat) \<noteq> parcel_id (parcel ?a)"
    by simp
  from confirm_matches_atomic [of "[?a, ?b]" db_two]
  have step: "\<forall>(m::parcel_match) p. get_parcel db_two (parcel_id (parcel m)) = Some p \<longrightarrow>
         get_parcel (spec_commit_one db_two m) (parcel_id (parcel m))
           = Some (stored_parcel (decremented p (matched_quantity m)))
         \<and> (\<forall>pk. pk \<noteq> parcel_id (parcel m) \<longrightarrow>
                get_parcel (spec_commit_one db_two m) pk = get_parcel db_two pk)
         \<and> (quantity_column (remaining_quantity p) \<and> quantity_column (matched_quantity m) \<longrightarrow>
              dval (remaining_quantity (stored_parcel (decremented p (matched_quantity m))))
                = dval (remaining_quantity p) - dval (matched_quantity m))"
    by blast
  from step g q ne
  have s1: "get_parcel (spec_commit_one db_two ?a) (parcel_id (parcel ?a))
           = Some (stored_parcel (decremented lot_30 (matched_quantity ?a)))"
    and s2: "get_parcel (spec_commit_one db_two ?a) 20 = get_parcel db_two 20"
    and s3: "dval (remaining_quantity (stored_parcel (decremented lot_30 (matched_quantity ?a))))
                = dval (remaining_quantity lot_30) - dval (matched_quantity ?a)"
    by blast+
  from s1 have s1': "get_parcel (spec_commit_one db_two ?a) 10
       = Some (stored_parcel (decremented lot_30 qty_30))"
    by (simp only: build_match_sel lots_sel)
  from s3 have s3': "dval (remaining_quantity (stored_parcel (decremented lot_30 qty_30)))
       = dval (remaining_quantity lot_30) - dval qty_30"
    by (simp only: build_match_sel)
  from q have q': "quantity_column (remaining_quantity lot_30) \<and> quantity_column qty_30"
    by (simp only: build_match_sel)
  have g': "get_parcel db_two 10 = Some lot_30" by simp
  have r1: "map remaining_quantity (parcels (spec_commit_all db_two [?a, ?b]))
              = [Decimal 0 (- 8), Decimal 2000000000 (- 8)]"
    and r2: "map is_fully_matched (parcels (spec_commit_all db_two [?a, ?b])) = [True, False]"
    by (simp_all add: rem)
  from ok ko r1 r2 g' s1' s2 q' s3' show ?thesis
    by (simp only: simp_thms)
qed

section \<open>Manual matching\<close>

lemma match_manual_loop_iff:
  "match_manual_loop sell pairs ms t = Inr (ms', t') \<longleftrightarrow>
     (\<forall>(p, qty) \<in> set (filter (\<lambda>(p, qty). \<not> dec_le qty dec_zero) pairs).
         \<not> dec_less (remaining_quantity p) qty
         \<and> sec_pk (parcel_security p) = sec_pk (security sell))
     \<and> ms' = ms @ map (\<lambda>(p, qty). build_match p sell qty)
                    (filter (\<lambda>(p, qty). \<not> dec_le qty dec_zero) pairs)
     \<and> t' = foldl dec_add t (map snd (filter (\<lambda>(p, qty). \<not> dec_le qty dec_zero) pairs))"
proof (induction pairs arbitrary: ms t)
  case Nil
  then show ?case by auto
next
  case (Cons a pairs)
  obtain p qty where a: "a = (p, qty)" by (cases a)
  show ?case
    unfolding a by (simp add: Cons.IH)
qed



lemma match_manual_iff_aux:
  "match_manual sell sell_qty ps quantities = Inr ms \<longleftrightarrow>
     (\<exists>pl ql. ps = Some pl \<and> quantities = Some ql \<and> pl \<noteq> [] \<and> ql \<noteq> []
        \<and> length pl = length ql
        \<and> (\<forall>(p, qty) \<in> set (kept_pairs pl ql).
              dval qty \<le> dval (remaining_quantity p)
              \<and> sec_pk (parcel_security p) = sec_pk (security sell))
        \<and> dval (py_sum (map snd (kept_pairs pl ql))) = dval sell_qty
        \<and> ms = map (\<lambda>(p, qty). build_match p sell qty) (kept_pairs pl ql))"
proof (cases ps)
  case None
  then show ?thesis by (simp add: match_manual_def)
next
  case (Some pl)
  note ps = this
  show ?thesis
  proof (cases quantities)
    case None
    with ps show ?thesis by (simp add: match_manual_def)
  next
    case (Some ql)
    show ?thesis
    proof (cases "pl = [] \<or> ql = [] \<or> length pl \<noteq> length ql")
      case True
      with ps Some show ?thesis by (auto simp: match_manual_def)
    next
      case False
      show ?thesis
      proof (cases "match_manual_loop sell (zip pl ql) [] dec_zero")
        case (Inl e)
        have "\<not> (\<forall>(p, qty) \<in> set (kept_pairs pl ql).
              dval qty \<le> dval (remaining_quantity p)
              \<and> sec_pk (parcel_security p) = sec_pk (security sell))"
        proof
          assume "\<forall>(p, qty) \<in> set (kept_pairs pl ql).
              dval qty \<le> dval (remaining_quantity p)
              \<and> sec_pk (parcel_security p) = sec_pk (security sell)"
          then have "\<exists>r. match_manual_loop sell (zip pl ql) [] dec_zero = Inr r"
            by (subst split_paired_Ex, subst match_manual_loop_iff)
               (auto simp: kept_pairs_def dec_less_def not_less)
          with Inl show False by simp
        qed
        with ps Some False Inl show ?thesis by (auto simp: match_manual_def)
      next
        case (Inr r)
        obtain ms' t' where r: "r = (ms', t')" by (cases r)
        from Inr [unfolded r match_manual_loop_iff]
        have ok: "\<forall>(p, qty) \<in> set (kept_pairs pl ql).
              dval qty \<le> dval (remaining_quantity p)
              \<and> sec_pk (parcel_security p) = sec_pk (security sell)"
          and ms': "ms' = map (\<lambda>(p, qty). build_match p sell qty) (kept_pairs pl ql)"
          and t': "t' = py_sum (map snd (kept_pairs pl ql))"
          by (auto simp: kept_pairs_def dec_less_def not_less py_sum_def)
        from ps Some False Inr r ok ms' t' show ?thesis
          by (auto simp: match_manual_def dec_eq_def)
      qed
    qed
  qed
qed






section \<open>The forecast\<close>


lemma set_by_acquisition_date [simp]: "set (by_acquisition_date ps) = set ps"
  by (simp add: by_acquisition_date_def)

lemma available_positive: "p \<in> set (available d sec) \<Longrightarrow> 0 < dval (remaining_quantity p)"
  by (simp add: available_def dec_less_def)



lemma available_two: "available db_two asx = [lot_30, lot_50]"
  by (simp add: available_def db_two_def lot_30_def lot_50_def dec_less_def dval_def dec_zero_def)

lemma by_date_two: "by_acquisition_date [lot_30, lot_50] = [lot_30, lot_50]"
  by (simp add: by_acquisition_date_def lot_30_def lot_50_def date_key_def)

lemma total_two: "total_available db_two asx = Decimal 8000000000 (- 8)"
  unfolding total_available_def available_two by_date_two
  by (simp add: py_sum_def dec_eval)


section \<open>The financial-year summary\<close>

lemma get_fy_range_eq:
  "get_fy_range fy =
     (if 2 \<le> fy \<and> fy \<le> 9999 then Inr (Date (fy - 1) 7 1, Date fy 6 30)
      else if c_int (fy - 1) then Inl ValueError else Inl OverflowError)"
  by (auto simp: get_fy_range_def mk_date_def days_in_month_def c_int_def)

lemma gain_iff: "dec_less dec_zero (capital_gain_loss m) \<longleftrightarrow> is_gain m"
  by (simp add: is_gain_def dec_less_def)

lemma fy_step_sel:
  "acc_gains (fy_step a m)
     = (if is_gain m then dec_add (acc_gains a) (capital_gain_loss m) else acc_gains a)"
  "acc_losses (fy_step a m)
     = (if is_gain m then acc_losses a else dec_add (acc_losses a) (capital_gain_loss m))"
  "acc_discounts (fy_step a m) = dec_add (acc_discounts a) (discount_amount m)"
  "acc_net (fy_step a m) = dec_add (acc_net a) (net_capital_gain m)"
  by (simp_all add: fy_step_def Let_def gain_iff)

lemma sec_step_eq:
  "sec_step s m =
     s\<lparr>gains := (if is_gain m then dec_add (gains s) (capital_gain_loss m) else gains s),
       losses := (if is_gain m then losses s else dec_add (losses s) (capital_gain_loss m)),
       discounts := dec_add (discounts s) (discount_amount m),
       net := dec_add (net s) (net_capital_gain m),
       sec_match_count := sec_match_count s + 1\<rparr>"
  by (simp add: sec_step_def Let_def gain_iff)

lemma fy_fold_totals:
  "acc_gains (foldl fy_step a ms)
     = foldl dec_add (acc_gains a) (map capital_gain_loss (filter is_gain ms))
   \<and> acc_losses (foldl fy_step a ms)
     = foldl dec_add (acc_losses a) (map capital_gain_loss (filter (\<lambda>m. \<not> is_gain m) ms))
   \<and> acc_discounts (foldl fy_step a ms)
     = foldl dec_add (acc_discounts a) (map discount_amount ms)
   \<and> acc_net (foldl fy_step a ms)
     = foldl dec_add (acc_net a) (map net_capital_gain ms)"
proof (induction ms arbitrary: a)
  case Nil
  then show ?case by simp
next
  case (Cons m ms)
  show ?case
    by (simp add: Cons.IH fy_step_sel)
qed

lemma sec_fold:
  "foldl sec_step s ms =
     s\<lparr>gains := foldl dec_add (gains s) (map capital_gain_loss (filter is_gain ms)),
       losses := foldl dec_add (losses s) (map capital_gain_loss (filter (\<lambda>m. \<not> is_gain m) ms)),
       discounts := foldl dec_add (discounts s) (map discount_amount ms),
       net := foldl dec_add (net s) (map net_capital_gain ms),
       sec_match_count := sec_match_count s + length ms\<rparr>"
proof (induction ms arbitrary: s)
  case Nil
  then show ?case by simp
next
  case (Cons m ms)
  show ?case
    by (simp add: Cons.IH) (simp add: sec_step_eq)
qed

lemma sec_total_fold:
  "sec_total ms t = foldl sec_step (new_sec_summary t) (filter (\<lambda>m. match_ticker m = t) ms)"
  by (simp add: sec_fold sec_total_def new_sec_summary_def py_sum_def conj_commute)

lemma sec_total_snoc:
  "sec_total (ms @ [m]) t =
     (if match_ticker m = t then sec_step (sec_total ms t) m else sec_total ms t)"
  by (simp add: sec_total_fold)

lemma sec_total_none:
  "t \<notin> match_ticker ` set ms \<Longrightarrow> sec_total ms t = new_sec_summary t"
proof -
  assume "t \<notin> match_ticker ` set ms"
  then have "filter (\<lambda>m. match_ticker m = t) ms = []"
    by (auto simp: filter_empty_conv)
  then show ?thesis by (simp add: sec_total_fold)
qed

lemma fy_fold_per_security:
  "distinct (map fst (acc_per_security (foldl fy_step
      \<lparr>acc_gains = g, acc_losses = l, acc_discounts = di, acc_net = n, acc_per_security = []\<rparr> ms)))
   \<and> map_of (acc_per_security (foldl fy_step
      \<lparr>acc_gains = g, acc_losses = l, acc_discounts = di, acc_net = n, acc_per_security = []\<rparr> ms))
     = (\<lambda>t. if t \<in> match_ticker ` set ms then Some (sec_total ms t) else None)"
proof (induction ms rule: rev_induct)
  case Nil
  then show ?case by simp
next
  case (snoc m ms)
  let ?a = "foldl fy_step
      \<lparr>acc_gains = g, acc_losses = l, acc_discounts = di, acc_net = n, acc_per_security = []\<rparr> ms"
  from snoc have d: "distinct (map fst (acc_per_security ?a))"
    and mo: "map_of (acc_per_security ?a)
       = (\<lambda>t. if t \<in> match_ticker ` set ms then Some (sec_total ms t) else None)"
    by simp_all
  have sec: "(case map_of (acc_per_security ?a) (match_ticker m) of
                None \<Rightarrow> new_sec_summary (match_ticker m) | Some x \<Rightarrow> x)
             = sec_total ms (match_ticker m)"
    by (simp add: mo sec_total_none)
  have aps: "acc_per_security (fy_step ?a m)
     = AList.update (match_ticker m) (sec_step (sec_total ms (match_ticker m)) m)
         (acc_per_security ?a)"
    using sec by (simp add: fy_step_def Let_def)
  have "distinct (map fst (acc_per_security (fy_step ?a m)))"
    unfolding aps using d by (rule distinct_update)
  moreover have "map_of (acc_per_security (fy_step ?a m))
     = (\<lambda>t. if t \<in> match_ticker ` set (ms @ [m]) then Some (sec_total (ms @ [m]) t) else None)"
    unfolding aps by (auto simp: update_conv' mo sec_total_snoc fun_eq_iff)
  ultimately show ?case by simp
qed

lemma insort_key_map:
  assumes "\<And>t. f (g t) = t"
  shows "insort_key f (g x) (map g xs) = map g (insort x xs)"
  by (induction xs) (simp_all add: assms)

lemma sort_key_map:
  assumes "\<And>t. f (g t) = t"
  shows "sort_key f (map g xs) = map g (sort xs)"
  by (induction xs) (simp_all add: insort_key_map assms)

lemma sec_ticker_total [simp]: "sec_ticker (sec_total ms t) = t"
  by (simp add: sec_total_def)

lemma per_security_sorted:
  assumes d: "distinct (map fst aps)"
    and mo: "map_of aps = (\<lambda>t. if t \<in> match_ticker ` set ms then Some (sec_total ms t) else None)"
  shows "sort_key sec_ticker (map snd aps)
           = map (sec_total ms) (sort (remdups (map match_ticker ms)))"
proof -
  have ent: "\<And>t s. (t, s) \<in> set aps \<Longrightarrow> t \<in> match_ticker ` set ms \<and> s = sec_total ms t"
  proof -
    fix t s assume "(t, s) \<in> set aps"
    with d have "map_of aps t = Some s" by simp
    then show "t \<in> match_ticker ` set ms \<and> s = sec_total ms t"
      by (auto simp: mo split: if_splits)
  qed
  then have e: "map snd aps = map (sec_total ms) (map fst aps)"
    by (auto simp: map_eq_conv)
  have s1: "sort_key sec_ticker (map snd aps) = map (sec_total ms) (sort (map fst aps))"
    unfolding e by (rule sort_key_map) simp
  have "set (map fst aps) = dom (map_of aps)"
    by (simp add: dom_map_of_conv_image_fst)
  also have "\<dots> = set (map match_ticker ms)"
    by (auto simp: mo dom_def)
  finally have "set (map fst aps) = set (remdups (map match_ticker ms))" by simp
  moreover have "distinct (remdups (map match_ticker ms))" by simp
  ultimately have "mset (map fst aps) = mset (remdups (map match_ticker ms))"
    using d by (simp only: set_eq_iff_mset_eq_distinct)
  then have "sort (map fst aps) = sort (remdups (map match_ticker ms))"
    by (metis properties_for_sort mset_sort sorted_sort)
  with s1 show ?thesis by simp
qed

lemma fy_summary_in_range:
  assumes "2 \<le> fy" "fy \<le> 9999"
  shows "fy_summary d fy =
     Inr \<lparr>financial_year = fy, start_date = Date (fy - 1) 7 1, end_date = Date fy 6 30,
          total_gains = py_sum (map capital_gain_loss (filter is_gain (window_matches d fy))),
          total_losses =
            py_sum (map capital_gain_loss (filter (\<lambda>m. \<not> is_gain m) (window_matches d fy))),
          total_discounts = py_sum (map discount_amount (window_matches d fy)),
          fy_net_capital_gain = py_sum (map net_capital_gain (window_matches d fy)),
          match_count = length (window_matches d fy),
          per_security = map (sec_total (window_matches d fy))
                           (sort (remdups (map match_ticker (window_matches d fy))))\<rparr>"
proof -
  let ?ms = "window_matches d fy"
  let ?a = "foldl fy_step \<lparr>acc_gains = dec_zero, acc_losses = dec_zero,
      acc_discounts = dec_zero, acc_net = dec_zero, acc_per_security = []\<rparr> ?ms"
  note t = fy_fold_totals [of "\<lparr>acc_gains = dec_zero, acc_losses = dec_zero,
      acc_discounts = dec_zero, acc_net = dec_zero, acc_per_security = []\<rparr>" ?ms]
  note p = fy_fold_per_security [of dec_zero dec_zero dec_zero dec_zero ?ms]
  have ps: "sort_key sec_ticker (map snd (acc_per_security ?a))
              = map (sec_total ?ms) (sort (remdups (map match_ticker ?ms)))"
    using p by (intro per_security_sorted) simp_all
  have "fy_summary d fy =
     Inr \<lparr>financial_year = fy, start_date = Date (fy - 1) 7 1, end_date = Date fy 6 30,
          total_gains = acc_gains ?a, total_losses = acc_losses ?a,
          total_discounts = acc_discounts ?a, fy_net_capital_gain = acc_net ?a,
          match_count = length ?ms,
          per_security = sort_key sec_ticker (map snd (acc_per_security ?a))\<rparr>"
    using assms by (simp add: fy_summary_def get_fy_range_eq Let_def window_matches_def)
  then show ?thesis
    using t by (simp add: ps py_sum_def)
qed

lemma window_mset:
  "mset (window_matches d fy) =
     filter_mset (\<lambda>m. date_le (Date (fy - 1) 7 1) (trade_date (sell_transaction m))
                      \<and> date_le (trade_date (sell_transaction m)) (Date fy 6 30))
       (mset (parcel_matches d))"
  by (simp add: window_matches_def fy_matches_def in_fy_def)

text \<open>
  C9 (amended). For every year from 2 to 9999, \<open>summarize(year)\<close> aggregates exactly the
  committed allocations whose disposal trade date lies in the inclusive window from July 1
  of \<open>year - 1\<close> to June 30 of \<open>year\<close> (a disposal on June 30 belongs to \<open>year\<close>, one on
  July 1 to \<open>year + 1\<close>), taken in the order of their parcels' acquisition dates. It adds
  each allocation's gross gain/loss to the gains when it is strictly positive and to the
  losses otherwise, sums discount and net gain whatever the sign, and returns one entry
  per ticker, with the same sums over that ticker's allocations, sorted by ticker. For any
  other year the call fails: with \<open>ValueError\<close> when \<open>year - 1\<close> is a C integer, with
  \<open>OverflowError\<close> when it is not. Sums are the program's decimal sums.
\<close>

theorem fy_summary_spec:
  "(2 \<le> fy \<and> fy \<le> 9999 \<longrightarrow>
      fy_summary d fy =
        Inr \<lparr>financial_year = fy, start_date = Date (fy - 1) 7 1, end_date = Date fy 6 30,
             total_gains =
               py_sum (map capital_gain_loss (filter is_gain (window_matches d fy))),
             total_losses =
               py_sum (map capital_gain_loss
                         (filter (\<lambda>m. \<not> is_gain m) (window_matches d fy))),
             total_discounts = py_sum (map discount_amount (window_matches d fy)),
             fy_net_capital_gain = py_sum (map net_capital_gain (window_matches d fy)),
             match_count = length (window_matches d fy),
             per_security = map (sec_total (window_matches d fy))
                              (sort (remdups (map match_ticker (window_matches d fy))))\<rparr>)
   \<and> (\<not> (2 \<le> fy \<and> fy \<le> 9999) \<longrightarrow>
        fy_summary d fy = Inl (if c_int (fy - 1) then ValueError else OverflowError))
   \<and> mset (window_matches d fy) =
       filter_mset (\<lambda>m. date_le (Date (fy - 1) 7 1) (trade_date (sell_transaction m))
                        \<and> date_le (trade_date (sell_transaction m)) (Date fy 6 30))
         (mset (parcel_matches d))
   \<and> date_le (Date (fy - 1) 7 1) (Date fy 6 30) \<and> date_le (Date fy 6 30) (Date fy 6 30)
   \<and> \<not> date_le (Date fy 7 1) (Date fy 6 30)
   \<and> date_le (Date fy 7 1) (Date fy 7 1) \<and> date_le (Date fy 7 1) (Date (fy + 1) 6 30)
   \<and> sorted (map sec_ticker (map (sec_total (window_matches d fy))
                (sort (remdups (map match_ticker (window_matches d fy))))))
   \<and> distinct (map sec_ticker (map (sec_total (window_matches d fy))
                (sort (remdups (map match_ticker (window_matches d fy))))))"
proof -
  have out: "\<not> (2 \<le> fy \<and> fy \<le> 9999) \<Longrightarrow>
               fy_summary d fy = Inl (if c_int (fy - 1) then ValueError else OverflowError)"
    by (auto simp: fy_summary_def get_fy_range_eq)
  have dates: "date_le (Date (fy - 1) 7 1) (Date fy 6 30) \<and> date_le (Date fy 6 30) (Date fy 6 30)
    \<and> \<not> date_le (Date fy 7 1) (Date fy 6 30)
    \<and> date_le (Date fy 7 1) (Date fy 7 1) \<and> date_le (Date fy 7 1) (Date (fy + 1) 6 30)"
    by (simp add: date_le_def date_key_def)
  have m: "map sec_ticker (map (sec_total (window_matches d fy))
                (sort (remdups (map match_ticker (window_matches d fy)))))
           = sort (remdups (map match_ticker (window_matches d fy)))"
    by (simp add: comp_def)
  have srt: "sorted (sort (remdups (map match_ticker (window_matches d fy))))
     \<and> distinct (sort (remdups (map match_ticker (window_matches d fy))))"
    by simp
  from fy_summary_in_range [of fy d] out window_mset [of d fy] dates srt show ?thesis
    unfolding m by blast
qed

theorem fy_summary_year_counterexample:
  "fy_summary db_matches 1 = Inl ValueError"
  by (simp add: fy_summary_def get_fy_range_eq c_int_def)

lemma example_matches_sel:
  "trade_date (sell_transaction match_gain) = Date 2025 6 15"
  "trade_date (sell_transaction match_loss) = Date 2025 6 15"
  "trade_date (sell_transaction match_next_year) = Date 2025 7 1"
  "acquisition_date (parcel match_gain) = Date 2024 1 10"
  "acquisition_date (parcel match_loss) = Date 2024 5 1"
  "match_ticker match_gain = ''BHP.AX''"
  "match_ticker match_loss = ''CBA.AX''"
  "capital_gain_loss match_gain = Decimal 100 0"
  "capital_gain_loss match_loss = Decimal (- 30) 0"
  "discount_amount match_gain = Decimal 50 0"
  "discount_amount match_loss = Decimal 0 0"
  "net_capital_gain match_gain = Decimal 50 0"
  "net_capital_gain match_loss = Decimal (- 30) 0"
  by (simp_all add: match_gain_def match_loss_def match_next_year_def sell_60_def lot_30_def
        lot_cba_def lot_50_def match_ticker_def asx_def cba_def)

lemma example_window: "window_matches db_matches 2025 = [match_gain, match_loss]"
  by (simp add: window_matches_def fy_matches_def db_matches_def in_fy_def example_matches_sel
        date_le_def date_key_def)

lemma example_gain: "is_gain match_gain" "\<not> is_gain match_loss"
  by (simp_all add: is_gain_def example_matches_sel dval_def)

lemma example_tickers: "sort (remdups [''BHP.AX'', ''CBA.AX'']) = [''BHP.AX'', ''CBA.AX'']"
  by (simp add: less_eq_char_def less_char_def)

lemma example_sums:
  "py_sum [Decimal 100 0] = Decimal 100 0"
  "py_sum [Decimal (- 30) 0] = Decimal (- 30) 0"
  "py_sum [Decimal 50 0, Decimal 0 0] = Decimal 50 0"
  "py_sum [Decimal 50 0, Decimal (- 30) 0] = Decimal 20 0"
  "py_sum [Decimal 50 0] = Decimal 50 0"
  "py_sum [Decimal 0 0] = Decimal 0 0"
  "py_sum [] = Decimal 0 0"
  by (simp_all add: py_sum_def dec_eval)

theorem fy_summary_spec_witness:
  "(2::int) \<le> 2025 \<and> (2025::int) \<le> 9999
   \<and> fy_summary db_matches 2025 =
       Inr \<lparr>financial_year = 2025, start_date = Date 2024 7 1, end_date = Date 2025 6 30,
            total_gains = Decimal 100 0, total_losses = Decimal (- 30) 0,
            total_discounts = Decimal 50 0, fy_net_capital_gain = Decimal 20 0,
            match_count = 2,
            per_security =
              [\<lparr>sec_ticker = ''BHP.AX'', gains = Decimal 100 0, losses = Decimal 0 0,
                discounts = Decimal 50 0, net = Decimal 50 0, sec_match_count = 1\<rparr>,
               \<lparr>sec_ticker = ''CBA.AX'', gains = Decimal 0 0, losses = Decimal (- 30) 0,
                discounts = Decimal 0 0, net = Decimal (- 30) 0, sec_match_count = 1\<rparr>]\<rparr>
   \<and> fy_summary db_matches 10000 = Inl ValueError
   \<and> fy_summary db_matches 2147483648 = Inl ValueError
   \<and> fy_summary db_matches 2147483649 = Inl OverflowError
   \<and> fy_summary db_matches (- 2147483648) = Inl OverflowError"
proof -
  have r: "(2::int) \<le> 2025 \<and> (2025::int) \<le> 9999" "\<not> ((2::int) \<le> 10000 \<and> (10000::int) \<le> 9999)"
    "\<not> ((2::int) \<le> 2147483648 \<and> (2147483648::int) \<le> 9999)"
    "\<not> ((2::int) \<le> 2147483649 \<and> (2147483649::int) \<le> 9999)"
    "\<not> ((2::int) \<le> - 2147483648 \<and> (- 2147483648::int) \<le> 9999)"
    by simp_all
  have ci: "c_int (10000 - 1)" "c_int (2147483648 - 1)" "\<not> c_int (2147483649 - 1)"
    "\<not> c_int (- 2147483648 - 1)"
    by (simp_all add: c_int_def)
  from fy_summary_spec [of 2025 db_matches] r(1)
  have "fy_summary db_matches 2025 =
        Inr \<lparr>financial_year = 2025, start_date = Date (2025 - 1) 7 1, end_date = Date 2025 6 30,
             total_gains =
               py_sum (map capital_gain_loss (filter is_gain (window_matches db_matches 2025))),
             total_losses =
               py_sum (map capital_gain_loss
                         (filter (\<lambda>m. \<not> is_gain m) (window_matches db_matches 2025))),
             total_discounts = py_sum (map discount_amount (window_matches db_matches 2025)),
             fy_net_capital_gain = py_sum (map net_capital_gain (window_matches db_matches 2025)),
             match_count = length (window_matches db_matches 2025),
             per_security = map (sec_total (window_matches db_matches 2025))
                              (sort (remdups (map match_ticker (window_matches db_matches 2025))))\<rparr>"
    by blast
  then have a: "fy_summary db_matches 2025 =
       Inr \<lparr>financial_year = 2025, start_date = Date 2024 7 1, end_date = Date 2025 6 30,
            total_gains = Decimal 100 0, total_losses = Decimal (- 30) 0,
            total_discounts = Decimal 50 0, fy_net_capital_gain = Decimal 20 0,
            match_count = 2,
            per_security =
              [\<lparr>sec_ticker = ''BHP.AX'', gains = Decimal 100 0, losses = Decimal 0 0,
                discounts = Decimal 50 0, net = Decimal 50 0, sec_match_count = 1\<rparr>,
               \<lparr>sec_ticker = ''CBA.AX'', gains = Decimal 0 0, losses = Decimal (- 30) 0,
                discounts = Decimal 0 0, net = Decimal (- 30) 0, sec_match_count = 1\<rparr>]\<rparr>"
    unfolding example_window
    by (simp add: example_gain example_matches_sel example_sums example_tickers sec_total_def)
  from fy_summary_spec [of 10000 db_matches] r(2) ci(1)
  have b: "fy_summary db_matches 10000 = Inl ValueError"
    by simp
  from fy_summary_spec [of 2147483648 db_matches] r(3) ci(2)
  have c: "fy_summary db_matches 2147483648 = Inl ValueError"
    by simp
  from fy_summary_spec [of 2147483649 db_matches] r(4) ci(3)
  have e: "fy_summary db_matches 2147483649 = Inl OverflowError"
    by simp
  from fy_summary_spec [of "- 2147483648" db_matches] r(5) ci(4)
  have f: "fy_summary db_matches (- 2147483648) = Inl OverflowError"
    by simp
  from a b c e f show ?thesis by simp
qed

section \<open>The parcel invariant\<close>

lemma get_parcel_Some:
  "get_parcel d pk = Some p \<Longrightarrow> p \<in> set (parcels d) \<and> parcel_id p = pk"
  by (auto simp: get_parcel_def find_Some_iff)



lemma confirm_step_Inr:
  assumes "confirm_step d m = Inr (d', m')"
  shows "\<not> missing d m" "\<not> exceeds d m" "\<not> unstorable d m"
    "d' = spec_commit_one d m" "m' = refreshed d m"
proof -
  have n: "\<not> (missing d m \<or> exceeds d m \<or> unstorable d m)"
  proof
    assume "missing d m \<or> exceeds d m \<or> unstorable d m"
    then have "\<exists>e. confirm_step d m = Inl e" by (rule confirm_step_fail)
    with assms show False by simp
  qed
  then show a: "\<not> missing d m" and b: "\<not> exceeds d m" and c: "\<not> unstorable d m"
    by simp_all
  from confirm_step_ok [OF a b c] assms
  show "d' = spec_commit_one d m" "m' = refreshed d m"
    by simp_all
qed

lemma confirm_loop_Inr:
  "confirm_loop d ms saved = Inr (d', saved') \<Longrightarrow>
     d' = spec_commit_all d ms \<and> saved' = saved @ spec_saved d ms
     \<and> parcel_matches d' = parcel_matches d @ spec_rows d ms"
proof (induction ms arbitrary: d saved)
  case Nil
  then show ?case by (simp add: spec_commit_all_def)
next
  case (Cons m ms)
  from Cons.prems obtain d1 m1 where s: "confirm_step d m = Inr (d1, m1)"
    and l: "confirm_loop d1 ms (saved @ [m1]) = Inr (d', saved')"
    by (auto split: sum.splits)
  note i = confirm_step_Inr [OF s]
  from i(1) have r: "parcel_matches (spec_commit_one d m) = parcel_matches d @ [spec_row d m]"
    by (auto simp: missing_def spec_commit_one_def)
  from Cons.IH [OF l]
  have ih: "d' = spec_commit_all d1 ms" "saved' = (saved @ [m1]) @ spec_saved d1 ms"
    "parcel_matches d' = parcel_matches d1 @ spec_rows d1 ms"
    by blast+
  have a: "d' = spec_commit_all d (m # ms)"
    unfolding ih(1) i(4) by (simp add: spec_commit_all_def)
  have b: "saved' = saved @ spec_saved d (m # ms)"
    unfolding ih(2) i(4,5) by simp
  have c: "parcel_matches d' = parcel_matches d @ spec_rows d (m # ms)"
    unfolding ih(3) i(4) r by simp
  from a b c show ?case by blast
qed

lemma confirm_matches_Inr:
  assumes "confirm_matches d ms = (Inr saved, d')"
  shows "saved = spec_saved d ms" "d' = spec_commit_all d ms"
    "parcel_matches d' = parcel_matches d @ spec_rows d ms"
proof -
  from assms have "confirm_loop d ms [] = Inr (d', saved)"
    by (auto simp: confirm_matches_def split: sum.splits)
  from confirm_loop_Inr [OF this]
  have c: "d' = spec_commit_all d ms" "saved = [] @ spec_saved d ms"
    "parcel_matches d' = parcel_matches d @ spec_rows d ms"
    by blast+
  from c(2) show "saved = spec_saved d ms" by simp
  from c(1) show "d' = spec_commit_all d ms" .
  from c(3) show "parcel_matches d' = parcel_matches d @ spec_rows d ms" .
qed





lemma confirm_two:
  "confirm_matches db_two [build_match lot_30 sell_60 qty_30, build_match lot_50 sell_60 qty_30]
     = (Inr (spec_saved db_two
               [build_match lot_30 sell_60 qty_30, build_match lot_50 sell_60 qty_30]),
        spec_commit_all db_two
          [build_match lot_30 sell_60 qty_30, build_match lot_50 sell_60 qty_30])"
proof -
  let ?a = "build_match lot_30 sell_60 qty_30"
  let ?b = "build_match lot_50 sell_60 qty_30"
  have "\<forall>i<length [?a, ?b]. \<not> missing (spec_commit_all db_two (take i [?a, ?b])) ([?a, ?b] ! i)
                     \<and> \<not> exceeds (spec_commit_all db_two (take i [?a, ?b])) ([?a, ?b] ! i)
                     \<and> \<not> unstorable (spec_commit_all db_two (take i [?a, ?b])) ([?a, ?b] ! i)"
    using steps_two_ok(1,2) by (simp add: All_less_Suc2 spec_commit_all_def)
  from confirm_loop_ok [OF this, of "[]"] show ?thesis
    by (simp add: confirm_matches_def)
qed


section \<open>A manual allocation with nine decimal places\<close>

text \<open>
  The manual path takes its quantities from the request as \<open>Decimal(text)\<close>. For a sell of
  30 units the caller names 29.999999996 units of the first lot of 30 and 0.000000004
  units of the second lot of 50: every quantity is positive and within its lot, and they
  add up to the sell's quantity, so \<open>match\<close> returns both proposals and the commit
  accepts them.
\<close>

lemma fig_t1_cost: "cost_base_aud (calculate_cgt lot_30 sell_30 qty_near) = Decimal 1202849999839620000 (- 15)"
  by (simp add: calculate_cgt_sel(1) lot_30_def qty_near_def dec_eval)

lemma fig_t1_proceeds: "proceeds_aud (calculate_cgt lot_30 sell_30 qty_near) = Decimal 1649999999780000000000000 (- 21)"
  by (simp add: calculate_cgt_sel(2) sell_30_def sell_60_def qty_near_def dec_eval)

lemma fig_t1_gain: "capital_gain_loss (calculate_cgt lot_30 sell_30 qty_near) = Decimal 447149999940380000000000 (- 21)"
  by (simp add: calculate_cgt_sel(3) fig_t1_cost fig_t1_proceeds dec_eval)

lemma fig_t1_days: "holding_period_days (calculate_cgt lot_30 sell_30 qty_near) = 522"
  by (simp add: calculate_cgt_sel(4) lot_30_def sell_30_def sell_60_def date_eval)

lemma fig_t1_eligible: "cgt_discount_eligible (calculate_cgt lot_30 sell_30 qty_near)"
  by (simp add: calculate_cgt_sel(5) fig_t1_days fig_t1_gain dec_eval)

lemma fig_t1_discount: "discount_amount (calculate_cgt lot_30 sell_30 qty_near) = Decimal 2235749999701900000000000 (- 22)"
  by (simp add: calculate_cgt_sel(6) fig_t1_eligible fig_t1_gain dec_eval)

lemma fig_t1_net: "net_capital_gain (calculate_cgt lot_30 sell_30 qty_near) = Decimal 2235749999701900000000000 (- 22)"
  by (simp add: calculate_cgt_sel(7) fig_t1_gain fig_t1_discount dec_eval)

lemmas fig_t1_figures =
  fig_t1_cost fig_t1_proceeds fig_t1_gain fig_t1_days fig_t1_eligible fig_t1_discount fig_t1_net

lemma fig_t1_fits: "match_fits (build_match lot_30 sell_30 qty_near)"
  unfolding match_fits_def build_match_cgt build_match_sel
    fig_t1_cost fig_t1_proceeds fig_t1_gain fig_t1_discount fig_t1_net
  by (simp add: qty_near_def column_fits_def quantize_dec_def rescale_def round_half_even_def Let_def)

lemma fig_t2_cost: "cost_base_aud (calculate_cgt lot_50 sell_30 qty_tiny) = Decimal 168000000 (- 15)"
  by (simp add: calculate_cgt_sel(1) lot_50_def qty_tiny_def dec_eval)

lemma fig_t2_proceeds: "proceeds_aud (calculate_cgt lot_50 sell_30 qty_tiny) = Decimal 220000000000000 (- 21)"
  by (simp add: calculate_cgt_sel(2) sell_30_def sell_60_def qty_tiny_def dec_eval)

lemma fig_t2_gain: "capital_gain_loss (calculate_cgt lot_50 sell_30 qty_tiny) = Decimal 52000000000000 (- 21)"
  by (simp add: calculate_cgt_sel(3) fig_t2_cost fig_t2_proceeds dec_eval)

lemma fig_t2_days: "holding_period_days (calculate_cgt lot_50 sell_30 qty_tiny) = 462"
  by (simp add: calculate_cgt_sel(4) lot_50_def sell_30_def sell_60_def date_eval)

lemma fig_t2_eligible: "cgt_discount_eligible (calculate_cgt lot_50 sell_30 qty_tiny)"
  by (simp add: calculate_cgt_sel(5) fig_t2_days fig_t2_gain dec_eval)

lemma fig_t2_discount: "discount_amount (calculate_cgt lot_50 sell_30 qty_tiny) = Decimal 260000000000000 (- 22)"
  by (simp add: calculate_cgt_sel(6) fig_t2_eligible fig_t2_gain dec_eval)

lemma fig_t2_net: "net_capital_gain (calculate_cgt lot_50 sell_30 qty_tiny) = Decimal 260000000000000 (- 22)"
  by (simp add: calculate_cgt_sel(7) fig_t2_gain fig_t2_discount dec_eval)

lemmas fig_t2_figures =
  fig_t2_cost fig_t2_proceeds fig_t2_gain fig_t2_days fig_t2_eligible fig_t2_discount fig_t2_net

lemma fig_t2_fits: "match_fits (build_match lot_50 sell_30 qty_tiny)"
  unfolding match_fits_def build_match_cgt build_match_sel
    fig_t2_cost fig_t2_proceeds fig_t2_gain fig_t2_discount fig_t2_net
  by (simp add: qty_tiny_def column_fits_def quantize_dec_def rescale_def round_half_even_def Let_def)

lemma kept_tiny:
  "kept_pairs [lot_30, lot_50] [qty_near, qty_tiny] = [(lot_30, qty_near), (lot_50, qty_tiny)]"
  by (simp add: kept_pairs_def qty_near_def qty_tiny_def dec_le_def dval_def dec_zero_def
        power_int_minus)

lemma sum_tiny: "py_sum [qty_near, qty_tiny] = Decimal 30000000000 (- 9)"
  by (simp add: py_sum_def qty_near_def qty_tiny_def dec_eval)

lemma match_tiny:
  "match db_two sell_30 ''manual'' (Some [lot_30, lot_50]) (Some [qty_near, qty_tiny])
     = Inr [
       build_match lot_30 sell_30 qty_near,
       build_match lot_50 sell_30 qty_tiny]"
proof -
  have s: "quantity sell_30 = Decimal 3000000000 (- 8)" "transaction_type sell_30 = SELL"
    "sec_pk (security sell_30) = sec_pk asx"
    by (simp_all add: sell_30_def sell_60_def)
  have l: "sec_pk (parcel_security lot_30) = sec_pk asx" "sec_pk (parcel_security lot_50) = sec_pk asx"
    by (simp_all add: lot_30_def lot_50_def)
  have a: "\<forall>(p, qty) \<in> set (kept_pairs [lot_30, lot_50] [qty_near, qty_tiny]).
       dval qty \<le> dval (remaining_quantity p)
       \<and> sec_pk (parcel_security p) = sec_pk (security sell_30)"
    unfolding kept_tiny
    by (simp add: s l) (simp add: qty_near_def qty_tiny_def dval_def power_int_minus)
  have b: "dval (py_sum (map snd (kept_pairs [lot_30, lot_50] [qty_near, qty_tiny])))
       = dval (quantity sell_30)"
    unfolding kept_tiny by (simp add: sum_tiny s) (simp add: dval_def power_int_minus)
  have c: "map (\<lambda>(p, qty). build_match p sell_30 qty)
             (kept_pairs [lot_30, lot_50] [qty_near, qty_tiny]) = [
       build_match lot_30 sell_30 qty_near,
       build_match lot_50 sell_30 qty_tiny]"
    unfolding kept_tiny by simp
  have "match_manual sell_30 (quantity sell_30) (Some [lot_30, lot_50]) (Some [qty_near, qty_tiny])
          = Inr [
       build_match lot_30 sell_30 qty_near,
       build_match lot_50 sell_30 qty_tiny]"
    unfolding match_manual_iff_aux using a b c by auto
  then show ?thesis
    by (simp add: match_def s)
qed

lemma sub_tiny:
  "dec_sub (Decimal 3000000000 (- 8)) qty_near = Decimal 4 (- 9)"
  "dec_sub (Decimal 5000000000 (- 8)) qty_tiny = Decimal 49999999996 (- 9)"
  by (simp_all add: qty_near_def qty_tiny_def dec_eval)

lemma quantize_tiny:
  "quantize_dec 8 (Decimal 4 (- 9)) = Decimal 0 (- 8)"
  "quantize_dec 8 (Decimal 49999999996 (- 9)) = Decimal 5000000000 (- 8)"
  "quantize_dec 8 qty_near = Decimal 3000000000 (- 8)"
  "quantize_dec 8 qty_tiny = Decimal 0 (- 8)"
  by (simp_all add: qty_near_def qty_tiny_def quantize_dec_def rescale_def round_half_even_def
        Let_def)

lemma not_zero_tiny:
  "\<not> dec_eq (Decimal 4 (- 9)) dec_zero" "\<not> dec_eq (Decimal 49999999996 (- 9)) dec_zero"
  by (simp_all add: dec_eq_def dval_def dec_zero_def)

lemma tiny_one:
  "spec_commit_one db_two (build_match lot_30 sell_30 qty_near) =
     \<lparr>parcels = [lot_30\<lparr>remaining_quantity := Decimal 0 (- 8), is_fully_matched := False\<rparr>, lot_50],
      parcel_matches = [spec_row db_two (build_match lot_30 sell_30 qty_near)]\<rparr>"
  apply (simp add: spec_commit_one_def)
  apply (simp add: db_two_def stored_parcel_def decremented_def sub_tiny quantize_tiny not_zero_tiny)
  apply (simp add: lot_30_def)
  done

lemma get_after_tiny [simp]:
  "get_parcel (spec_commit_one db_two (build_match lot_30 sell_30 qty_near)) 10
     = Some (lot_30\<lparr>remaining_quantity := Decimal 0 (- 8), is_fully_matched := False\<rparr>)"
  "get_parcel (spec_commit_one db_two (build_match lot_30 sell_30 qty_near)) 20 = Some lot_50"
  unfolding tiny_one by (simp_all add: get_parcel_def)

lemma tiny_two:
  "parcels (spec_commit_one (spec_commit_one db_two (build_match lot_30 sell_30 qty_near)) (build_match lot_50 sell_30 qty_tiny)) =
     [lot_30\<lparr>remaining_quantity := Decimal 0 (- 8), is_fully_matched := False\<rparr>,
      lot_50\<lparr>remaining_quantity := Decimal 5000000000 (- 8), is_fully_matched := False\<rparr>]"
  apply (simp add: spec_commit_one_def [of "spec_commit_one db_two (build_match lot_30 sell_30 qty_near)"])
  apply (simp add: tiny_one stored_parcel_def decremented_def sub_tiny quantize_tiny not_zero_tiny)
  apply (simp add: lot_50_def)
  done

lemma tiny_ok:
  "\<not> missing db_two (build_match lot_30 sell_30 qty_near) \<and> \<not> exceeds db_two (build_match lot_30 sell_30 qty_near) \<and> \<not> unstorable db_two (build_match lot_30 sell_30 qty_near)"
  "\<not> missing (spec_commit_one db_two (build_match lot_30 sell_30 qty_near)) (build_match lot_50 sell_30 qty_tiny)
   \<and> \<not> exceeds (spec_commit_one db_two (build_match lot_30 sell_30 qty_near)) (build_match lot_50 sell_30 qty_tiny)
   \<and> \<not> unstorable (spec_commit_one db_two (build_match lot_30 sell_30 qty_near)) (build_match lot_50 sell_30 qty_tiny)"
proof -
  have c: "column_fits 18 8 (Decimal 4 (- 9))" "column_fits 18 8 (Decimal 49999999996 (- 9))"
    by (simp_all add: column_fits_def quantize_tiny)
  show "\<not> missing db_two (build_match lot_30 sell_30 qty_near) \<and> \<not> exceeds db_two (build_match lot_30 sell_30 qty_near) \<and> \<not> unstorable db_two (build_match lot_30 sell_30 qty_near)"
    by (simp add: missing_def exceeds_def unstorable_def fig_t1_fits sub_tiny c)
       (simp add: dec_less_def dval_def qty_near_def power_int_minus)
  show "\<not> missing (spec_commit_one db_two (build_match lot_30 sell_30 qty_near)) (build_match lot_50 sell_30 qty_tiny)
   \<and> \<not> exceeds (spec_commit_one db_two (build_match lot_30 sell_30 qty_near)) (build_match lot_50 sell_30 qty_tiny)
   \<and> \<not> unstorable (spec_commit_one db_two (build_match lot_30 sell_30 qty_near)) (build_match lot_50 sell_30 qty_tiny)"
    by (simp add: missing_def exceeds_def unstorable_def fig_t2_fits sub_tiny c)
       (simp add: dec_less_def dval_def qty_tiny_def power_int_minus)
qed

lemma confirm_tiny:
  "confirm_matches db_two [
       build_match lot_30 sell_30 qty_near,
       build_match lot_50 sell_30 qty_tiny]
     = (Inr (spec_saved db_two [
       build_match lot_30 sell_30 qty_near,
       build_match lot_50 sell_30 qty_tiny]), spec_commit_all db_two [
       build_match lot_30 sell_30 qty_near,
       build_match lot_50 sell_30 qty_tiny])"
proof -
  have "\<forall>i<length [
       build_match lot_30 sell_30 qty_near,
       build_match lot_50 sell_30 qty_tiny].
          \<not> missing (spec_commit_all db_two (take i [
       build_match lot_30 sell_30 qty_near,
       build_match lot_50 sell_30 qty_tiny])) ([
       build_match lot_30 sell_30 qty_near,
       build_match lot_50 sell_30 qty_tiny] ! i)
          \<and> \<not> exceeds (spec_commit_all db_two (take i [
       build_match lot_30 sell_30 qty_near,
       build_match lot_50 sell_30 qty_tiny])) ([
       build_match lot_30 sell_30 qty_near,
       build_match lot_50 sell_30 qty_tiny] ! i)
          \<and> \<not> unstorable (spec_commit_all db_two (take i [
       build_match lot_30 sell_30 qty_near,
       build_match lot_50 sell_30 qty_tiny])) ([
       build_match lot_30 sell_30 qty_near,
       build_match lot_50 sell_30 qty_tiny] ! i)"
    using tiny_ok by (simp add: All_less_Suc2 spec_commit_all_def)
  from confirm_loop_ok [OF this, of "[]"] show ?thesis
    by (simp add: confirm_matches_def)
qed

lemma parcels_tiny:
  "parcels (snd (confirm_matches db_two [
       build_match lot_30 sell_30 qty_near,
       build_match lot_50 sell_30 qty_tiny])) =
     [lot_30\<lparr>remaining_quantity := Decimal 0 (- 8), is_fully_matched := False\<rparr>,
      lot_50\<lparr>remaining_quantity := Decimal 5000000000 (- 8), is_fully_matched := False\<rparr>]"
  by (simp add: confirm_tiny spec_commit_all_def tiny_two)

lemma rows_tiny:
  "map matched_quantity (parcel_matches (snd (confirm_matches db_two [
       build_match lot_30 sell_30 qty_near,
       build_match lot_50 sell_30 qty_tiny])))
     = [Decimal 3000000000 (- 8), Decimal 0 (- 8)]"
proof -
  have "parcel_matches (snd (confirm_matches db_two [
       build_match lot_30 sell_30 qty_near,
       build_match lot_50 sell_30 qty_tiny]))
          = parcel_matches db_two @ spec_rows db_two [
       build_match lot_30 sell_30 qty_near,
       build_match lot_50 sell_30 qty_tiny]"
    using confirm_matches_Inr(3) [OF confirm_tiny] by (simp add: confirm_tiny)
  then show ?thesis
    by (simp add: db_two_def spec_rows_quantities quantize_tiny)
qed

theorem commit_rounded_counterexample:
  "match db_two sell_30 ''manual'' (Some [lot_30, lot_50]) (Some [qty_near, qty_tiny])
     = Inr [
       build_match lot_30 sell_30 qty_near,
       build_match lot_50 sell_30 qty_tiny]
   \<and> fst (confirm_matches db_two [
       build_match lot_30 sell_30 qty_near,
       build_match lot_50 sell_30 qty_tiny]) = Inr (spec_saved db_two [
       build_match lot_30 sell_30 qty_near,
       build_match lot_50 sell_30 qty_tiny])
   \<and> map remaining_quantity (parcels db_two)
       = [Decimal 3000000000 (- 8), Decimal 5000000000 (- 8)]
   \<and> map remaining_quantity (parcels (snd (confirm_matches db_two [
       build_match lot_30 sell_30 qty_near,
       build_match lot_50 sell_30 qty_tiny])))
       = [Decimal 0 (- 8), Decimal 5000000000 (- 8)]
   \<and> dval (Decimal 0 (- 8)) \<noteq> dval (Decimal 3000000000 (- 8)) - dval qty_near
   \<and> dval (Decimal 5000000000 (- 8)) \<noteq> dval (Decimal 5000000000 (- 8)) - dval qty_tiny
   \<and> map matched_quantity [
       build_match lot_30 sell_30 qty_near,
       build_match lot_50 sell_30 qty_tiny] = [qty_near, qty_tiny]
   \<and> map matched_quantity (parcel_matches (snd (confirm_matches db_two [
       build_match lot_30 sell_30 qty_near,
       build_match lot_50 sell_30 qty_tiny])))
       = [Decimal 3000000000 (- 8), Decimal 0 (- 8)]"
proof -
  have a: "map remaining_quantity (parcels db_two)
       = [Decimal 3000000000 (- 8), Decimal 5000000000 (- 8)]"
    by (simp add: db_two_def)
  have b: "map remaining_quantity (parcels (snd (confirm_matches db_two [
       build_match lot_30 sell_30 qty_near,
       build_match lot_50 sell_30 qty_tiny])))
       = [Decimal 0 (- 8), Decimal 5000000000 (- 8)]"
    by (simp add: parcels_tiny)
  have c: "dval (Decimal 0 (- 8)) \<noteq> dval (Decimal 3000000000 (- 8)) - dval qty_near"
    "dval (Decimal 5000000000 (- 8)) \<noteq> dval (Decimal 5000000000 (- 8)) - dval qty_tiny"
    by (simp_all add: qty_near_def qty_tiny_def dval_def power_int_minus)
  have e: "fst (confirm_matches db_two [
       build_match lot_30 sell_30 qty_near,
       build_match lot_50 sell_30 qty_tiny]) = Inr (spec_saved db_two [
       build_match lot_30 sell_30 qty_near,
       build_match lot_50 sell_30 qty_tiny])"
    by (simp add: confirm_tiny)
  have f: "map matched_quantity [
       build_match lot_30 sell_30 qty_near,
       build_match lot_50 sell_30 qty_tiny] = [qty_near, qty_tiny]"
    by simp
  from match_tiny e a b c f rows_tiny show ?thesis
    by (simp only: simp_thms)
qed


section \<open>The greedy allocation\<close>

lemma fits_scale:
  assumes e: "- int g \<le> exponent a" and v: "\<bar>dval a\<bar> * 10 ^ g < 10 ^ 28"
  shows "fits a"
proof -
  have p: "(10::rat) powi (- exponent a) \<le> 10 powi (int g)"
    using e by (intro power_int_increasing) simp_all
  have "\<bar>rat_of_int (coefficient a)\<bar> = \<bar>dval a\<bar> * 10 powi (- exponent a)"
    by (simp add: dval_coefficient abs_mult)
  also have "\<dots> \<le> \<bar>dval a\<bar> * 10 powi (int g)"
    using p by (intro mult_left_mono) simp_all
  also have "\<dots> < rat_of_int (10 ^ 28)"
    using v by simp
  finally have "\<bar>rat_of_int (coefficient a)\<bar> < rat_of_int (10 ^ 28)" .
  then have "rat_of_int \<bar>coefficient a\<bar> < rat_of_int (10 ^ 28)"
    by simp
  then have "\<bar>coefficient a\<bar> < 10 ^ 28"
    by (simp only: of_int_less_iff)
  then show ?thesis by (simp add: fits_iff)
qed

lemma dec_sub_scale:
  assumes "- int g \<le> exponent a" "- int g \<le> exponent b"
    "\<bar>dval a - dval b\<bar> * 10 ^ g < 10 ^ 28"
  shows "dval (dec_sub a b) = dval a - dval b" "- int g \<le> exponent (dec_sub a b)"
proof -
  have f: "fits (sub_raw a b)"
    using assms by (intro fits_scale [of g]) (simp_all add: exponent_sub_raw dval_sub_raw)
  then show "dval (dec_sub a b) = dval a - dval b"
    by (simp add: dec_sub_def fix_ctx_fits dval_sub_raw)
  from f show "- int g \<le> exponent (dec_sub a b)"
    using assms by (simp add: dec_sub_def fix_ctx_fits exponent_sub_raw)
qed


lemma greedy_sum:
  "\<forall>r \<in> set rs. 0 \<le> r \<Longrightarrow> 0 \<le> need \<Longrightarrow> sum_list (greedy rs need) = min need (sum_list rs)"
proof (induction rs arbitrary: need)
  case Nil
  then show ?case by simp
next
  case (Cons r rs)
  have nn: "0 \<le> sum_list rs" using Cons.prems(1) by (intro sum_list_nonneg) simp
  show ?case
  proof (cases "need \<le> 0")
    case True
    with Cons.prems nn show ?thesis by simp
  next
    case False
    have "0 \<le> need - min r need" by simp
    with Cons.IH [of "need - min r need"] Cons.prems(1)
    have "sum_list (greedy rs (need - min r need)) = min (need - min r need) (sum_list rs)"
      by simp
    with False Cons.prems nn show ?thesis by (simp add: min_def)
  qed
qed

lemma greedy_length: "length (greedy rs need) \<le> length rs"
  by (induction rs arbitrary: need) simp_all

lemma greedy_dec_exact:
  assumes "\<forall>r \<in> set rs. - 8 \<le> exponent r \<and> 0 < dval r"
    and "8 \<le> g" "- int g \<le> exponent rem" "0 \<le> dval rem" "dval rem * 10 ^ g < 10 ^ 28"
  shows "map dval (fst (greedy_dec rs rem)) = greedy (map dval rs) (dval rem)
         \<and> dval (snd (greedy_dec rs rem))
             = dval rem - sum_list (greedy (map dval rs) (dval rem))
         \<and> - int g \<le> exponent (snd (greedy_dec rs rem))"
  using assms
proof (induction rs arbitrary: rem)
  case Nil
  then show ?case by simp
next
  case (Cons r rs)
  show ?case
  proof (cases "dec_le rem dec_zero")
    case True
    with Cons.prems show ?thesis by (simp add: dec_le_def)
  next
    case False
    then have pos: "0 < dval rem" by (simp add: dec_le_def)
    let ?q = "py_min r rem"
    have r: "- 8 \<le> exponent r" "0 < dval r" using Cons.prems(1) by simp_all
    have qv: "dval ?q = min (dval r) (dval rem)"
      by (simp add: py_min_def dec_less_def min_def)
    have qe: "- int g \<le> exponent ?q"
      using r(1) Cons.prems(2,3) by (simp add: py_min_def)
    have d: "0 \<le> dval rem - dval ?q" "dval rem - dval ?q \<le> dval rem"
      using r(2) pos by (simp_all add: qv)
    have "\<bar>dval rem - dval ?q\<bar> \<le> dval rem"
      using d by simp
    then have "\<bar>dval rem - dval ?q\<bar> * 10 ^ g \<le> dval rem * 10 ^ g"
      by (rule mult_right_mono) simp
    from this Cons.prems(5) have b: "\<bar>dval rem - dval ?q\<bar> * 10 ^ g < 10 ^ 28"
      by (rule le_less_trans)
    note s = dec_sub_scale [OF Cons.prems(3) qe b]
    have b': "dval (dec_sub rem ?q) * 10 ^ g < 10 ^ 28"
      using b d s(1) by simp
    have ih: "map dval (fst (greedy_dec rs (dec_sub rem ?q)))
                = greedy (map dval rs) (dval (dec_sub rem ?q))
         \<and> dval (snd (greedy_dec rs (dec_sub rem ?q)))
             = dval (dec_sub rem ?q) - sum_list (greedy (map dval rs) (dval (dec_sub rem ?q)))
         \<and> - int g \<le> exponent (snd (greedy_dec rs (dec_sub rem ?q)))"
      using Cons.prems(1,2) s d b' by (intro Cons.IH) simp_all
    from ih False pos show ?thesis
      by (simp add: dec_le_def split_beta s(1) qv)
  qed
qed

lemma match_auto_loop_greedy:
  "match_auto_loop sell ps rem ms =
     (ms @ map (\<lambda>(p, q). build_match p sell q)
             (zip ps (fst (greedy_dec (map remaining_quantity ps) rem))),
      snd (greedy_dec (map remaining_quantity ps) rem))"
proof (induction ps arbitrary: rem ms)
  case Nil
  then show ?case by simp
next
  case (Cons p ps)
  show ?case
    by (simp add: Cons.IH Let_def split_beta)
qed

lemma greedy_dec_length:
  "length (fst (greedy_dec rs rem)) \<le> length rs"
  by (induction rs arbitrary: rem) (simp_all add: split_beta Let_def)

lemma map_fst_zip_take':
  "length ys \<le> length xs \<Longrightarrow> map fst (zip xs ys) = take (length ys) xs"
  by (simp add: map_fst_zip_take min_def)

lemma match_auto_result:
  fixes d :: db and sell :: transaction and sell_qty :: decimal and strategy :: string
  assumes col: "quantity_column sell_qty" and nn: "0 \<le> dval sell_qty"
    and pc: "\<forall>p \<in> set (parcels d). - 8 \<le> exponent (remaining_quantity p)"
    and st: "strategy = ''fifo'' \<or> strategy = ''lifo''"
  defines "cands \<equiv> candidates d (security sell) strategy"
  defines "tot \<equiv> sum_list (map (\<lambda>p. dval (remaining_quantity p)) cands)"
  shows "dval sell_qty \<le> tot \<Longrightarrow>
           \<exists>ms. match_auto d sell sell_qty strategy = Inr ms
             \<and> map parcel ms = take (length ms) cands
             \<and> map (\<lambda>m. dval (matched_quantity m)) ms
                 = greedy (map (\<lambda>p. dval (remaining_quantity p)) cands) (dval sell_qty)
             \<and> sum_list (map (\<lambda>m. dval (matched_quantity m)) ms) = dval sell_qty
             \<and> list_all (\<lambda>m. sell_transaction m = sell) ms"
    and "tot < dval sell_qty \<Longrightarrow>
           \<exists>avail. match_auto d sell sell_qty strategy
                     = Inl (MatchingError (Insufficient sell_qty avail))
             \<and> dval avail = tot"
proof -
  let ?rs = "map remaining_quantity cands"
  let ?g = "greedy_dec ?rs sell_qty"
  have sub: "set cands \<subseteq> set (available d (security sell))"
    by (auto simp: cands_def candidates_def by_acquisition_date_desc_def)
  have rs: "\<forall>r \<in> set ?rs. - 8 \<le> exponent r \<and> 0 < dval r"
    using sub pc available_positive [of _ d "security sell"]
    by (auto simp: available_def)
  from col have e: "- int 8 \<le> exponent sell_qty" and b: "dval sell_qty * 10 ^ 8 < 10 ^ 28"
    using nn by (simp_all add: quantity_column_def)
  have "map dval (fst ?g) = greedy (map dval ?rs) (dval sell_qty)
     \<and> dval (snd ?g) = dval sell_qty - sum_list (greedy (map dval ?rs) (dval sell_qty))
     \<and> - int 8 \<le> exponent (snd ?g)"
    by (rule greedy_dec_exact [OF rs _ e nn b]) simp
  then have q: "map dval (fst ?g) = greedy (map dval ?rs) (dval sell_qty)"
    and f: "dval (snd ?g) = dval sell_qty - sum_list (greedy (map dval ?rs) (dval sell_qty))"
    and fe: "- int 8 \<le> exponent (snd ?g)"
    by blast+
  have mm: "map dval ?rs = map (\<lambda>p. dval (remaining_quantity p)) cands"
    by (simp add: comp_def)
  have rnn: "\<forall>r \<in> set (map dval ?rs). 0 \<le> r"
    using rs by (auto simp: less_imp_le)
  have gs: "sum_list (greedy (map dval ?rs) (dval sell_qty)) = min (dval sell_qty) tot"
    using greedy_sum [OF rnn nn] unfolding mm tot_def .
  have loop: "match_auto_loop sell cands sell_qty []
      = (map (\<lambda>(p, q). build_match p sell q) (zip cands (fst ?g)), snd ?g)"
    by (simp add: match_auto_loop_greedy)
  have ma: "match_auto d sell sell_qty strategy =
     (if 0 < dval (snd ?g)
      then Inl (MatchingError (Insufficient sell_qty (dec_sub sell_qty (snd ?g))))
      else Inr (map (\<lambda>(p, q). build_match p sell q) (zip cands (fst ?g))))"
    using st loop
    by (auto simp: match_auto_def cands_def candidates_def Let_def dec_less_def)
  have len: "length (fst ?g) \<le> length cands"
    using greedy_dec_length [of ?rs sell_qty] by simp
  {
    assume le: "dval sell_qty \<le> tot"
    let ?ms = "map (\<lambda>(p, q). build_match p sell q) (zip cands (fst ?g))"
    from le f gs have z: "dval (snd ?g) = 0" by simp
    have mq: "map (\<lambda>m. dval (matched_quantity m)) ?ms = map dval (fst ?g)"
      using len by (simp add: comp_def split_beta map_snd_zip_take min_def
           flip: map_map [of dval snd, unfolded comp_def])
    have mp: "map parcel ?ms = take (length ?ms) cands"
      using len by (simp add: comp_def split_beta map_fst_zip_take min_def)
    have "match_auto d sell sell_qty strategy = Inr ?ms"
      using ma z by simp
    moreover have "map (\<lambda>m. dval (matched_quantity m)) ?ms
                 = greedy (map (\<lambda>p. dval (remaining_quantity p)) cands) (dval sell_qty)"
      unfolding mq q mm ..
    moreover have "sum_list (map (\<lambda>m. dval (matched_quantity m)) ?ms) = dval sell_qty"
      unfolding mq q using gs le by simp
    moreover have "list_all (\<lambda>m. sell_transaction m = sell) ?ms"
      by (simp add: list_all_iff split_beta)
    ultimately show "\<exists>ms. match_auto d sell sell_qty strategy = Inr ms
             \<and> map parcel ms = take (length ms) cands
             \<and> map (\<lambda>m. dval (matched_quantity m)) ms
                 = greedy (map (\<lambda>p. dval (remaining_quantity p)) cands) (dval sell_qty)
             \<and> sum_list (map (\<lambda>m. dval (matched_quantity m)) ms) = dval sell_qty
             \<and> list_all (\<lambda>m. sell_transaction m = sell) ms"
      using mp by blast
  }
  {
    assume lt: "tot < dval sell_qty"
    have tnn: "0 \<le> tot"
      unfolding tot_def using rs by (intro sum_list_nonneg) (auto simp: less_imp_le)
    from lt f gs have fv: "dval (snd ?g) = dval sell_qty - tot" by simp
    with lt have pos: "0 < dval (snd ?g)" by simp
    have "\<bar>dval sell_qty - dval (snd ?g)\<bar> \<le> dval sell_qty"
      using fv tnn lt by simp
    then have "\<bar>dval sell_qty - dval (snd ?g)\<bar> * 10 ^ 8 \<le> dval sell_qty * 10 ^ 8"
      by (rule mult_right_mono) simp
    from this b have "\<bar>dval sell_qty - dval (snd ?g)\<bar> * 10 ^ 8 < 10 ^ 28"
      by (rule le_less_trans)
    from dec_sub_scale(1) [OF e fe this] fv
    have "dval (dec_sub sell_qty (snd ?g)) = tot" by simp
    with ma pos show "\<exists>avail. match_auto d sell sell_qty strategy
                     = Inl (MatchingError (Insufficient sell_qty avail))
             \<and> dval avail = tot"
      by simp
  }
qed

lemma candidates_mset:
  "strategy = ''fifo'' \<or> strategy = ''lifo'' \<Longrightarrow>
   mset (candidates d sec strategy) =
     filter_mset (\<lambda>p. sec_pk (parcel_security p) = sec_pk sec \<and> 0 < dval (remaining_quantity p))
       (mset (parcels d))"
  by (auto simp: candidates_def by_acquisition_date_desc_def by_acquisition_date_def
        available_def dec_less_def)

lemma candidates_sorted:
  "sorted (map (\<lambda>p. date_key (acquisition_date p)) (candidates d sec ''fifo''))"
  "sorted (rev (map (\<lambda>p. date_key (acquisition_date p)) (candidates d sec ''lifo'')))"
  by (simp_all add: candidates_def by_acquisition_date_desc_def by_acquisition_date_def rev_map)

text \<open>
  C5. For a disposal allocated earliest-first (latest-first), with the quantities as the
  columns hold them (the disposal quantity not negative), the engine walks exactly the
  lots of the disposal's security with a positive remaining quantity, by ascending
  (descending) acquisition date, and takes \<open>min(remaining, stillNeeded)\<close> from each in
  turn. When the lots hold enough it returns proposals for a prefix of that order whose
  matched quantities sum to the disposal quantity exactly; otherwise it fails with a
  \<open>MatchingError\<close> that reports the quantity needed and the quantity available, and
  returns nothing.
\<close>

theorem match_auto_spec:
  assumes "strategy = ''fifo'' \<or> strategy = ''lifo''"
    and "quantity_column sell_qty" and "0 \<le> dval sell_qty"
    and "\<forall>p \<in> set (parcels d). - 8 \<le> exponent (remaining_quantity p)"
  shows
    "mset (candidates d (security sell) strategy) =
       filter_mset (\<lambda>p. sec_pk (parcel_security p) = sec_pk (security sell)
                        \<and> 0 < dval (remaining_quantity p)) (mset (parcels d))
     \<and> (strategy = ''fifo'' \<longrightarrow>
          sorted (map (\<lambda>p. date_key (acquisition_date p))
                    (candidates d (security sell) strategy)))
     \<and> (strategy = ''lifo'' \<longrightarrow>
          sorted (rev (map (\<lambda>p. date_key (acquisition_date p))
                         (candidates d (security sell) strategy))))
     \<and> (dval sell_qty
           \<le> sum_list (map (\<lambda>p. dval (remaining_quantity p))
                         (candidates d (security sell) strategy)) \<longrightarrow>
          (\<exists>ms. match_auto d sell sell_qty strategy = Inr ms
             \<and> map parcel ms = take (length ms) (candidates d (security sell) strategy)
             \<and> map (\<lambda>m. dval (matched_quantity m)) ms
                 = greedy (map (\<lambda>p. dval (remaining_quantity p))
                             (candidates d (security sell) strategy)) (dval sell_qty)
             \<and> sum_list (map (\<lambda>m. dval (matched_quantity m)) ms) = dval sell_qty
             \<and> list_all (\<lambda>m. sell_transaction m = sell) ms))
     \<and> (sum_list (map (\<lambda>p. dval (remaining_quantity p))
                     (candidates d (security sell) strategy)) < dval sell_qty \<longrightarrow>
          (\<exists>avail. match_auto d sell sell_qty strategy
                     = Inl (MatchingError (Insufficient sell_qty avail))
             \<and> dval avail = sum_list (map (\<lambda>p. dval (remaining_quantity p))
                                        (candidates d (security sell) strategy))))"
  using candidates_mset [OF assms(1), of d "security sell"]
    candidates_sorted [of d "security sell"]
    match_auto_result [OF assms(2,3,4,1), of sell]
  by blast

lemma candidates_two: "candidates db_two asx ''fifo'' = [lot_30, lot_50]"
  by (simp add: candidates_def available_two by_date_two)

theorem match_auto_spec_witness:
  "quantity_column (quantity sell_60) \<and> 0 \<le> dval (quantity sell_60)
   \<and> candidates db_two (security sell_60) ''fifo'' = [lot_30, lot_50]
   \<and> (\<exists>ms. match_auto db_two sell_60 (quantity sell_60) ''fifo'' = Inr ms
         \<and> map parcel ms = take (length ms) [lot_30, lot_50]
         \<and> map (\<lambda>m. dval (matched_quantity m)) ms = [30, 30])
   \<and> quantity_column (Decimal 81 0) \<and> 0 \<le> dval (Decimal 81 0)
   \<and> (\<exists>avail. match_auto db_two sell_60 (Decimal 81 0) ''fifo''
                 = Inl (MatchingError (Insufficient (Decimal 81 0) avail))
         \<and> dval avail = 80)"
proof -
  have s: "security sell_60 = asx" "quantity sell_60 = Decimal 6000000000 (- 8)"
    by (simp_all add: sell_60_def)
  have c: "quantity_column (quantity sell_60) \<and> 0 \<le> dval (quantity sell_60)"
    "quantity_column (Decimal 81 0) \<and> 0 \<le> dval (Decimal 81 0)"
    by (simp_all add: s quantity_column_def dval_def)
  have p: "\<forall>p \<in> set (parcels db_two). - 8 \<le> exponent (remaining_quantity p)"
    by (simp add: db_two_def)
  have r: "map (\<lambda>p. dval (remaining_quantity p)) [lot_30, lot_50] = [30, 50]"
    by (simp add: dval_def)
  have g: "greedy [30, 50] (dval (quantity sell_60)) = [30, 30]"
    by (simp add: s dval_def)
  have le: "dval (quantity sell_60) \<le> sum_list [30, 50]"
    "sum_list [30, 50] < dval (Decimal 81 0)"
    by (simp_all add: s dval_def)
  have f: "''fifo'' = ''fifo'' \<or> ''fifo'' = ''lifo''" by simp
  have qc: "quantity_column (quantity sell_60)" "0 \<le> dval (quantity sell_60)"
    "quantity_column (Decimal 81 0)" "0 \<le> dval (Decimal 81 0)"
    using c by simp_all
  note t1 = match_auto_spec [OF f qc(1,2) p, of sell_60, unfolded s(1) candidates_two r g]
  note t2 = match_auto_spec [OF f qc(3,4) p, of sell_60, unfolded s(1) candidates_two r]
  from t1 le(1)
  have a: "\<exists>ms. match_auto db_two sell_60 (quantity sell_60) ''fifo'' = Inr ms
         \<and> map parcel ms = take (length ms) [lot_30, lot_50]
         \<and> map (\<lambda>m. dval (matched_quantity m)) ms = [30, 30]"
    by auto
  from t2 le(2)
  have b: "\<exists>avail. match_auto db_two sell_60 (Decimal 81 0) ''fifo''
                 = Inl (MatchingError (Insufficient (Decimal 81 0) avail))
         \<and> dval avail = 80"
    by auto
  from a b c candidates_two s(1) show ?thesis by simp
qed

lemma simulate_loop_remaining:
  "sim_remaining (simulate_loop fake ps s)
     = snd (greedy_dec (map remaining_quantity ps) (sim_remaining s))"
proof (induction ps arbitrary: s)
  case Nil
  then show ?case by simp
next
  case (Cons p ps)
  show ?case
    by (simp add: Cons.IH Let_def split_beta)
qed

lemma simulate_strategy_quantities:
  "quantity_shortfall (simulate_strategy ps sec qty price sell_date)
     = snd (greedy_dec (map remaining_quantity ps) qty)"
  "quantity_matched (simulate_strategy ps sec qty price sell_date)
     = dec_sub qty (snd (greedy_dec (map remaining_quantity ps) qty))"
  by (simp_all add: simulate_strategy_def Let_def simulate_loop_remaining)



lemma forecast_Inr:
  assumes "fst (forecast today d sec qty price sd) = Inr r"
  shows "0 < dval qty" "0 < dval price" "dval qty \<le> dval (total_available d sec)"
    "fifo r = simulate_strategy (by_acquisition_date (available d sec)) sec qty price
               (case sd of None \<Rightarrow> today | Some x \<Rightarrow> x)"
    "lifo r = simulate_strategy (by_acquisition_date_desc (available d sec)) sec qty price
               (case sd of None \<Rightarrow> today | Some x \<Rightarrow> x)"
    "optimal r = simulate_strategy (by_cost_per_unit_desc (available d sec)) sec qty price
               (case sd of None \<Rightarrow> today | Some x \<Rightarrow> x)"
  using assms
  by (auto simp: forecast_def Let_def dec_le_def dec_less_def total_available_def not_le not_less
        split: if_splits)


lemma forecast_ok:
  assumes "0 < dval qty" "0 < dval price" "available d sec \<noteq> []"
    "dval qty \<le> dval (total_available d sec)"
  shows "fst (forecast today d sec qty price sd) = Inr (projr (fst (forecast today d sec qty price sd)))"
  using assms
  by (simp add: forecast_def Let_def dec_le_def dec_less_def total_available_def not_le not_less)





section \<open>Rounding depends on the value only\<close>

lemma ndigits_times_10: "0 < n \<Longrightarrow> ndigits (10 * n) = Suc (ndigits n)"
  by (subst ndigits.simps) simp

lemma round_half_even_times_10:
  "round_half_even (10 * c) (Suc k) = round_half_even c k"
proof -
  have d: "(10 * c) div (10 * 10 ^ k) = c div 10 ^ k"
    by simp
  have m: "(10 * c) mod (10 * 10 ^ k) = 10 * (c mod 10 ^ k)"
    by simp
  show ?thesis
    unfolding round_half_even_def Let_def power_Suc d m
    by simp
qed

lemma dval_shift: "dval (Decimal (c * 10) (e - 1)) = dval (Decimal c e)"
proof -
  have "(10::rat) powi e = 10 powi (e - 1) * 10"
    by (subst power_int_add_1 [symmetric]) simp_all
  then show ?thesis by (simp add: dval_def)
qed

lemma fix_ctx_shift:
  "dval (fix_ctx (Decimal (c * 10) (e - 1))) = dval (fix_ctx (Decimal c e))"
proof (cases "c = 0")
  case True
  then show ?thesis
    by (simp add: fix_ctx_def Let_def ndigits.simps prec_def dval_def)
next
  case False
  let ?n = "ndigits (nat \<bar>c\<bar>)"
  have pos: "0 < nat \<bar>c\<bar>" using False by simp
  have abs10: "nat \<bar>c * 10\<bar> = 10 * nat \<bar>c\<bar>"
    by (simp add: abs_mult nat_mult_distrib)
  have n10: "ndigits (10 * nat \<bar>c\<bar>) = Suc ?n"
    using pos by (rule ndigits_times_10)
  have sg: "sgn (c * 10) = sgn c"
    by (simp add: sgn_mult)
  consider "Suc ?n \<le> prec" | "?n = prec" | "prec < ?n" by linarith
  then show ?thesis
  proof cases
    case 1
    then show ?thesis
      by (simp add: fix_ctx_def Let_def abs10 n10 dval_shift)
  next
    case 2
    have lt: "nat \<bar>c\<bar> < 10 ^ prec"
      using ndigits_upper [of "nat \<bar>c\<bar>"] 2 by simp
    have r: "round_half_even (10 * nat \<bar>c\<bar>) (Suc 0) = nat \<bar>c\<bar>"
      by (simp add: round_half_even_def Let_def)
    have "fix_ctx (Decimal (c * 10) (e - 1)) = Decimal (sgn c * int (nat \<bar>c\<bar>)) e"
      using 2 lt by (simp add: fix_ctx_def Let_def abs10 n10 r sg)
    also have "\<dots> = Decimal c e"
      by (simp add: mult_sgn_abs)
    also have "\<dots> = fix_ctx (Decimal c e)"
      using 2 by (simp add: fix_ctx_def Let_def)
    finally show ?thesis by simp
  next
    case 3
    then have k: "Suc ?n - prec = Suc (?n - prec)" by simp
    have "fix_ctx (Decimal (c * 10) (e - 1)) = fix_ctx (Decimal c e)"
      using 3
      by (simp add: fix_ctx_def Let_def abs10 n10 k round_half_even_times_10 sg)
    then show ?thesis by simp
  qed
qed

lemma fix_ctx_shift_pow:
  "dval (fix_ctx (Decimal (c * 10 ^ j) (e - int j))) = dval (fix_ctx (Decimal c e))"
proof (induction j)
  case 0
  then show ?case by simp
next
  case (Suc j)
  have eq: "Decimal (c * 10 ^ Suc j) (e - int (Suc j)) = Decimal (c * 10 ^ j * 10) (e - int j - 1)"
    by (simp add: mult.assoc)
  have "dval (fix_ctx (Decimal (c * 10 ^ j * 10) (e - int j - 1)))
          = dval (fix_ctx (Decimal (c * 10 ^ j) (e - int j)))"
    by (rule fix_ctx_shift)
  also have "\<dots> = dval (fix_ctx (Decimal c e))"
    by (rule Suc.IH)
  finally show ?case unfolding eq .
qed

lemma dval_eq_coefficient:
  assumes "dval x = dval y" "exponent x \<le> exponent y"
  shows "coefficient x = coefficient y * 10 ^ nat (exponent y - exponent x)"
proof -
  have "rat_of_int (rescale y (exponent x)) * 10 powi exponent x = dval y"
    using assms(2) by (rule dval_rescale)
  with assms(1) have "rat_of_int (rescale y (exponent x)) * 10 powi exponent x
      = rat_of_int (coefficient x) * 10 powi exponent x"
    by (simp add: dval_def)
  then have "rat_of_int (rescale y (exponent x)) = rat_of_int (coefficient x)"
    by simp
  then have "rescale y (exponent x) = coefficient x"
    by (simp only: of_int_eq_iff)
  then show ?thesis
    by (simp add: rescale_def)
qed

lemma fix_ctx_cong_le:
  assumes "dval x = dval y" "exponent x \<le> exponent y"
  shows "dval (fix_ctx x) = dval (fix_ctx y)"
proof -
  let ?j = "nat (exponent y - exponent x)"
  have e: "exponent x = exponent y - int ?j" using assms(2) by simp
  have "x = Decimal (coefficient y * 10 ^ ?j) (exponent y - int ?j)"
    using dval_eq_coefficient [OF assms] e by (cases x) simp
  then have "dval (fix_ctx x) = dval (fix_ctx (Decimal (coefficient y) (exponent y)))"
    using fix_ctx_shift_pow [of "coefficient y" ?j "exponent y"] by simp
  then show ?thesis by simp
qed

lemma fix_ctx_cong: "dval x = dval y \<Longrightarrow> dval (fix_ctx x) = dval (fix_ctx y)"
  using fix_ctx_cong_le [of x y] fix_ctx_cong_le [of y x]
  by (cases "exponent x \<le> exponent y") auto

lemma dec_mul_cong:
  "dval a = dval a' \<Longrightarrow> dval b = dval b' \<Longrightarrow> dval (dec_mul a b) = dval (dec_mul a' b')"
  unfolding dec_mul_def by (rule fix_ctx_cong) (simp add: dval_mul_raw)

lemma dec_add_cong:
  "dval a = dval a' \<Longrightarrow> dval b = dval b' \<Longrightarrow> dval (dec_add a b) = dval (dec_add a' b')"
  unfolding dec_add_def by (rule fix_ctx_cong) (simp add: dval_add_raw)

lemma dec_sub_cong:
  "dval a = dval a' \<Longrightarrow> dval b = dval b' \<Longrightarrow> dval (dec_sub a b) = dval (dec_sub a' b')"
  unfolding dec_sub_def by (rule fix_ctx_cong) (simp add: dval_sub_raw)

section \<open>The forecast against the allocation\<close>

lemma calculate_cgt_cong:
  fixes s :: "'a sell_like_scheme" and s' :: "'b sell_like_scheme"
  assumes u: "dval (unit_price s) = dval (unit_price s')"
    and x: "dval (exchange_rate s) = dval (exchange_rate s')"
    and t: "trade_date s = trade_date s'"
  shows "same_cgt (calculate_cgt p s q) (calculate_cgt p s' q)"
proof -
  let ?a = "calculate_cgt p s q" and ?b = "calculate_cgt p s' q"
  have cb: "cost_base_aud ?a = cost_base_aud ?b"
    by (simp add: calculate_cgt_sel(1))
  have pu: "dval (dec_mul (unit_price s) (exchange_rate s))
              = dval (dec_mul (unit_price s') (exchange_rate s'))"
    using u x by (rule dec_mul_cong)
  have pr: "dval (proceeds_aud ?a) = dval (proceeds_aud ?b)"
    unfolding calculate_cgt_sel(2) using pu refl by (rule dec_mul_cong)
  have cbv: "dval (cost_base_aud ?a) = dval (cost_base_aud ?b)"
    by (simp only: cb)
  have g: "dval (capital_gain_loss ?a) = dval (capital_gain_loss ?b)"
    unfolding calculate_cgt_sel(3) using pr cbv by (rule dec_sub_cong)
  have days: "holding_period_days ?a = holding_period_days ?b"
    by (simp add: calculate_cgt_sel(4) t)
  have el: "cgt_discount_eligible ?a = cgt_discount_eligible ?b"
    unfolding calculate_cgt_sel(5) using g days by (simp add: dec_less_def)
  have di: "dval (discount_amount ?a) = dval (discount_amount ?b)"
  proof (cases "cgt_discount_eligible ?b")
    case True
    with el have e: "cgt_discount_eligible ?a" by simp
    have "dval (dec_mul (capital_gain_loss ?a) (Decimal 5 (- 1)))
            = dval (dec_mul (capital_gain_loss ?b) (Decimal 5 (- 1)))"
      using g refl by (rule dec_mul_cong)
    then show ?thesis
      by (simp add: calculate_cgt_sel(6) [of p s q] calculate_cgt_sel(6) [of p s' q] e True)
  next
    case False
    with el have e: "\<not> cgt_discount_eligible ?a" by simp
    show ?thesis
      by (simp add: calculate_cgt_sel(6) [of p s q] calculate_cgt_sel(6) [of p s' q] e False)
  qed
  have nt: "dval (net_capital_gain ?a) = dval (net_capital_gain ?b)"
    unfolding calculate_cgt_sel(7) using g di by (rule dec_sub_cong)
  from cbv pr g days el di nt show ?thesis
    unfolding same_cgt_def by blast
qed

lemma consumed_entry_sel [simp]:
  "c_parcel_id (consumed_entry p q c) = parcel_id p"
  "c_matched_quantity (consumed_entry p q c) = q"
  "cost_base_aud (consumed_entry p q c) = cost_base_aud c"
  "proceeds_aud (consumed_entry p q c) = proceeds_aud c"
  "capital_gain_loss (consumed_entry p q c) = capital_gain_loss c"
  "holding_period_days (consumed_entry p q c) = holding_period_days c"
  "cgt_discount_eligible (consumed_entry p q c) = cgt_discount_eligible c"
  "discount_amount (consumed_entry p q c) = discount_amount c"
  "net_capital_gain (consumed_entry p q c) = net_capital_gain c"
  by (simp_all add: consumed_entry_def)

lemma same_cgt_entry:
  "same_cgt (consumed_entry p q c) (build_match p s q') = same_cgt c (calculate_cgt p s q')"
  by (simp add: same_cgt_def)

lemma same_figures_entry:
  fixes fake :: sell_like and sell :: transaction
  assumes "dval (unit_price fake) = dval (unit_price sell)"
    and "dval (exchange_rate fake) = dval (exchange_rate sell)"
    and "trade_date fake = trade_date sell"
  shows "same_figures (consumed_entry p q (calculate_cgt p fake q)) (build_match p sell q)"
  unfolding same_figures_def same_cgt_entry
  using calculate_cgt_cong [OF assms, of p q] by simp

lemma py_sum_snoc: "py_sum (xs @ [x]) = dec_add (py_sum xs) x"
  by (simp add: py_sum_def)

lemma total_step:
  assumes "dval acc = dval (py_sum (map f ms))" and "dval a = dval (f m)"
  shows "dval (dec_add acc a) = dval (py_sum (map f (ms @ [m])))"
proof -
  have "py_sum (map f (ms @ [m])) = dec_add (py_sum (map f ms)) (f m)"
    by (simp add: py_sum_snoc)
  with dec_add_cong [OF assms] show ?thesis by simp
qed

lemma agree_so_far_step:
  fixes fake :: sell_like and sell :: transaction
  assumes c: "dval (unit_price fake) = dval (unit_price sell)"
    "dval (exchange_rate fake) = dval (exchange_rate sell)"
    "trade_date fake = trade_date sell"
    and a: "agree_so_far s ms"
  shows "agree_so_far
           \<lparr>sim_consumed = sim_consumed s @ [consumed_entry p q (calculate_cgt p fake q)],
            sim_remaining = r,
            sim_cost_base = dec_add (sim_cost_base s) (cost_base_aud (calculate_cgt p fake q)),
            sim_proceeds = dec_add (sim_proceeds s) (proceeds_aud (calculate_cgt p fake q)),
            sim_gain_loss = dec_add (sim_gain_loss s) (capital_gain_loss (calculate_cgt p fake q)),
            sim_discount = dec_add (sim_discount s) (discount_amount (calculate_cgt p fake q)),
            sim_net_gain = dec_add (sim_net_gain s) (net_capital_gain (calculate_cgt p fake q))\<rparr>
           (ms @ [build_match p sell q])"
proof -
  let ?c = "calculate_cgt p fake q" and ?m = "build_match p sell q"
  have e: "same_figures (consumed_entry p q ?c) ?m"
    using c by (rule same_figures_entry)
  then have f: "same_cgt ?c (calculate_cgt p sell q)"
    by (simp add: same_figures_def same_cgt_entry)
  from a have l: "list_all2 same_figures (sim_consumed s) ms"
    by (simp add: agree_so_far_def)
  have l': "list_all2 same_figures (sim_consumed s @ [consumed_entry p q ?c]) (ms @ [?m])"
    using l e by (intro list_all2_appendI) simp_all
  have t1: "dval (dec_add (sim_cost_base s) (cost_base_aud ?c))
              = dval (py_sum (map cost_base_aud (ms @ [?m])))"
    using a f by (intro total_step) (simp_all add: agree_so_far_def same_cgt_def)
  have t2: "dval (dec_add (sim_proceeds s) (proceeds_aud ?c))
              = dval (py_sum (map proceeds_aud (ms @ [?m])))"
    using a f by (intro total_step) (simp_all add: agree_so_far_def same_cgt_def)
  have t3: "dval (dec_add (sim_gain_loss s) (capital_gain_loss ?c))
              = dval (py_sum (map capital_gain_loss (ms @ [?m])))"
    using a f by (intro total_step) (simp_all add: agree_so_far_def same_cgt_def)
  have t4: "dval (dec_add (sim_discount s) (discount_amount ?c))
              = dval (py_sum (map discount_amount (ms @ [?m])))"
    using a f by (intro total_step) (simp_all add: agree_so_far_def same_cgt_def)
  have t5: "dval (dec_add (sim_net_gain s) (net_capital_gain ?c))
              = dval (py_sum (map net_capital_gain (ms @ [?m])))"
    using a f by (intro total_step) (simp_all add: agree_so_far_def same_cgt_def)
  show ?thesis
    unfolding agree_so_far_def using l' t1 t2 t3 t4 t5 by simp
qed

lemma agree_so_far_loop:
  fixes fake :: sell_like and sell :: transaction
  assumes c: "dval (unit_price fake) = dval (unit_price sell)"
    "dval (exchange_rate fake) = dval (exchange_rate sell)"
    "trade_date fake = trade_date sell"
  shows "agree_so_far s ms \<Longrightarrow>
           agree_so_far (simulate_loop fake ps s)
             (fst (match_auto_loop sell ps (sim_remaining s) ms))"
proof (induction ps arbitrary: s ms)
  case Nil
  then show ?case by simp
next
  case (Cons p ps)
  show ?case
  proof (cases "dec_le (sim_remaining s) dec_zero")
    case True
    with Cons.prems show ?thesis by simp
  next
    case False
    let ?q = "py_min (remaining_quantity p) (sim_remaining s)"
    let ?s = "\<lparr>sim_consumed = sim_consumed s @ [consumed_entry p ?q (calculate_cgt p fake ?q)],
            sim_remaining = dec_sub (sim_remaining s) ?q,
            sim_cost_base = dec_add (sim_cost_base s) (cost_base_aud (calculate_cgt p fake ?q)),
            sim_proceeds = dec_add (sim_proceeds s) (proceeds_aud (calculate_cgt p fake ?q)),
            sim_gain_loss = dec_add (sim_gain_loss s) (capital_gain_loss (calculate_cgt p fake ?q)),
            sim_discount = dec_add (sim_discount s) (discount_amount (calculate_cgt p fake ?q)),
            sim_net_gain = dec_add (sim_net_gain s) (net_capital_gain (calculate_cgt p fake ?q))\<rparr>"
    have "agree_so_far ?s (ms @ [build_match p sell ?q])"
      using c Cons.prems by (rule agree_so_far_step)
    then have "agree_so_far (simulate_loop fake ps ?s)
                 (fst (match_auto_loop sell ps (sim_remaining ?s) (ms @ [build_match p sell ?q])))"
      by (rule Cons.IH)
    with False show ?thesis
      by (simp add: Let_def)
  qed
qed

lemma simulate_strategy_agrees:
  fixes sell :: transaction and ps :: "parcel list"
  assumes "dval (exchange_rate sell) = 1"
  defines "res \<equiv> simulate_strategy ps (security sell) (quantity sell) (unit_price sell)
                    (trade_date sell)"
  defines "ms \<equiv> fst (match_auto_loop sell ps (quantity sell) [])"
  shows "list_all2 same_figures (parcels_consumed res) ms" and "same_totals res ms"
proof -
  let ?fake = "fake_sell_transaction (security sell) (trade_date sell) (unit_price sell)"
  let ?s0 = "\<lparr>sim_consumed = [], sim_remaining = quantity sell, sim_cost_base = dec_zero,
               sim_proceeds = dec_zero, sim_gain_loss = dec_zero,
               sim_discount = dec_zero, sim_net_gain = dec_zero\<rparr>"
  have c: "dval (unit_price ?fake) = dval (unit_price sell)"
    "dval (exchange_rate ?fake) = dval (exchange_rate sell)"
    "trade_date ?fake = trade_date sell"
    using assms(1) by (simp_all add: fake_sell_transaction_def dval_def)
  have "agree_so_far ?s0 []"
    by (simp add: agree_so_far_def py_sum_def)
  with c have "agree_so_far (simulate_loop ?fake ps ?s0)
                 (fst (match_auto_loop sell ps (sim_remaining ?s0) []))"
    by (rule agree_so_far_loop)
  then have l: "agree_so_far (simulate_loop ?fake ps ?s0) ms"
    by (simp add: ms_def)
  from l show "list_all2 same_figures (parcels_consumed res) ms"
    by (simp add: agree_so_far_def res_def simulate_strategy_def Let_def)
  from l show "same_totals res ms"
    by (simp add: agree_so_far_def same_totals_def res_def simulate_strategy_def Let_def)
qed

lemma match_auto_Inr:
  assumes "strategy = ''fifo'' \<or> strategy = ''lifo''"
    and "match d sell strategy pl ql = Inr ms"
  shows "ms = fst (match_auto_loop sell (candidates d (security sell) strategy) (quantity sell) [])"
  using assms
  by (auto simp: match_def match_auto_def candidates_def Let_def split_beta split: if_splits)

section \<open>The forecast against the commit\<close>

lemma refreshed_parcel_id: "parcel_id (parcel (refreshed d m)) = parcel_id (parcel m)"
  by (auto simp: refreshed_def decremented_def dest: get_parcel_Some split: option.splits)

lemma same_figures_refreshed: "same_figures c (refreshed d m) = same_figures c m"
  by (simp add: same_figures_def same_cgt_def refreshed_parcel_id)

lemma spec_saved_figures:
  "list_all2 same_figures cs ms \<Longrightarrow> list_all2 same_figures cs (spec_saved d ms)"
proof (induction ms arbitrary: cs d)
  case Nil
  then show ?case by simp
next
  case (Cons m ms)
  from Cons.prems obtain c cs' where cs: "cs = c # cs'" "same_figures c m"
    "list_all2 same_figures cs' ms"
    by (auto simp: list_all2_Cons2)
  from cs(3) have "list_all2 same_figures cs' (spec_saved (spec_commit_one d m) ms)"
    by (rule Cons.IH)
  with cs(1,2) show ?case
    by (simp add: same_figures_refreshed)
qed

lemma spec_saved_map:
  "map cost_base_aud (spec_saved d ms) = map cost_base_aud ms"
  "map proceeds_aud (spec_saved d ms) = map proceeds_aud ms"
  "map capital_gain_loss (spec_saved d ms) = map capital_gain_loss ms"
  "map discount_amount (spec_saved d ms) = map discount_amount ms"
  "map net_capital_gain (spec_saved d ms) = map net_capital_gain ms"
  by (induction ms arbitrary: d) simp_all

lemma spec_saved_totals: "same_totals res (spec_saved d ms) = same_totals res ms"
  by (simp add: same_totals_def spec_saved_map)

section \<open>A column holds the value, whatever its representation\<close>

lemma quantize_shift:
  "quantize_dec k (Decimal (c * 10) (e - 1)) = quantize_dec k (Decimal c e)"
proof -
  consider "- int k \<le> e - 1" | "e = - int k" | "e < - int k" by linarith
  then show ?thesis
  proof cases
    case 1
    then have "nat (e + int k) = Suc (nat (e - 1 + int k))" by simp
    with 1 show ?thesis
      by (simp add: quantize_dec_def rescale_def Let_def)
  next
    case 2
    have r: "round_half_even (10 * nat \<bar>c\<bar>) (Suc 0) = nat \<bar>c\<bar>"
      by (simp add: round_half_even_def Let_def)
    have a: "nat \<bar>c * 10\<bar> = 10 * nat \<bar>c\<bar>"
      by (simp add: abs_mult nat_mult_distrib)
    have s: "sgn (c * 10) = sgn c"
      by (simp add: sgn_mult)
    from 2 show ?thesis
      by (simp add: quantize_dec_def rescale_def Let_def a r s mult_sgn_abs)
  next
    case 3
    then have n: "nat (- int k - (e - 1)) = Suc (nat (- int k - e))" by simp
    have a: "nat \<bar>c * 10\<bar> = 10 * nat \<bar>c\<bar>"
      by (simp add: abs_mult nat_mult_distrib)
    have s: "sgn (c * 10) = sgn c"
      by (simp add: sgn_mult)
    from 3 show ?thesis
      by (simp add: quantize_dec_def Let_def a s n round_half_even_times_10)
  qed
qed

lemma quantize_shift_pow:
  "quantize_dec k (Decimal (c * 10 ^ j) (e - int j)) = quantize_dec k (Decimal c e)"
proof (induction j)
  case 0
  then show ?case by simp
next
  case (Suc j)
  have eq: "Decimal (c * 10 ^ Suc j) (e - int (Suc j)) = Decimal (c * 10 ^ j * 10) (e - int j - 1)"
    by (simp add: mult.assoc)
  have "quantize_dec k (Decimal (c * 10 ^ j * 10) (e - int j - 1))
          = quantize_dec k (Decimal (c * 10 ^ j) (e - int j))"
    by (rule quantize_shift)
  also have "\<dots> = quantize_dec k (Decimal c e)"
    by (rule Suc.IH)
  finally show ?case unfolding eq .
qed

lemma quantize_cong_le:
  assumes "dval x = dval y" "exponent x \<le> exponent y"
  shows "quantize_dec k x = quantize_dec k y"
proof -
  let ?j = "nat (exponent y - exponent x)"
  have e: "exponent x = exponent y - int ?j" using assms(2) by simp
  have "x = Decimal (coefficient y * 10 ^ ?j) (exponent y - int ?j)"
    using dval_eq_coefficient [OF assms] e by (cases x) simp
  then have "quantize_dec k x = quantize_dec k (Decimal (coefficient y) (exponent y))"
    using quantize_shift_pow [of k "coefficient y" ?j "exponent y"] by simp
  then show ?thesis by simp
qed

lemma quantize_cong: "dval x = dval y \<Longrightarrow> quantize_dec k x = quantize_dec k y"
  using quantize_cong_le [of x y k] quantize_cong_le [of y x k]
  by (cases "exponent x \<le> exponent y") auto

section \<open>The forecast against the persisted rows\<close>

lemma spec_row_parcel_id: "parcel_id (parcel (spec_row d m)) = parcel_id (parcel m)"
  by (auto simp: spec_row_def stored_match_def stored_parcel_def decremented_def
        dest: get_parcel_id split: option.splits)

lemma rounded_figures_row:
  assumes "same_figures c m"
  shows "rounded_figures c (spec_row d m)"
proof -
  from assms have q: "c_matched_quantity c = matched_quantity m"
    and i: "c_parcel_id c = parcel_id (parcel m)"
    and f: "same_cgt c m"
    by (simp_all add: same_figures_def)
  from f have v: "dval (cost_base_aud m) = dval (cost_base_aud c)"
    "dval (proceeds_aud m) = dval (proceeds_aud c)"
    "dval (capital_gain_loss m) = dval (capital_gain_loss c)"
    "dval (discount_amount m) = dval (discount_amount c)"
    "dval (net_capital_gain m) = dval (net_capital_gain c)"
    and o: "holding_period_days m = holding_period_days c"
    "cgt_discount_eligible m = cgt_discount_eligible c"
    by (simp_all add: same_cgt_def)
  note r = v [THEN quantize_cong, of 6]
  show ?thesis
    unfolding rounded_figures_def spec_row_sel spec_row_parcel_id
    using q i o r by simp
qed

lemma spec_rows_figures:
  "list_all2 same_figures cs ms \<Longrightarrow> list_all2 rounded_figures cs (spec_rows d ms)"
proof (induction ms arbitrary: cs d)
  case Nil
  then show ?case by simp
next
  case (Cons m ms)
  from Cons.prems obtain c cs' where cs: "cs = c # cs'" "same_figures c m"
    "list_all2 same_figures cs' ms"
    by (auto simp: list_all2_Cons2)
  from cs(3) have "list_all2 rounded_figures cs' (spec_rows (spec_commit_one d m) ms)"
    by (rule Cons.IH)
  with cs(1) rounded_figures_row [OF cs(2), of d] show ?case
    by simp
qed

section \<open>The matched quantities\<close>

lemma greedy_dec_stop: "dec_le rem dec_zero \<Longrightarrow> greedy_dec rs rem = ([], rem)"
  by (cases rs) simp_all

lemma greedy_dec_grid:
  assumes "\<forall>r \<in> set rs. - 8 \<le> exponent r \<and> 0 < dval r"
    and "- 8 \<le> exponent rem" "dval rem < 10 ^ 20"
  shows "\<forall>q \<in> set (fst (greedy_dec rs rem)). - 8 \<le> exponent q \<and> 0 \<le> dval q"
  using assms
proof (induction rs arbitrary: rem)
  case Nil
  then show ?case by simp
next
  case (Cons r rs)
  show ?case
  proof (cases "dec_le rem dec_zero")
    case True
    then show ?thesis by simp
  next
    case False
    then have pos: "0 < dval rem" by (simp add: dec_le_def)
    let ?q = "py_min r rem"
    from Cons.prems(1) have r: "- 8 \<le> exponent r" "0 < dval r" by simp_all
    have q: "- 8 \<le> exponent ?q" "0 < dval ?q" "dval ?q \<le> dval rem"
      using r pos Cons.prems(2) by (simp_all add: py_min_def dec_less_def)
    have b: "\<bar>dval rem - dval ?q\<bar> < 10 ^ 20"
      using q(2,3) Cons.prems(3) by simp
    note g = dec_sub_grid(2,3) [OF Cons.prems(2) q(1) b]
    have rest: "\<forall>r \<in> set rs. - 8 \<le> exponent r \<and> 0 < dval r"
      using Cons.prems(1) by simp
    have lt: "dval (dec_sub rem ?q) < 10 ^ 20"
      using g(1) q(2) Cons.prems(3) by simp
    have "\<forall>q \<in> set (fst (greedy_dec rs (dec_sub rem ?q))). - 8 \<le> exponent q \<and> 0 \<le> dval q"
      using rest g(2) lt by (rule Cons.IH)
    with False q(1,2) show ?thesis
      by (simp add: split_beta Let_def less_imp_le)
  qed
qed

lemma column_scale:
  assumes "quantity_column q" "0 \<le> dval q"
  shows "dval q * 10 ^ 8 < 10 ^ 28"
proof -
  from assms have "dval q < 10 ^ 10" by (simp add: quantity_column_def)
  then have "dval q * 10 ^ 8 < 10 ^ 10 * 10 ^ 8"
    by (intro mult_strict_right_mono) simp_all
  also have "\<dots> < (10 ^ 28 :: rat)" by simp
  finally show ?thesis .
qed

lemma quantity_matched_sum:
  assumes rs: "\<forall>p \<in> set ps. - 8 \<le> exponent (remaining_quantity p)
                               \<and> 0 < dval (remaining_quantity p)"
    and col: "quantity_column qty"
  shows "dval (quantity_matched (simulate_strategy ps sec qty price sell_date))
           = dval (py_sum (fst (greedy_dec (map remaining_quantity ps) qty)))"
proof (cases "0 \<le> dval qty")
  case False
  then have stop: "dec_le qty dec_zero" by (simp add: dec_le_def)
  have e: "- 8 \<le> exponent qty" using col by (simp add: quantity_column_def)
  have "\<bar>dval qty - dval qty\<bar> < 10 ^ 20" by simp
  from dec_sub_grid(2) [OF e e this] have "dval (dec_sub qty qty) = 0" by simp
  then show ?thesis
    by (simp add: simulate_strategy_quantities greedy_dec_stop [OF stop] py_sum_def)
next
  case True
  let ?rs = "map remaining_quantity ps"
  let ?qs = "fst (greedy_dec ?rs qty)" and ?fin = "snd (greedy_dec ?rs qty)"
  have e: "- 8 \<le> exponent qty" and lt: "dval qty < 10 ^ 10"
    using col by (simp_all add: quantity_column_def abs_less_iff)
  have rs': "\<forall>r \<in> set ?rs. - 8 \<le> exponent r \<and> 0 < dval r"
    using rs by simp
  have e': "- int 8 \<le> exponent qty" using e by simp
  have ex: "map dval ?qs = greedy (map dval ?rs) (dval qty)
     \<and> dval ?fin = dval qty - sum_list (greedy (map dval ?rs) (dval qty))
     \<and> - int 8 \<le> exponent ?fin"
    using rs' _ e' True column_scale [OF col True] by (rule greedy_dec_exact) simp
  have rnn: "\<forall>r \<in> set (map dval ?rs). 0 \<le> r"
    using rs' by (auto simp: less_imp_le)
  have gs: "sum_list (greedy (map dval ?rs) (dval qty)) = min (dval qty) (sum_list (map dval ?rs))"
    by (rule greedy_sum [OF rnn True])
  have snn: "0 \<le> sum_list (map dval ?rs)"
    using rnn by (intro sum_list_nonneg) auto
  have sb: "0 \<le> sum_list (map dval ?qs)" "sum_list (map dval ?qs) < 10 ^ 20"
    using ex gs lt True snn by (simp_all add: min_def)
  have lt20: "dval qty < 10 ^ 20" using lt by simp
  have grid: "\<forall>q \<in> set ?qs. - 8 \<le> exponent q \<and> 0 \<le> dval q"
    using rs' e lt20 by (rule greedy_dec_grid)
  have ps: "dval (py_sum ?qs) = sum_list (map dval ?qs)"
    using grid sb(2) by (rule py_sum_grid)
  have fe: "- 8 \<le> exponent ?fin" using ex by simp
  have d: "dval qty - dval ?fin = sum_list (map dval ?qs)"
    using ex by simp
  have "\<bar>dval qty - dval ?fin\<bar> < 10 ^ 20"
    unfolding d using sb by simp
  from dec_sub_grid(2) [OF e fe this] d ps show ?thesis
    by (simp add: simulate_strategy_quantities)
qed

lemma match_auto_loop_quantities:
  "map matched_quantity (fst (match_auto_loop sell ps rem []))
     = fst (greedy_dec (map remaining_quantity ps) rem)"
proof -
  let ?qs = "fst (greedy_dec (map remaining_quantity ps) rem)"
  have "length ?qs \<le> length ps"
    using greedy_dec_length [of "map remaining_quantity ps" rem] by simp
  then have "map snd (zip ps ?qs) = ?qs"
    by (simp add: map_snd_zip_take min_def)
  moreover have "map matched_quantity (map (\<lambda>(p, q). build_match p sell q) (zip ps ?qs))
                   = map snd (zip ps ?qs)"
    by (simp add: split_beta)
  ultimately show ?thesis
    by (simp add: match_auto_loop_greedy)
qed

lemma candidates_positive:
  "p \<in> set (candidates d sec strategy) \<Longrightarrow>
     p \<in> set (parcels d) \<and> 0 < dval (remaining_quantity p)"
  by (auto simp: candidates_def by_acquisition_date_desc_def available_def dec_less_def
        split: if_splits)

text \<open>
  C2 (amended). Take a sell whose exchange rate is numerically 1, a state of the parcel
  table, and the strategy \<open>fifo\<close> or \<open>lifo\<close>, and let \<open>match\<close> return its matches. The
  simulation of \<open>_simulate_strategy\<close> on the same lots in the same order, with the sell's
  security, quantity, unit price and trade date, shows the same figures: its per-parcel
  entries are the matches one for one (same parcel, same matched quantity, and cost base,
  proceeds, gain/loss, discount and net gain equal as numbers, same holding period and
  eligibility), and each of its five totals is, as a number, the sum of that figure over
  the matches. With the sell's quantity and the parcels' remaining quantities as the
  columns hold them, the matched quantity it reports is the sum of the matched
  quantities. The matches a successful \<open>confirm_matches\<close> returns show the same figures
  again; the rows it adds to the table hold, entry for entry, the forecast's quantity
  rounded to 8 and its amounts rounded to 6 decimal places. A successful \<open>forecast\<close> for
  these parameters returns this simulation under the strategy's name. The per-parcel
  entries and the totals agree in the same way for the two loops run over any one list of
  lots, so the agreement does not rest on how lots acquired on the same day are ordered,
  only on both queries returning them in the same order.
\<close>

theorem forecast_matches_allocation:
  fixes d :: db and sell :: transaction and strategy :: string
  assumes st: "strategy = ''fifo'' \<or> strategy = ''lifo''"
    and fx: "dval (exchange_rate sell) = 1"
    and m: "match d sell strategy pl ql = Inr ms"
  defines "res \<equiv> simulate_strategy (candidates d (security sell) strategy) (security sell)
                    (quantity sell) (unit_price sell) (trade_date sell)"
  shows "list_all2 same_figures (parcels_consumed res) ms
     \<and> same_totals res ms
     \<and> (quantity_column (quantity sell)
          \<and> list_all (\<lambda>p. - 8 \<le> exponent (remaining_quantity p)) (parcels d) \<longrightarrow>
        dval (quantity_matched res) = dval (py_sum (map matched_quantity ms)))
     \<and> (\<forall>saved d'. confirm_matches d ms = (Inr saved, d') \<longrightarrow>
          list_all2 same_figures (parcels_consumed res) saved
          \<and> same_totals res saved
          \<and> take (length (parcel_matches d)) (parcel_matches d') = parcel_matches d
          \<and> list_all2 rounded_figures (parcels_consumed res)
               (drop (length (parcel_matches d)) (parcel_matches d')))
     \<and> (\<forall>today r. fst (forecast today d (security sell) (quantity sell) (unit_price sell)
                          (Some (trade_date sell))) = Inr r \<longrightarrow>
          (if strategy = ''fifo'' then fifo r else lifo r) = res)
     \<and> (\<forall>ps. list_all2 same_figures
                (parcels_consumed (simulate_strategy ps (security sell) (quantity sell)
                                     (unit_price sell) (trade_date sell)))
                (fst (match_auto_loop sell ps (quantity sell) []))
             \<and> same_totals
                 (simulate_strategy ps (security sell) (quantity sell) (unit_price sell)
                    (trade_date sell))
                 (fst (match_auto_loop sell ps (quantity sell) [])))"
proof -
  let ?cands = "candidates d (security sell) strategy"
  have ms: "ms = fst (match_auto_loop sell ?cands (quantity sell) [])"
    using st m by (rule match_auto_Inr)
  have a: "list_all2 same_figures (parcels_consumed res) ms"
    unfolding res_def ms using fx by (rule simulate_strategy_agrees(1))
  have b: "same_totals res ms"
    unfolding res_def ms using fx by (rule simulate_strategy_agrees(2))
  have c: "dval (quantity_matched res) = dval (py_sum (map matched_quantity ms))"
    if col: "quantity_column (quantity sell)"
      and tab: "list_all (\<lambda>p. - 8 \<le> exponent (remaining_quantity p)) (parcels d)"
  proof -
    have "\<forall>p \<in> set ?cands. - 8 \<le> exponent (remaining_quantity p)
                              \<and> 0 < dval (remaining_quantity p)"
      using tab candidates_positive [of _ d "security sell" strategy]
      by (auto simp: list_all_iff)
    from quantity_matched_sum [OF this col] show ?thesis
      unfolding res_def ms match_auto_loop_quantities .
  qed
  have e: "list_all2 same_figures (parcels_consumed res) saved \<and> same_totals res saved
          \<and> take (length (parcel_matches d)) (parcel_matches d') = parcel_matches d
          \<and> list_all2 rounded_figures (parcels_consumed res)
               (drop (length (parcel_matches d)) (parcel_matches d'))"
    if "confirm_matches d ms = (Inr saved, d')" for saved d'
  proof -
    note i = confirm_matches_Inr [OF that]
    from a have r: "list_all2 rounded_figures (parcels_consumed res) (spec_rows d ms)"
      by (rule spec_rows_figures)
    from a b i(1) r show ?thesis
      by (simp add: spec_saved_figures spec_saved_totals i(3))
  qed
  have f: "(if strategy = ''fifo'' then fifo r else lifo r) = res"
    if "fst (forecast today d (security sell) (quantity sell) (unit_price sell)
               (Some (trade_date sell))) = Inr r" for today r
    using forecast_Inr(4,5) [OF that]
    by (simp add: res_def candidates_def)
  have g: "list_all2 same_figures
             (parcels_consumed (simulate_strategy ps (security sell) (quantity sell)
                                  (unit_price sell) (trade_date sell)))
             (fst (match_auto_loop sell ps (quantity sell) []))
           \<and> same_totals
               (simulate_strategy ps (security sell) (quantity sell) (unit_price sell)
                  (trade_date sell))
               (fst (match_auto_loop sell ps (quantity sell) []))" for ps
    using simulate_strategy_agrees [OF fx, of ps] by blast
  from a b c e f g show ?thesis by blast
qed

section \<open>The forecast of a sell against its commit\<close>

lemma match_fifo_two:
  "match db_two sell_60 ''fifo'' None None = Inr [build_match lot_30 sell_60 qty_30, build_match lot_50 sell_60 qty_30]"
proof -
  have s: "security sell_60 = asx" "quantity sell_60 = Decimal 6000000000 (- 8)"
    "transaction_type sell_60 = SELL"
    by (simp_all add: sell_60_def)
  have c: "\<not> dec_le (Decimal 6000000000 (- 8)) dec_zero"
    "\<not> dec_le (Decimal 3000000000 (- 8)) dec_zero"
    "\<not> dec_less dec_zero (Decimal 0 (- 8))"
    by (simp_all add: dec_le_def dec_less_def dval_def dec_zero_def)
  have p: "py_min (Decimal 3000000000 (- 8)) (Decimal 6000000000 (- 8)) = qty_30"
    "py_min (Decimal 5000000000 (- 8)) (Decimal 3000000000 (- 8)) = qty_30"
    by (simp_all add: py_min_def dec_less_def dval_def qty_30_def)
  have d: "dec_sub (Decimal 6000000000 (- 8)) qty_30 = Decimal 3000000000 (- 8)"
    by (simp add: qty_30_def dec_eval)
  have l: "match_auto_loop sell_60 [lot_30, lot_50] (Decimal 6000000000 (- 8)) []
             = ([build_match lot_30 sell_60 qty_30, build_match lot_50 sell_60 qty_30], Decimal 0 (- 8))"
    by (simp add: c p d sub_30_30 Let_def)
  show ?thesis
    by (simp add: match_def match_auto_def s available_two by_date_two l c Let_def
          del: match_auto_loop.simps)
qed

lemma totals_two:
  "py_sum (map net_capital_gain [build_match lot_30 sell_60 qty_30, build_match lot_50 sell_60 qty_30]) = Decimal 418575000000000000000000 (- 21)"
  by (simp add: fig_a_net fig_b_net py_sum_def) (simp add: dec_eval)

theorem forecast_matches_allocation_witness:
  "dval (exchange_rate sell_60) = 1
   \<and> match db_two sell_60 ''fifo'' None None = Inr [build_match lot_30 sell_60 qty_30, build_match lot_50 sell_60 qty_30]
   \<and> list_all2 same_figures (parcels_consumed (simulate_strategy [lot_30, lot_50] asx (quantity sell_60) (unit_price sell_60)
          (trade_date sell_60))) [build_match lot_30 sell_60 qty_30, build_match lot_50 sell_60 qty_30]
   \<and> same_totals (simulate_strategy [lot_30, lot_50] asx (quantity sell_60) (unit_price sell_60)
          (trade_date sell_60)) [build_match lot_30 sell_60 qty_30, build_match lot_50 sell_60 qty_30]
   \<and> dval (total_net_gain (simulate_strategy [lot_30, lot_50] asx (quantity sell_60) (unit_price sell_60)
          (trade_date sell_60))) = 418575 / 1000
   \<and> quantity_column (quantity sell_60)
   \<and> list_all (\<lambda>p. - 8 \<le> exponent (remaining_quantity p)) (parcels db_two)
   \<and> dval (quantity_matched (simulate_strategy [lot_30, lot_50] asx (quantity sell_60) (unit_price sell_60)
          (trade_date sell_60))) = dval (py_sum (map matched_quantity [build_match lot_30 sell_60 qty_30, build_match lot_50 sell_60 qty_30]))
   \<and> confirm_matches db_two [build_match lot_30 sell_60 qty_30, build_match lot_50 sell_60 qty_30]
       = (Inr (spec_saved db_two [build_match lot_30 sell_60 qty_30, build_match lot_50 sell_60 qty_30]), spec_commit_all db_two [build_match lot_30 sell_60 qty_30, build_match lot_50 sell_60 qty_30])
   \<and> list_all2 same_figures (parcels_consumed (simulate_strategy [lot_30, lot_50] asx (quantity sell_60) (unit_price sell_60)
          (trade_date sell_60))) (spec_saved db_two [build_match lot_30 sell_60 qty_30, build_match lot_50 sell_60 qty_30])
   \<and> same_totals (simulate_strategy [lot_30, lot_50] asx (quantity sell_60) (unit_price sell_60)
          (trade_date sell_60)) (spec_saved db_two [build_match lot_30 sell_60 qty_30, build_match lot_50 sell_60 qty_30])
   \<and> list_all2 rounded_figures (parcels_consumed (simulate_strategy [lot_30, lot_50] asx (quantity sell_60) (unit_price sell_60)
          (trade_date sell_60)))
        (drop (length (parcel_matches db_two)) (parcel_matches (spec_commit_all db_two [build_match lot_30 sell_60 qty_30, build_match lot_50 sell_60 qty_30])))
   \<and> fst (forecast (Date 2025 6 15) db_two asx (quantity sell_60) (unit_price sell_60)
          (Some (trade_date sell_60))) = Inr (projr (fst (forecast (Date 2025 6 15) db_two asx (quantity sell_60) (unit_price sell_60)
          (Some (trade_date sell_60)))))
   \<and> fifo (projr (fst (forecast (Date 2025 6 15) db_two asx (quantity sell_60) (unit_price sell_60)
          (Some (trade_date sell_60))))) = simulate_strategy [lot_30, lot_50] asx (quantity sell_60) (unit_price sell_60)
          (trade_date sell_60)"
proof -
  have s: "security sell_60 = asx"
    by (simp add: sell_60_def)
  have f: "''fifo'' = ''fifo'' \<or> ''fifo'' = ''lifo''" by simp
  have fx: "dval (exchange_rate sell_60) = 1"
    by (simp add: sell_60_def dval_def power_int_minus)
  note t = forecast_matches_allocation [OF f fx match_fifo_two, unfolded s candidates_two]
  from t have t1: "list_all2 same_figures (parcels_consumed (simulate_strategy [lot_30, lot_50] asx (quantity sell_60) (unit_price sell_60)
          (trade_date sell_60))) [build_match lot_30 sell_60 qty_30, build_match lot_50 sell_60 qty_30]"
    and t2: "same_totals (simulate_strategy [lot_30, lot_50] asx (quantity sell_60) (unit_price sell_60)
          (trade_date sell_60)) [build_match lot_30 sell_60 qty_30, build_match lot_50 sell_60 qty_30]"
    by blast+
  have col: "quantity_column (quantity sell_60)"
    "list_all (\<lambda>p. - 8 \<le> exponent (remaining_quantity p)) (parcels db_two)"
    by (simp_all add: sell_60_def quantity_column_def dval_def db_two_def)
  from t col have t3: "dval (quantity_matched (simulate_strategy [lot_30, lot_50] asx (quantity sell_60) (unit_price sell_60)
          (trade_date sell_60))) = dval (py_sum (map matched_quantity [build_match lot_30 sell_60 qty_30, build_match lot_50 sell_60 qty_30]))"
    by blast
  from t have "\<forall>saved d'. confirm_matches db_two [build_match lot_30 sell_60 qty_30, build_match lot_50 sell_60 qty_30] = (Inr saved, d') \<longrightarrow>
          list_all2 same_figures (parcels_consumed (simulate_strategy [lot_30, lot_50] asx (quantity sell_60) (unit_price sell_60)
          (trade_date sell_60))) saved
          \<and> same_totals (simulate_strategy [lot_30, lot_50] asx (quantity sell_60) (unit_price sell_60)
          (trade_date sell_60)) saved
          \<and> take (length (parcel_matches db_two)) (parcel_matches d') = parcel_matches db_two
          \<and> list_all2 rounded_figures (parcels_consumed (simulate_strategy [lot_30, lot_50] asx (quantity sell_60) (unit_price sell_60)
          (trade_date sell_60)))
               (drop (length (parcel_matches db_two)) (parcel_matches d'))"
    by blast
  with confirm_two
  have t4: "list_all2 same_figures (parcels_consumed (simulate_strategy [lot_30, lot_50] asx (quantity sell_60) (unit_price sell_60)
          (trade_date sell_60))) (spec_saved db_two [build_match lot_30 sell_60 qty_30, build_match lot_50 sell_60 qty_30])"
    and t5: "same_totals (simulate_strategy [lot_30, lot_50] asx (quantity sell_60) (unit_price sell_60)
          (trade_date sell_60)) (spec_saved db_two [build_match lot_30 sell_60 qty_30, build_match lot_50 sell_60 qty_30])"
    and t6: "list_all2 rounded_figures (parcels_consumed (simulate_strategy [lot_30, lot_50] asx (quantity sell_60) (unit_price sell_60)
          (trade_date sell_60)))
        (drop (length (parcel_matches db_two)) (parcel_matches (spec_commit_all db_two [build_match lot_30 sell_60 qty_30, build_match lot_50 sell_60 qty_30])))"
    by blast+
  have ok: "fst (forecast (Date 2025 6 15) db_two asx (quantity sell_60) (unit_price sell_60)
          (Some (trade_date sell_60))) = Inr (projr (fst (forecast (Date 2025 6 15) db_two asx (quantity sell_60) (unit_price sell_60)
          (Some (trade_date sell_60)))))"
    by (rule forecast_ok) (simp_all add: total_two available_two sell_60_def dval_def)
  from t have "\<forall>today r. fst (forecast today db_two asx (quantity sell_60) (unit_price sell_60)
                          (Some (trade_date sell_60))) = Inr r \<longrightarrow>
          (if ''fifo'' = ''fifo'' then fifo r else lifo r) = simulate_strategy [lot_30, lot_50] asx (quantity sell_60) (unit_price sell_60)
          (trade_date sell_60)"
    by blast
  with ok have t7: "fifo (projr (fst (forecast (Date 2025 6 15) db_two asx (quantity sell_60) (unit_price sell_60)
          (Some (trade_date sell_60))))) = simulate_strategy [lot_30, lot_50] asx (quantity sell_60) (unit_price sell_60)
          (trade_date sell_60)"
    by (simp only: if_True refl simp_thms)
  from t2 have "dval (total_net_gain (simulate_strategy [lot_30, lot_50] asx (quantity sell_60) (unit_price sell_60)
          (trade_date sell_60))) = dval (py_sum (map net_capital_gain [build_match lot_30 sell_60 qty_30, build_match lot_50 sell_60 qty_30]))"
    by (simp only: same_totals_def)
  then have t8: "dval (total_net_gain (simulate_strategy [lot_30, lot_50] asx (quantity sell_60) (unit_price sell_60)
          (trade_date sell_60))) = 418575 / 1000"
    unfolding totals_two by (simp add: dval_def power_int_minus)
  from fx match_fifo_two t1 t2 t8 col t3 confirm_two t4 t5 t6 ok t7 show ?thesis
    by (simp only: simp_thms)
qed

lemma fig_x_cost: "cost_base_aud (calculate_cgt lot_30 sell_dust qty_dust) = Decimal 40095000 (- 14)"
  by (simp add: calculate_cgt_sel(1) lot_30_def qty_dust_def dec_eval)

lemma fig_x_proceeds: "proceeds_aud (calculate_cgt lot_30 sell_dust qty_dust) = Decimal 55000000000000 (- 20)"
  by (simp add: calculate_cgt_sel(2) sell_dust_def sell_60_def qty_dust_def dec_eval)

lemma fig_x_gain: "capital_gain_loss (calculate_cgt lot_30 sell_dust qty_dust) = Decimal 14905000000000 (- 20)"
  by (simp add: calculate_cgt_sel(3) fig_x_cost fig_x_proceeds dec_eval)

lemma fig_x_days: "holding_period_days (calculate_cgt lot_30 sell_dust qty_dust) = 522"
  by (simp add: calculate_cgt_sel(4) lot_30_def sell_dust_def sell_60_def date_eval)

lemma fig_x_eligible: "cgt_discount_eligible (calculate_cgt lot_30 sell_dust qty_dust)"
  by (simp add: calculate_cgt_sel(5) fig_x_days fig_x_gain dec_eval)

lemma fig_x_discount: "discount_amount (calculate_cgt lot_30 sell_dust qty_dust) = Decimal 74525000000000 (- 21)"
  by (simp add: calculate_cgt_sel(6) fig_x_eligible fig_x_gain dec_eval)

lemma fig_x_net: "net_capital_gain (calculate_cgt lot_30 sell_dust qty_dust) = Decimal 74525000000000 (- 21)"
  by (simp add: calculate_cgt_sel(7) fig_x_gain fig_x_discount dec_eval)

lemmas fig_x_figures =
  fig_x_cost fig_x_proceeds fig_x_gain fig_x_days fig_x_eligible fig_x_discount fig_x_net

lemma fig_x_fits: "match_fits (build_match lot_30 sell_dust qty_dust)"
  unfolding match_fits_def build_match_cgt build_match_sel
    fig_x_cost fig_x_proceeds fig_x_gain fig_x_discount fig_x_net
  by (simp add: qty_dust_def column_fits_def quantize_dec_def rescale_def round_half_even_def Let_def)

lemma match_dust:
  "match db_two sell_dust ''fifo'' None None = Inr [build_match lot_30 sell_dust qty_dust]"
proof -
  have s: "security sell_dust = asx" "quantity sell_dust = Decimal 1 (- 8)"
    "transaction_type sell_dust = SELL"
    by (simp_all add: sell_dust_def sell_60_def qty_dust_def)
  have c: "\<not> dec_le (Decimal 1 (- 8)) dec_zero" "dec_le (Decimal 0 (- 8)) dec_zero"
    "\<not> dec_less dec_zero (Decimal 0 (- 8))"
    by (simp_all add: dec_le_def dec_less_def dval_def dec_zero_def)
  have p: "py_min (Decimal 3000000000 (- 8)) (Decimal 1 (- 8)) = qty_dust"
    by (simp add: py_min_def dec_less_def dval_def qty_dust_def)
  have d: "dec_sub (Decimal 1 (- 8)) qty_dust = Decimal 0 (- 8)"
    by (simp add: qty_dust_def dec_eval)
  have l: "match_auto_loop sell_dust [lot_30, lot_50] (Decimal 1 (- 8)) []
             = ([build_match lot_30 sell_dust qty_dust], Decimal 0 (- 8))"
    by (simp add: c p d Let_def)
  show ?thesis
    by (simp add: match_def match_auto_def s available_two by_date_two l c Let_def
          del: match_auto_loop.simps)
qed

lemma confirm_dust:
  "confirm_matches db_two [build_match lot_30 sell_dust qty_dust] = (Inr (spec_saved db_two [build_match lot_30 sell_dust qty_dust]), spec_commit_all db_two [build_match lot_30 sell_dust qty_dust])"
proof -
  have d: "dec_sub (Decimal 3000000000 (- 8)) qty_dust = Decimal 2999999999 (- 8)"
    by (simp add: qty_dust_def dec_eval)
  have c: "column_fits 18 8 (Decimal 2999999999 (- 8))"
    by (simp add: column_fits_def quantize_dec_def rescale_def)
  have "\<not> missing db_two (build_match lot_30 sell_dust qty_dust) \<and> \<not> exceeds db_two (build_match lot_30 sell_dust qty_dust) \<and> \<not> unstorable db_two (build_match lot_30 sell_dust qty_dust)"
    by (simp add: missing_def exceeds_def unstorable_def fig_x_fits d c)
       (simp add: dec_less_def dval_def qty_dust_def)
  then have "\<forall>i<length [build_match lot_30 sell_dust qty_dust].
      \<not> missing (spec_commit_all db_two (take i [build_match lot_30 sell_dust qty_dust])) ([build_match lot_30 sell_dust qty_dust] ! i)
      \<and> \<not> exceeds (spec_commit_all db_two (take i [build_match lot_30 sell_dust qty_dust])) ([build_match lot_30 sell_dust qty_dust] ! i)
      \<and> \<not> unstorable (spec_commit_all db_two (take i [build_match lot_30 sell_dust qty_dust])) ([build_match lot_30 sell_dust qty_dust] ! i)"
    by (simp add: spec_commit_all_def)
  from confirm_loop_ok [OF this, of "[]"] show ?thesis
    by (simp add: confirm_matches_def)
qed

lemma rows_dust:
  "map proceeds_aud (parcel_matches (snd (confirm_matches db_two [build_match lot_30 sell_dust qty_dust]))) = [Decimal 1 (- 6)]"
proof -
  have q: "quantize_dec 6 (Decimal 55000000000000 (- 20)) = Decimal 1 (- 6)"
    by (simp add: quantize_dec_def round_half_even_def Let_def)
  have "parcel_matches (snd (confirm_matches db_two [build_match lot_30 sell_dust qty_dust]))
          = parcel_matches db_two @ spec_rows db_two [build_match lot_30 sell_dust qty_dust]"
    using confirm_matches_Inr(3) [OF confirm_dust] by (simp add: confirm_dust)
  then show ?thesis
    by (simp add: db_two_def fig_x_proceeds q)
qed

lemma forecast_dust:
  "dval (total_proceeds (simulate_strategy (candidates db_two (security sell_dust) ''fifo'')
           (security sell_dust) (quantity sell_dust) (unit_price sell_dust)
           (trade_date sell_dust))) = 55 / 100000000"
proof -
  have fx: "dval (exchange_rate sell_dust) = 1"
    by (simp add: sell_dust_def sell_60_def dval_def power_int_minus)
  have f: "''fifo'' = ''fifo'' \<or> ''fifo'' = ''lifo''" by simp
  have ms: "[build_match lot_30 sell_dust qty_dust] = fst (match_auto_loop sell_dust (candidates db_two (security sell_dust) ''fifo'')
                         (quantity sell_dust) [])"
    using f match_dust by (rule match_auto_Inr)
  have "same_totals (simulate_strategy (candidates db_two (security sell_dust) ''fifo'')
           (security sell_dust) (quantity sell_dust) (unit_price sell_dust)
           (trade_date sell_dust)) [build_match lot_30 sell_dust qty_dust]"
    unfolding ms using fx by (rule simulate_strategy_agrees(2))
  then have "dval (total_proceeds (simulate_strategy (candidates db_two (security sell_dust) ''fifo'')
           (security sell_dust) (quantity sell_dust) (unit_price sell_dust)
           (trade_date sell_dust))) = dval (py_sum (map proceeds_aud [build_match lot_30 sell_dust qty_dust]))"
    by (simp only: same_totals_def)
  also have "py_sum (map proceeds_aud [build_match lot_30 sell_dust qty_dust]) = Decimal 55000000000000 (- 20)"
    by (simp add: fig_x_proceeds py_sum_def) (simp add: dec_eval)
  also have "dval (Decimal 55000000000000 (- 20)) = 55 / 100000000"
    by (simp add: dval_def power_int_minus)
  finally show ?thesis .
qed

theorem forecast_persisted_counterexample:
  "dval (exchange_rate sell_dust) = 1
   \<and> match db_two sell_dust ''fifo'' None None = Inr [build_match lot_30 sell_dust qty_dust]
   \<and> fst (confirm_matches db_two [build_match lot_30 sell_dust qty_dust]) = Inr (spec_saved db_two [build_match lot_30 sell_dust qty_dust])
   \<and> map proceeds_aud (parcel_matches (snd (confirm_matches db_two [build_match lot_30 sell_dust qty_dust]))) = [Decimal 1 (- 6)]
   \<and> dval (total_proceeds (simulate_strategy (candidates db_two (security sell_dust) ''fifo'')
           (security sell_dust) (quantity sell_dust) (unit_price sell_dust)
           (trade_date sell_dust))) = 55 / 100000000
   \<and> dval (Decimal 1 (- 6)) \<noteq> 55 / 100000000"
proof -
  have fx: "dval (exchange_rate sell_dust) = 1"
    by (simp add: sell_dust_def sell_60_def dval_def power_int_minus)
  have e: "fst (confirm_matches db_two [build_match lot_30 sell_dust qty_dust]) = Inr (spec_saved db_two [build_match lot_30 sell_dust qty_dust])"
    by (simp add: confirm_dust)
  have n: "dval (Decimal 1 (- 6)) \<noteq> 55 / 100000000"
    by (simp add: dval_def power_int_minus)
  from fx match_dust e rows_dust forecast_dust n show ?thesis
    by (simp only: simp_thms)
qed

section \<open>The quantities of the engine's proposals\<close>

lemma greedy_dec_positive:
  "\<forall>r \<in> set rs. 0 < dval r \<Longrightarrow> \<forall>q \<in> set (fst (greedy_dec rs rem)). 0 < dval q"
proof (induction rs arbitrary: rem)
  case Nil
  then show ?case by simp
next
  case (Cons r rs)
  show ?case
  proof (cases "dec_le rem dec_zero")
    case True
    then show ?thesis by simp
  next
    case False
    then have pos: "0 < dval rem" by (simp add: dec_le_def)
    from Cons.prems have r: "0 < dval r" by simp
    have q: "0 < dval (py_min r rem)"
      using r pos by (simp add: py_min_def)
    from Cons.prems have "\<forall>r \<in> set rs. 0 < dval r" by simp
    then have "\<forall>q \<in> set (fst (greedy_dec rs (dec_sub rem (py_min r rem)))). 0 < dval q"
      by (rule Cons.IH)
    with False q show ?thesis
      by (simp add: split_beta Let_def)
  qed
qed

lemma match_quantities_positive:
  assumes "match d sell strategy pl ql = Inr ms"
  shows "\<forall>m \<in> set ms. 0 < dval (matched_quantity m)"
proof (cases "strategy = ''manual''")
  case True
  with assms have "match_manual sell (quantity sell) pl ql = Inr ms"
    by (simp add: match_def split: if_splits)
  then obtain pl' ql' where ms: "ms = map (\<lambda>(p, qty). build_match p sell qty) (kept_pairs pl' ql')"
    unfolding match_manual_iff_aux by blast
  show ?thesis
    unfolding ms by (auto simp: kept_pairs_def dec_le_def)
next
  case False
  with assms have st: "strategy = ''fifo'' \<or> strategy = ''lifo''"
    by (auto simp: match_def split: if_splits)
  let ?cands = "candidates d (security sell) strategy"
  have ms: "ms = fst (match_auto_loop sell ?cands (quantity sell) [])"
    using st assms by (rule match_auto_Inr)
  have "\<forall>r \<in> set (map remaining_quantity ?cands). 0 < dval r"
    using candidates_positive [of _ d "security sell" strategy] by auto
  then have "\<forall>q \<in> set (fst (greedy_dec (map remaining_quantity ?cands) (quantity sell))). 0 < dval q"
    by (rule greedy_dec_positive)
  then have "\<forall>q \<in> set (map matched_quantity ms). 0 < dval q"
    unfolding ms match_auto_loop_quantities .
  then show ?thesis by simp
qed

lemma match_auto_quantities_column:
  assumes st: "strategy = ''fifo'' \<or> strategy = ''lifo''"
    and m: "match d sell strategy pl ql = Inr ms"
    and col: "quantity_column (quantity sell)"
    and tab: "\<forall>p \<in> set (parcels d). - 8 \<le> exponent (remaining_quantity p)"
  shows "\<forall>m \<in> set ms. - 8 \<le> exponent (matched_quantity m)"
proof -
  let ?cands = "candidates d (security sell) strategy"
  have ms: "ms = fst (match_auto_loop sell ?cands (quantity sell) [])"
    using st m by (rule match_auto_Inr)
  have rs: "\<forall>r \<in> set (map remaining_quantity ?cands). - 8 \<le> exponent r \<and> 0 < dval r"
    using tab candidates_positive [of _ d "security sell" strategy] by auto
  from col have e: "- 8 \<le> exponent (quantity sell)" and lt: "dval (quantity sell) < 10 ^ 20"
    by (simp_all add: quantity_column_def abs_less_iff)
  have "\<forall>q \<in> set (fst (greedy_dec (map remaining_quantity ?cands) (quantity sell))).
          - 8 \<le> exponent q \<and> 0 \<le> dval q"
    using rs e lt by (rule greedy_dec_grid)
  then have "\<forall>q \<in> set (map matched_quantity ms). - 8 \<le> exponent q \<and> 0 \<le> dval q"
    unfolding ms match_auto_loop_quantities .
  then show ?thesis by simp
qed

end
